(* ===== verification/Prelude.thy ===== *)
theory Prelude
  imports Main "HOL-Library.Sublist"
begin

text \<open>
  Shared vocabulary of the development: the parts of Go's language and standard library that
  the sources under \<^verbatim>\<open>src/\<close> use.

  A Go \<^verbatim>\<open>string\<close> is a sequence of bytes, modelled as \<open>string\<close> (one \<open>char\<close> per byte).  A
  rune produced by ranging over a string is represented by its UTF-8 encoding, so writing a
  rune to a builder is appending that encoding.  A Go \<^verbatim>\<open>int\<close> or \<^verbatim>\<open>int64\<close> is an \<open>int\<close>; the
  operations of the sources that can leave the 64-bit range are wrapped by \<open>wrap64\<close>.
  Errors are the left side of a sum.

  Case mapping.  \<open>to_lower\<close>, \<open>to_upper\<close> and \<open>equal_fold\<close> know every rune whose image is ASCII
  (the ASCII letters, KELVIN SIGN, LATIN SMALL LETTER LONG S and the two Turkish i) and leave
  other runes alone, where Go maps them to other non-ASCII runes.  The sources only compare the
  results with ASCII constants or ASCII character classes, which cannot tell the difference;
  the one exception is the comparison of two WWNs, which are hexadecimal numbers.
\<close>

unbundle bit_operations_syntax

named_theorems go_string_simps \<open>evaluation rules for the string functions\<close>

subsection \<open>Integers\<close>

definition wrap64 :: "int \<Rightarrow> int" where
  "wrap64 x = (x + 2 ^ 63) mod 2 ^ 64 - 2 ^ 63"

definition int64_range :: "int \<Rightarrow> bool" where
  "int64_range x \<longleftrightarrow> - (2 ^ 63) \<le> x \<and> x < 2 ^ 63"

lemma wrap64_id: "int64_range x \<Longrightarrow> wrap64 x = x"
  by (simp add: wrap64_def int64_range_def)

lemma wrap64_range: "int64_range (wrap64 x)"
proof -
  have "0 \<le> (x + 2 ^ 63) mod 2 ^ 64" and "(x + 2 ^ 63) mod 2 ^ 64 < (2 ^ 64 :: int)"
    by (rule pos_mod_sign, simp, rule pos_mod_bound, simp)
  then show ?thesis by (simp add: wrap64_def int64_range_def)
qed

lemma wrap64_0 [simp]: "wrap64 0 = 0"
  by (simp add: wrap64_def)

lemma wrap64_add_left: "wrap64 (wrap64 x + y) = wrap64 (x + y)"
proof -
  have "(wrap64 x + y + 2 ^ 63) mod 2 ^ 64 = ((x + 2 ^ 63) mod 2 ^ 64 + y) mod 2 ^ 64"
    by (simp add: wrap64_def add.commute)
  also have "\<dots> = (x + 2 ^ 63 + y) mod 2 ^ 64" by (rule mod_add_left_eq)
  also have "\<dots> = (x + y + 2 ^ 63) mod 2 ^ 64" by (simp only: ac_simps)
  finally show ?thesis by (simp only: wrap64_def)
qed

fun nat_digits :: "nat \<Rightarrow> string" where
  "nat_digits n = (if n < 10 then [char_of (48 + n)]
                   else nat_digits (n div 10) @ [char_of (48 + n mod 10)])"

declare nat_digits.simps [simp del]

definition itoa :: "int \<Rightarrow> string" where
  "itoa i = (if i < 0 then ''-'' @ nat_digits (nat (- i)) else nat_digits (nat i))"

definition hex_digit :: "nat \<Rightarrow> char" where
  "hex_digit d = (if d < 10 then char_of (48 + d) else char_of (87 + d))"

fun hex_digits :: "nat \<Rightarrow> string" where
  "hex_digits n = (if n < 16 then [hex_digit n]
                   else hex_digits (n div 16) @ [hex_digit (n mod 16)])"

declare hex_digits.simps [simp del]

text \<open>\<^verbatim>\<open>fmt.Sprintf("%02x", i)\<close>: at least two characters, the sign included.\<close>

definition hex02 :: "int \<Rightarrow> string" where
  "hex02 i = (let body = hex_digits (nat \<bar>i\<bar>) in
     if i < 0 then ''-'' @ body
     else (if length body < 2 then ''0'' @ body else body))"

subsection \<open>Bytes, ASCII classes\<close>

abbreviation byte :: "char \<Rightarrow> nat" where
  "byte c \<equiv> of_char c"

definition is_ascii :: "string \<Rightarrow> bool" where
  "is_ascii s \<longleftrightarrow> list_all (\<lambda>c. byte c < 128) s"

definition is_lower_alnum :: "char \<Rightarrow> bool" where
  "is_lower_alnum c \<longleftrightarrow> (97 \<le> byte c \<and> byte c \<le> 122) \<or> (48 \<le> byte c \<and> byte c \<le> 57)"

definition is_alnum :: "char \<Rightarrow> bool" where
  "is_alnum c \<longleftrightarrow> is_lower_alnum c \<or> (65 \<le> byte c \<and> byte c \<le> 90)"

definition ascii_lower :: "char \<Rightarrow> char" where
  "ascii_lower c = (if 65 \<le> byte c \<and> byte c \<le> 90 then char_of (byte c + 32) else c)"

definition ascii_upper :: "char \<Rightarrow> char" where
  "ascii_upper c = (if 97 \<le> byte c \<and> byte c \<le> 122 then char_of (byte c - 32) else c)"

subsection \<open>Runes\<close>

definition cont_in :: "nat \<Rightarrow> nat \<Rightarrow> string \<Rightarrow> nat \<Rightarrow> bool" where
  "cont_in lo hi s i \<longleftrightarrow> i < length s \<and> lo \<le> byte (s ! i) \<and> byte (s ! i) \<le> hi"

text \<open>The width of the first rune of a non-empty string; \<open>0\<close> stands for an invalid encoding.\<close>

definition rune_width :: "string \<Rightarrow> nat" where
  "rune_width s = (let b = byte (hd s); c = cont_in 128 191 s in
     if b < 128 then 1
     else if 194 \<le> b \<and> b \<le> 223 \<and> c 1 then 2
     else if b = 224 \<and> cont_in 160 191 s 1 \<and> c 2 then 3
     else if 225 \<le> b \<and> b \<le> 239 \<and> b \<noteq> 237 \<and> c 1 \<and> c 2 then 3
     else if b = 237 \<and> cont_in 128 159 s 1 \<and> c 2 then 3
     else if b = 240 \<and> cont_in 144 191 s 1 \<and> c 2 \<and> c 3 then 4
     else if 241 \<le> b \<and> b \<le> 243 \<and> c 1 \<and> c 2 \<and> c 3 then 4
     else if b = 244 \<and> cont_in 128 143 s 1 \<and> c 2 \<and> c 3 then 4
     else 0)"

text \<open>The encoding of U+FFFD, which the range loop yields for an invalid byte.\<close>

definition rune_error :: string where
  "rune_error = [CHR 0xEF, CHR 0xBF, CHR 0xBD]"

function runes :: "string \<Rightarrow> string list" where
  "runes [] = []"
| "runes (b # s) =
     (let w = rune_width (b # s) in
      if w = 0 then rune_error # runes s
      else take w (b # s) # runes (drop (w - 1) s))"
  by pat_completeness auto
termination
  by (relation "measure length") auto

lemma runes_ascii_Cons: "byte c < 128 \<Longrightarrow> runes (c # s) = [c] # runes s"
  by (simp add: rune_width_def Let_def)

lemma runes_ascii: "is_ascii s \<Longrightarrow> runes s = map (\<lambda>c. [c]) s"
  by (induction s) (simp_all add: is_ascii_def runes_ascii_Cons del: runes.simps(2))

lemma runes_ascii_append: "is_ascii s \<Longrightarrow> runes (s @ t) = map (\<lambda>c. [c]) s @ runes t"
  by (induction s) (simp_all add: is_ascii_def runes_ascii_Cons del: runes.simps(2))

subsection \<open>Case mapping\<close>

definition lower_rune :: "string \<Rightarrow> string" where
  "lower_rune r = (case r of [c] \<Rightarrow> [ascii_lower c]
     | _ \<Rightarrow> if r = [CHR 0xE2, CHR 0x84, CHR 0xAA] then ''k''
           else if r = [CHR 0xC4, CHR 0xB0] then ''i'' else r)"

definition upper_rune :: "string \<Rightarrow> string" where
  "upper_rune r = (case r of [c] \<Rightarrow> [ascii_upper c]
     | _ \<Rightarrow> if r = [CHR 0xC4, CHR 0xB1] then ''I''
           else if r = [CHR 0xC5, CHR 0xBF] then ''S'' else r)"

definition fold_rune :: "string \<Rightarrow> string" where
  "fold_rune r = (case r of [c] \<Rightarrow> [ascii_lower c]
     | _ \<Rightarrow> if r = [CHR 0xE2, CHR 0x84, CHR 0xAA] then ''k''
           else if r = [CHR 0xC5, CHR 0xBF] then ''s'' else r)"

definition to_lower :: "string \<Rightarrow> string" where
  "to_lower s = concat (map lower_rune (runes s))"

definition to_upper :: "string \<Rightarrow> string" where
  "to_upper s = concat (map upper_rune (runes s))"

definition equal_fold :: "string \<Rightarrow> string \<Rightarrow> bool" where
  "equal_fold s t \<longleftrightarrow> map fold_rune (runes s) = map fold_rune (runes t)"

lemma to_lower_ascii: "is_ascii s \<Longrightarrow> to_lower s = map ascii_lower s"
  by (simp add: to_lower_def runes_ascii lower_rune_def comp_def)

lemma to_upper_ascii: "is_ascii s \<Longrightarrow> to_upper s = map ascii_upper s"
  by (simp add: to_upper_def runes_ascii upper_rune_def comp_def)

lemma equal_fold_refl [simp]: "equal_fold s s"
  by (simp add: equal_fold_def)

lemma equal_fold_sym: "equal_fold s t \<Longrightarrow> equal_fold t s"
  by (simp add: equal_fold_def)

lemma equal_fold_trans: "equal_fold s t \<Longrightarrow> equal_fold t u \<Longrightarrow> equal_fold s u"
  by (simp add: equal_fold_def)

subsection \<open>Trimming\<close>

text \<open>The encodings of the runes for which \<^verbatim>\<open>unicode.IsSpace\<close> holds.\<close>

definition space_encodings :: "string list" where
  "space_encodings =
     [[CHR 0x09], [CHR 0x0A], [CHR 0x0B], [CHR 0x0C], [CHR 0x0D], [CHR 0x20],
      [CHR 0xC2, CHR 0x85], [CHR 0xC2, CHR 0xA0], [CHR 0xE1, CHR 0x9A, CHR 0x80]] @
     map (\<lambda>b. [CHR 0xE2, CHR 0x80, b])
       [CHR 0x80, CHR 0x81, CHR 0x82, CHR 0x83, CHR 0x84, CHR 0x85, CHR 0x86, CHR 0x87,
        CHR 0x88, CHR 0x89, CHR 0x8A, CHR 0xA8, CHR 0xA9, CHR 0xAF] @
     [[CHR 0xE2, CHR 0x81, CHR 0x9F], [CHR 0xE3, CHR 0x80, CHR 0x80]]"

definition is_space_rune :: "string \<Rightarrow> bool" where
  "is_space_rune r \<longleftrightarrow> List.member space_encodings r"

definition leading :: "string list \<Rightarrow> string \<Rightarrow> string option" where
  "leading encs s = List.find (\<lambda>e. e \<noteq> [] \<and> prefix e s) encs"

lemma leading_None: "leading encs s = None \<longleftrightarrow> (\<forall>e \<in> set encs. e \<noteq> [] \<longrightarrow> \<not> prefix e s)"
  by (auto simp: leading_def find_None_iff)

lemma leading_Some: "leading encs s = Some e \<Longrightarrow> e \<in> set encs \<and> e \<noteq> [] \<and> prefix e s"
  by (auto simp: leading_def find_Some_iff)

function strip_left :: "string list \<Rightarrow> string \<Rightarrow> string" where
  "strip_left encs s =
     (case leading encs s of None \<Rightarrow> s | Some e \<Rightarrow> strip_left encs (drop (length e) s))"
  by pat_completeness auto
termination
proof (relation "measure (\<lambda>(encs, s). length s)", simp)
  fix encs :: "string list" and s e :: string
  assume "leading encs s = Some e"
  then have "e \<noteq> []" and "prefix e s" by (auto dest: leading_Some)
  then have "0 < length e" and "length e \<le> length s" by (auto dest: prefix_length_le)
  then have "length s - length e < length s" by linarith
  then show "((encs, drop (length e) s), encs, s) \<in> measure (\<lambda>(encs, s). length s)" by simp
qed

declare strip_left.simps [simp del]

definition trim_left :: "string \<Rightarrow> string" where
  "trim_left s = strip_left space_encodings s"

definition trim_right :: "string \<Rightarrow> string" where
  "trim_right s = rev (strip_left (map rev space_encodings) (rev s))"

definition trim_space :: "string \<Rightarrow> string" where
  "trim_space s = trim_right (trim_left s)"

lemma strip_left_leading: "leading encs (strip_left encs s) = None"
proof (induction encs s rule: strip_left.induct)
  case (1 encs s)
  then show ?case by (cases "leading encs s") (simp_all add: strip_left.simps [of encs s])
qed

lemma strip_left_fix: "leading encs s = None \<Longrightarrow> strip_left encs s = s"
  by (simp add: strip_left.simps)

lemma strip_left_suffix: "suffix (strip_left encs s) s"
proof (induction encs s rule: strip_left.induct)
  case (1 encs s)
  show ?case
  proof (cases "leading encs s")
    case None
    then show ?thesis by (simp add: strip_left.simps)
  next
    case (Some e)
    with 1 have "suffix (strip_left encs (drop (length e) s)) (drop (length e) s)" by simp
    with Some show ?thesis
      by (simp add: strip_left.simps [of encs s]) (meson suffix_drop suffix_order.trans)
  qed
qed

lemma trim_right_prefix: "prefix (trim_right s) s"
  using strip_left_suffix [of "map rev space_encodings" "rev s"]
  by (simp add: trim_right_def suffix_to_prefix)

lemma leading_mono: "leading encs s = None \<Longrightarrow> prefix t s \<Longrightarrow> leading encs t = None"
  unfolding leading_None by (meson prefix_order.trans)

lemma trim_space_idem [simp]: "trim_space (trim_space s) = trim_space s"
proof -
  have "leading space_encodings (trim_left s) = None"
    by (simp add: trim_left_def strip_left_leading)
  then have "leading space_encodings (trim_space s) = None"
    using trim_right_prefix leading_mono unfolding trim_space_def by blast
  then have left: "trim_left (trim_space s) = trim_space s"
    unfolding trim_left_def by (rule strip_left_fix)
  have "trim_right (trim_right t) = trim_right t" for t
    by (simp add: trim_right_def strip_left_fix strip_left_leading)
  with left show ?thesis by (simp add: trim_space_def)
qed

lemma trim_space_Nil [simp]: "trim_space [] = []"
  by (simp add: trim_space_def trim_left_def trim_right_def strip_left.simps leading_def
      space_encodings_def)

lemma trim_space_set: "set (trim_space s) \<subseteq> set s"
  using trim_right_prefix [of "trim_left s"] strip_left_suffix [of space_encodings s]
  unfolding trim_space_def trim_left_def
  by (meson order_trans set_mono_prefix set_mono_suffix)

subsection \<open>Splitting, cutting, joining\<close>

fun split_on :: "char \<Rightarrow> string \<Rightarrow> string list" where
  "split_on c [] = [[]]"
| "split_on c (x # xs) =
     (if x = c then [] # split_on c xs
      else (case split_on c xs of [] \<Rightarrow> [[x]] | p # ps \<Rightarrow> (x # p) # ps))"

definition cut :: "char \<Rightarrow> string \<Rightarrow> (string \<times> string) option" where
  "cut c s = (if c \<in> set s
              then Some (takeWhile (\<lambda>x. x \<noteq> c) s, tl (dropWhile (\<lambda>x. x \<noteq> c) s)) else None)"

fun join :: "string \<Rightarrow> string list \<Rightarrow> string" where
  "join sep [] = []"
| "join sep [p] = p"
| "join sep (p # q # ps) = p @ sep @ join sep (q # ps)"

definition trim_prefix :: "string \<Rightarrow> string \<Rightarrow> string" where
  "trim_prefix p s = (if prefix p s then drop (length p) s else s)"

lemma split_on_nonempty [simp]: "split_on c s \<noteq> []"
  by (cases s) (auto split: list.splits)

lemma split_on_notin: "c \<notin> set s \<Longrightarrow> split_on c s = [s]"
  by (induction s) auto

lemma split_on_append: "c \<notin> set p \<Longrightarrow> split_on c (p @ c # s) = p # split_on c s"
  by (induction p) auto

lemma split_on_join:
  "ps \<noteq> [] \<Longrightarrow> \<forall>p \<in> set ps. c \<notin> set p \<Longrightarrow> split_on c (join [c] ps) = ps"
  by (induction "[c]" ps rule: join.induct) (auto simp: split_on_notin split_on_append)

lemma split_on_parts: "p \<in> set (split_on c s) \<Longrightarrow> c \<notin> set p"
  by (induction s arbitrary: p) (auto split: if_splits list.splits)

lemma join_split_on: "join [c] (split_on c s) = s"
proof (induction s)
  case (Cons x xs)
  obtain p ps where p: "split_on c xs = p # ps"
    by (cases "split_on c xs") auto
  then show ?case using Cons by (cases ps) auto
qed simp

lemma cut_append: "c \<notin> set k \<Longrightarrow> cut c (k @ c # v) = Some (k, v)"
  by (simp add: cut_def takeWhile_tail dropWhile_append)

lemma cut_SomeD: "cut c s = Some (k, v) \<Longrightarrow> s = k @ c # v \<and> c \<notin> set k"
proof -
  assume "cut c s = Some (k, v)"
  then have c: "c \<in> set s" and k: "k = takeWhile (\<lambda>x. x \<noteq> c) s"
    and v: "v = tl (dropWhile (\<lambda>x. x \<noteq> c) s)"
    by (auto simp: cut_def split: if_splits)
  from c obtain d where d: "dropWhile (\<lambda>x. x \<noteq> c) s = c # d"
    by (metis (mono_tags, lifting) dropWhile_eq_Nil_conv hd_dropWhile list.collapse)
  have "s = takeWhile (\<lambda>x. x \<noteq> c) s @ dropWhile (\<lambda>x. x \<noteq> c) s" by simp
  then have "s = k @ c # v" using d k v by simp
  moreover have "c \<notin> set k" using k set_takeWhileD by fastforce
  ultimately show ?thesis by blast
qed

lemma cut_None: "cut c s = None \<longleftrightarrow> c \<notin> set s"
  by (simp add: cut_def)

subsection \<open>Decimal numbers and plain text\<close>

text \<open>The printable ASCII characters other than the space: none of them begins or ends a space.\<close>

definition plain :: "char \<Rightarrow> bool" where
  "plain c \<longleftrightarrow> 33 \<le> byte c \<and> byte c \<le> 126"

lemma leading_hd: "\<forall>e \<in> set encs. e \<noteq> [] \<longrightarrow> hd e \<noteq> c \<Longrightarrow> leading encs (c # s) = None"
  unfolding leading_None by (auto simp: prefix_def) (metis list.sel(1) append_Cons neq_Nil_conv)

lemma space_hd: "e \<in> set space_encodings \<Longrightarrow> \<not> plain (hd e)"
  by (auto simp: space_encodings_def plain_def)

lemma space_last: "e \<in> set (map rev space_encodings) \<Longrightarrow> \<not> plain (hd e)"
  by (auto simp: space_encodings_def plain_def)

lemma strip_left_plain:
  assumes "s \<noteq> []" and "plain (hd s)" and "\<forall>e \<in> set encs. \<not> plain (hd e)"
  shows "strip_left encs s = s"
proof (rule strip_left_fix)
  obtain c t where "s = c # t" using assms(1) by (cases s) auto
  then show "leading encs s = None" using assms(2,3) leading_hd [of encs c t] by auto
qed

lemma trim_space_plain:
  assumes "s \<noteq> []" and "plain (hd s)" and "plain (last s)"
  shows "trim_space s = s"
proof -
  have "trim_left s = s"
    unfolding trim_left_def using assms space_hd by (intro strip_left_plain) auto
  moreover have "trim_right s = s"
    unfolding trim_right_def
    using assms space_last strip_left_plain [of "rev s" "map rev space_encodings"]
    by (auto simp: hd_rev)
  ultimately show ?thesis by (simp add: trim_space_def)
qed

lemma trim_space_line:
  assumes "s \<noteq> []" and "plain (hd s)" and "plain (last s)"
  shows "trim_space (s @ [CHR 0x0A]) = s"
proof -
  have left: "trim_left (s @ [CHR 0x0A]) = s @ [CHR 0x0A]"
    unfolding trim_left_def using assms space_hd by (intro strip_left_plain) auto
  have "leading (map rev space_encodings) (CHR 0x0A # rev s) = Some [CHR 0x0A]"
    by (simp add: leading_def space_encodings_def)
  then have "strip_left (map rev space_encodings) (rev (s @ [CHR 0x0A])) =
      strip_left (map rev space_encodings) (rev s)"
    by (simp add: strip_left.simps [of _ "CHR 0x0A # rev s"])
  also have "\<dots> = rev s"
    using assms space_last by (intro strip_left_plain) (auto simp: hd_rev)
  finally show ?thesis by (simp add: trim_space_def left trim_right_def)
qed

lemma nat_digits_nonempty [simp]: "nat_digits n \<noteq> []"
  by (cases "n < 10") (simp_all add: nat_digits.simps [of n])

definition is_digit :: "char \<Rightarrow> bool" where
  "is_digit c \<longleftrightarrow> 48 \<le> byte c \<and> byte c \<le> 57"

definition digits_value :: "string \<Rightarrow> nat" where
  "digits_value ds = foldl (\<lambda>n c. n * 10 + (byte c - 48)) 0 ds"

lemma digit_plain: "is_digit c \<Longrightarrow> plain c"
  by (simp add: is_digit_def plain_def)

lemma is_digit_of: "(d :: nat) < 10 \<Longrightarrow> is_digit (char_of (48 + d))"
  by (simp add: is_digit_def)

lemma nat_digits_all: "c \<in> set (nat_digits n) \<Longrightarrow> is_digit c"
proof (induction n rule: nat_digits.induct)
  case (1 n)
  then show ?case
    by (cases "n < 10") (auto simp: nat_digits.simps [of n] intro: is_digit_of)
qed

lemma digits_value_nat_digits: "digits_value (nat_digits n) = n"
proof (induction n rule: nat_digits.induct)
  case (1 n)
  show ?case
  proof (cases "n < 10")
    case True
    then show ?thesis by (simp add: nat_digits.simps [of n] digits_value_def)
  next
    case False
    have "digits_value (nat_digits n) = digits_value (nat_digits (n div 10)) * 10 + n mod 10"
      using False by (simp add: nat_digits.simps [of n] digits_value_def)
    then show ?thesis using 1 False by simp
  qed
qed

lemma itoa_plain: "itoa i \<noteq> []" "plain (hd (itoa i))" "plain (last (itoa i))"
proof -
  have d: "plain (hd (nat_digits n))" "plain (last (nat_digits n))" for n
    using nat_digits_all digit_plain nat_digits_nonempty by (metis hd_in_set last_in_set)+
  show "itoa i \<noteq> []" by (simp add: itoa_def)
  show "plain (hd (itoa i))" using d by (simp add: itoa_def plain_def)
  show "plain (last (itoa i))" using d by (simp add: itoa_def)
qed

end
