(* ===== verification/Api_Types.thy ===== *)
theory Api_Types
  imports Prelude
begin

text \<open>
  The PhysicalDisk API (\<^verbatim>\<open>pkg/apis/node-disk-sentinel.org/v1alpha1/physicaldisk_types.go\<close>):
  one record per struct, with the fields of the struct and an \<open>option\<close> for each pointer.
  \<^verbatim>\<open>DiskHealthStatus\<close> is a string type whose values are the enumeration of the CRD, plus the
  empty string of a disk that was never assessed (\<open>StatusUnset\<close>); \<open>status_string\<close> gives the
  string back.  The severity order of the assessment makes the statuses a linear order.

  \<open>Condition\<close>, \<open>OwnerReference\<close> and \<open>ObjectMeta\<close> carry the fields of the Kubernetes structs that
  the sources read or write.
\<close>

datatype DiskHealthStatus =
    StatusUnset
  | StatusUnknown
  | StatusGood
  | StatusAttributeFailedInPast
  | StatusSectorErrors
  | StatusAttributeFailingNow
  | StatusExcessiveSectorErrors
  | StatusSelfAssessmentFailed

fun status_string :: "DiskHealthStatus \<Rightarrow> string" where
  "status_string StatusUnset = ''''"
| "status_string StatusGood = ''Good''"
| "status_string StatusSectorErrors = ''SectorErrors''"
| "status_string StatusExcessiveSectorErrors = ''ExcessiveSectorErrors''"
| "status_string StatusAttributeFailingNow = ''AttributeFailingNow''"
| "status_string StatusAttributeFailedInPast = ''AttributeFailedInPast''"
| "status_string StatusSelfAssessmentFailed = ''SelfAssessmentFailed''"
| "status_string StatusUnknown = ''Unknown''"

definition AllDiskHealthStatuses :: "DiskHealthStatus list" where
  "AllDiskHealthStatuses =
     [StatusGood, StatusSectorErrors, StatusExcessiveSectorErrors, StatusAttributeFailingNow,
      StatusAttributeFailedInPast, StatusSelfAssessmentFailed, StatusUnknown]"

text \<open>The rank of a status in the assessment cascades.\<close>

fun severity :: "DiskHealthStatus \<Rightarrow> nat" where
  "severity StatusUnset = 0"
| "severity StatusUnknown = 1"
| "severity StatusGood = 2"
| "severity StatusAttributeFailedInPast = 3"
| "severity StatusSectorErrors = 4"
| "severity StatusAttributeFailingNow = 5"
| "severity StatusExcessiveSectorErrors = 6"
| "severity StatusSelfAssessmentFailed = 7"

lemma severity_inj: "severity s = severity t \<Longrightarrow> s = t"
  by (cases s; cases t) simp_all

instantiation DiskHealthStatus :: linorder
begin

definition less_eq_DiskHealthStatus :: "DiskHealthStatus \<Rightarrow> DiskHealthStatus \<Rightarrow> bool" where
  "less_eq_DiskHealthStatus s t \<longleftrightarrow> severity s \<le> severity t"

definition less_DiskHealthStatus :: "DiskHealthStatus \<Rightarrow> DiskHealthStatus \<Rightarrow> bool" where
  "less_DiskHealthStatus s t \<longleftrightarrow> severity s < severity t"

instance
  by standard
    (auto simp: less_eq_DiskHealthStatus_def less_DiskHealthStatus_def dest: severity_inj)

end

lemmas status_order = less_eq_DiskHealthStatus_def less_DiskHealthStatus_def

lemma status_string_inj: "status_string s = status_string t \<longleftrightarrow> s = t"
  by (cases s; cases t) simp_all

lemma all_statuses_distinct: "distinct AllDiskHealthStatuses"
  by (simp add: AllDiskHealthStatuses_def)

lemma all_statuses_complete: "s \<in> set AllDiskHealthStatuses \<longleftrightarrow> s \<noteq> StatusUnset"
  by (cases s) (simp_all add: AllDiskHealthStatuses_def)

subsection \<open>Constants\<close>

definition ConditionDegraded :: string where
  "ConditionDegraded = ''Degraded''"

definition ConditionDataCollected :: string where
  "ConditionDataCollected = ''DataCollected''"

definition ReasonSucceeded :: string where
  "ReasonSucceeded = ''Succeeded''"

definition ReasonFailed :: string where
  "ReasonFailed = ''Failed''"

definition ReasonSkippedStandby :: string where
  "ReasonSkippedStandby = ''SkippedStandby''"

definition ReasonDiskMissing :: string where
  "ReasonDiskMissing = ''DiskMissing''"

definition ReasonSmartUnsupported :: string where
  "ReasonSmartUnsupported = ''SmartUnsupported''"

lemmas reason_defs = ReasonSucceeded_def ReasonFailed_def ReasonSkippedStandby_def
  ReasonDiskMissing_def ReasonSmartUnsupported_def

lemma condition_types_differ [simp]:
  "ConditionDegraded \<noteq> ConditionDataCollected" "ConditionDataCollected \<noteq> ConditionDegraded"
  by (simp_all add: ConditionDegraded_def ConditionDataCollected_def)

subsection \<open>Spec\<close>

record SmartctlSpec =
  ExtraCmdArgs :: string

record SmartmontoolsSpec =
  Smartctl :: "SmartctlSpec option"

record PhysicalDiskSpec =
  NodeName :: string
  Smartmontools :: "SmartmontoolsSpec option"

subsection \<open>Status\<close>

record DiskInfo =
  di_Path :: string
  di_CanonicalPath :: string
  di_Name :: string
  di_SysPath :: string
  di_Links :: "string list"
  di_Major :: int
  di_Minor :: int
  di_Type :: string
  di_Bus :: string
  di_Model :: string
  di_Vendor :: string
  di_Serial :: string
  di_SerialShort :: string
  di_WWN :: string
  di_BusPath :: string
  di_Capacity :: int
  di_Rotational :: "bool option"
  di_FirmwareVersion :: string

text \<open>The zero value of the struct.\<close>

definition empty_DiskInfo :: DiskInfo where
  "empty_DiskInfo = \<lparr>di_Path = [], di_CanonicalPath = [], di_Name = [], di_SysPath = [],
     di_Links = [], di_Major = 0, di_Minor = 0, di_Type = [], di_Bus = [], di_Model = [],
     di_Vendor = [], di_Serial = [], di_SerialShort = [], di_WWN = [], di_BusPath = [],
     di_Capacity = 0, di_Rotational = None, di_FirmwareVersion = []\<rparr>"

record DiskTelemetry =
  TemperatureCelsius :: "int option"
  PowerOnHours :: "int option"
  PowerCycleCount :: "int option"
  ReallocatedSectors :: "int option"
  PendingSectors :: "int option"
  PercentageUsed :: "int option"
  AvailableSpare :: "int option"
  CriticalWarning :: "int option"
  MediaErrors :: "int option"

definition empty_DiskTelemetry :: DiskTelemetry where
  "empty_DiskTelemetry = \<lparr>TemperatureCelsius = None, PowerOnHours = None,
     PowerCycleCount = None, ReallocatedSectors = None, PendingSectors = None,
     PercentageUsed = None, AvailableSpare = None, CriticalWarning = None, MediaErrors = None\<rparr>"

record Finding =
  f_ID :: string
  f_AttributeID :: "int option"
  f_AttributeName :: string
  f_RawValue :: int
  f_Message :: string

datatype ConditionStatus = ConditionTrue | ConditionFalse | ConditionUnknown

record Condition =
  c_Type :: string
  c_Status :: ConditionStatus
  c_Reason :: string
  c_Message :: string
  c_LastTransitionTime :: int

record PhysicalDiskStatus =
  Health :: DiskHealthStatus
  LastDataCollectedTime :: "int option"
  Conditions :: "Condition list"
  Info :: DiskInfo
  Telemetry :: "DiskTelemetry option"
  Findings :: "Finding list"

definition empty_PhysicalDiskStatus :: PhysicalDiskStatus where
  "empty_PhysicalDiskStatus = \<lparr>Health = StatusUnset, LastDataCollectedTime = None,
     Conditions = [], Info = empty_DiskInfo, Telemetry = None, Findings = []\<rparr>"

record OwnerReference =
  or_APIVersion :: string
  or_Kind :: string
  or_Name :: string
  or_UID :: string
  or_Controller :: "bool option"

record PhysicalDisk =
  pd_Name :: string
  pd_Labels :: "string \<rightharpoonup> string"
  pd_OwnerReferences :: "OwnerReference list"
  pd_Generation :: int
  pd_ResourceVersion :: string
  pd_Spec :: PhysicalDiskSpec
  pd_Status :: PhysicalDiskStatus

text \<open>The condition of a given type, as \<^verbatim>\<open>meta.FindStatusCondition\<close> looks it up.\<close>

definition find_condition :: "string \<Rightarrow> Condition list \<Rightarrow> Condition option" where
  "find_condition t cs = List.find (\<lambda>c. c_Type c = t) cs"

lemma find_condition_Nil [simp]: "find_condition t [] = None"
  by (simp add: find_condition_def)

lemma find_condition_type: "find_condition t cs = Some c \<Longrightarrow> c_Type c = t"
  by (auto simp: find_condition_def find_Some_iff)

text \<open>
  The invariant stated at the field \<^verbatim>\<open>Health\<close>: the health is the reason of the condition
  \<^verbatim>\<open>Degraded\<close>; a disk that was never assessed has neither.
\<close>

definition health_in_sync :: "PhysicalDiskStatus \<Rightarrow> bool" where
  "health_in_sync st \<longleftrightarrow>
     (case find_condition ConditionDegraded (Conditions st) of
        None \<Rightarrow> Health st = StatusUnset
      | Some c \<Rightarrow> Health st \<noteq> StatusUnset \<and> c_Reason c = status_string (Health st))"

end
