(* ===== verification/Smartctl.thy ===== *)
theory Smartctl
  imports Prelude
begin

text \<open>
  The JSON model of smartctl's output (\<^verbatim>\<open>pkg/smartmontools/types.go\<close>) and the exit status bits
  (\<^verbatim>\<open>pkg/smartmontools/runner.go\<close>).  \<^verbatim>\<open>AtaAttribute.Flags\<close>, an opaque JSON object that no source
  reads, has no field here.
\<close>

record DeviceTemperature =
  Current :: int

record PowerOnTime =
  Hours :: int

record Message =
  m_String :: string
  m_Severity :: string

record SmartctlInfo =
  Version :: "int list"
  ExitStatus :: int
  Messages :: "Message list"

record DeviceHeader =
  dh_Name :: string
  dh_InfoName :: string
  dh_Type :: string
  Protocol :: string

record SmartStatus =
  Passed :: bool

record SmartSupport =
  Available :: bool
  Enabled :: bool

record AtaAttributeRaw =
  raw_Value :: int
  raw_String :: string

record AtaAttribute =
  a_ID :: int
  a_Name :: string
  a_Value :: int
  a_Worst :: int
  a_Threshold :: int
  a_WhenFailed :: string
  a_Raw :: AtaAttributeRaw

record AtaSmartAttributes =
  Revision :: int
  Table :: "AtaAttribute list"

record NvmeSmartHealth =
  n_CriticalWarning :: int
  n_Temperature :: int
  n_AvailableSpare :: int
  n_AvailableSpareThreshold :: int
  n_PercentageUsed :: int
  n_DataUnitsRead :: int
  n_DataUnitsWritten :: int
  n_HostReads :: int
  n_HostWrites :: int
  n_MediaErrors :: int
  n_NumErrLogEntries :: int

record ScsiErrorCounters =
  TotalErrorsCorrected :: int
  TotalUncorrectedErrors :: int

record ScsiErrorLog =
  Read :: "ScsiErrorCounters option"
  Write :: "ScsiErrorCounters option"

record SmartctlOutput =
  so_Smartctl :: SmartctlInfo
  so_Device :: DeviceHeader
  so_ModelFamily :: string
  so_ModelName :: string
  so_SerialNumber :: string
  so_FirmwareVersion :: string
  so_SmartStatus :: SmartStatus
  so_SmartSupport :: "SmartSupport option"
  so_Temperature :: "DeviceTemperature option"
  so_PowerOnTime :: "PowerOnTime option"
  so_PowerCycleCount :: "int option"
  so_RotationRate :: int
  so_AtaSmartAttributes :: "AtaSmartAttributes option"
  so_NvmeSmart :: "NvmeSmartHealth option"
  so_ScsiErrorLog :: "ScsiErrorLog option"

subsection \<open>Exit status\<close>

definition exitBitCommandLine :: int where
  "exitBitCommandLine = push_bit 0 1"

definition exitBitDeviceOpen :: int where
  "exitBitDeviceOpen = push_bit 1 1"

definition ExitBitCommandFailed :: int where
  "ExitBitCommandFailed = push_bit 2 1"

definition ExitBitDiskFailing :: int where
  "ExitBitDiskFailing = push_bit 3 1"

definition ExitBitPrefailBelow :: int where
  "ExitBitPrefailBelow = push_bit 4 1"

definition ExitBitBelowPast :: int where
  "ExitBitBelowPast = push_bit 5 1"

lemmas exit_bit_defs = exitBitCommandLine_def exitBitDeviceOpen_def ExitBitCommandFailed_def
  ExitBitDiskFailing_def ExitBitPrefailBelow_def ExitBitBelowPast_def

definition HasExitBit :: "SmartctlInfo \<Rightarrow> int \<Rightarrow> bool" where
  "HasExitBit i b \<longleftrightarrow> ExitStatus i AND b \<noteq> 0"

lemma and_push_bit_1: "(x AND push_bit n 1 \<noteq> (0::int)) = bit x n"
  by (metis and_exp_eq_0_iff_not_bit push_bit_of_1)

lemma HasExitBit_bit: "HasExitBit i (push_bit n 1) = bit (ExitStatus i) n"
  by (simp add: HasExitBit_def and_push_bit_1 del: push_bit_of_1)

subsection \<open>Messages\<close>

definition Text :: "SmartctlInfo \<Rightarrow> string" where
  "Text i = join ''; '' (filter (\<lambda>s. s \<noteq> []) (map m_String (Messages i)))"

definition IndicatesLowPower :: "SmartctlInfo \<Rightarrow> bool" where
  "IndicatesLowPower i \<longleftrightarrow>
     list_ex (\<lambda>m. let upper = to_upper (m_String m) in
        sublist ''STANDBY'' upper \<or> sublist ''SLEEP'' upper) (Messages i)"

subsection \<open>Values of \<open>when_failed\<close>\<close>

definition AttributeWhenFailedNow :: string where
  "AttributeWhenFailedNow = ''now''"

definition AttributeWhenFailedPast :: string where
  "AttributeWhenFailedPast = ''past''"

definition AttributeWhenFailedFailingNow :: string where
  "AttributeWhenFailedFailingNow = ''failing_now''"

definition AttributeWhenFailedInThePast :: string where
  "AttributeWhenFailedInThePast = ''in_the_past''"

end
