(* ===== verification/Assessment.thy ===== *)
theory Assessment
  imports Api_Types Smartctl
begin

text \<open>
  The health assessment (\<^verbatim>\<open>pkg/assessment/assessment.go\<close>): \<open>Evaluate\<close> with its ATA cascade and
  \<open>evaluateNvmeOrScsi\<close>, findings and messages included.  The loop over the attribute table is the
  fold of \<open>scan_attribute\<close> over a record that holds the loop's variables.

  \<open>indications\<close> is the specification: the set of statuses that the documentation's levels derive
  from the data, each level on its own.  The reported status is the most severe of them.
\<close>

subsection \<open>The code\<close>

record AssessmentResult =
  ar_Status :: DiskHealthStatus
  ar_Findings :: "Finding list"

definition result :: "DiskHealthStatus \<Rightarrow> Finding list \<Rightarrow> AssessmentResult" where
  "result s fs = \<lparr>ar_Status = s, ar_Findings = fs\<rparr>"

definition isAttributeFailingNow :: "AtaAttribute \<Rightarrow> bool" where
  "isAttributeFailingNow attr \<longleftrightarrow>
     (if a_WhenFailed attr = AttributeWhenFailedNow \<or>
         equal_fold (a_WhenFailed attr) AttributeWhenFailedFailingNow then True
      else if a_Threshold attr > 0 \<and> a_Threshold attr \<le> 0xFD \<and> a_Value attr > 0 \<and>
         a_Value attr \<le> a_Threshold attr then True
      else False)"

definition isAttributeFailedInPast :: "AtaAttribute \<Rightarrow> bool" where
  "isAttributeFailedInPast attr \<longleftrightarrow>
     (if a_WhenFailed attr = AttributeWhenFailedPast \<or>
         equal_fold (a_WhenFailed attr) AttributeWhenFailedInThePast then True
      else if a_Threshold attr > 0 \<and> a_Threshold attr \<le> 0xFD \<and> a_Worst attr > 0 \<and>
         a_Worst attr \<le> a_Threshold attr then True
      else False)"

record ata_scan =
  hasSectorFailingNow :: bool
  hasOtherFailingNow :: bool
  hasFailedInPast :: bool
  reallocatedSec :: int
  pendingSec :: int
  scan_findings :: "Finding list"

definition ata_scan_init :: ata_scan where
  "ata_scan_init = \<lparr>hasSectorFailingNow = False, hasOtherFailingNow = False,
     hasFailedInPast = False, reallocatedSec = 0, pendingSec = 0, scan_findings = []\<rparr>"

definition failing_now_finding :: "AtaAttribute \<Rightarrow> Finding" where
  "failing_now_finding attr =
     \<lparr>f_ID = ''ATTRIBUTE_'' @ itoa (a_ID attr) @ ''_FAILING_NOW'',
      f_AttributeID = Some (a_ID attr), f_AttributeName = a_Name attr,
      f_RawValue = raw_Value (a_Raw attr),
      f_Message = ''Attribute '' @ a_Name attr @ '' (ID '' @ itoa (a_ID attr) @
        '') is currently FAILING NOW (value: '' @ itoa (a_Value attr) @ '', thresh: '' @
        itoa (a_Threshold attr) @ '')''\<rparr>"

definition failed_past_finding :: "AtaAttribute \<Rightarrow> Finding" where
  "failed_past_finding attr =
     \<lparr>f_ID = ''ATTRIBUTE_'' @ itoa (a_ID attr) @ ''_FAILED_PAST'',
      f_AttributeID = Some (a_ID attr), f_AttributeName = a_Name attr,
      f_RawValue = raw_Value (a_Raw attr),
      f_Message = ''Attribute '' @ a_Name attr @ '' (ID '' @ itoa (a_ID attr) @
        '') previously dropped below threshold (in the past)''\<rparr>"

definition scan_attribute :: "AtaAttribute \<Rightarrow> ata_scan \<Rightarrow> ata_scan" where
  "scan_attribute attr s =
     (let s1 =
        (if isAttributeFailingNow attr then
           (let s' = (if a_ID attr = 5 \<or> a_ID attr = 197 then s\<lparr>hasSectorFailingNow := True\<rparr>
                      else s\<lparr>hasOtherFailingNow := True\<rparr>)
            in s'\<lparr>scan_findings := scan_findings s' @ [failing_now_finding attr]\<rparr>)
         else if isAttributeFailedInPast attr then
           s\<lparr>hasFailedInPast := True,
             scan_findings := scan_findings s @ [failed_past_finding attr]\<rparr>
         else s);
        s2 = (if a_ID attr = 5 then s1\<lparr>reallocatedSec := raw_Value (a_Raw attr)\<rparr> else s1)
      in if a_ID attr = 197 then s2\<lparr>pendingSec := raw_Value (a_Raw attr)\<rparr> else s2)"

definition plain_finding :: "string \<Rightarrow> string \<Rightarrow> int \<Rightarrow> string \<Rightarrow> Finding" where
  "plain_finding i n v m = \<lparr>f_ID = i, f_AttributeID = None, f_AttributeName = n,
     f_RawValue = v, f_Message = m\<rparr>"

definition evaluateNvmeOrScsi :: "SmartctlOutput \<Rightarrow> AssessmentResult" where
  "evaluateNvmeOrScsi d =
     (let failed = \<not> Passed (so_SmartStatus d) \<or> HasExitBit (so_Smartctl d) ExitBitDiskFailing in
      case so_NvmeSmart d of
        Some nvme \<Rightarrow>
          if failed \<or> n_CriticalWarning nvme > 0 then
            result StatusSelfAssessmentFailed
              [plain_finding ''NVME_CRITICAL_WARNING'' ''CriticalWarning'' (n_CriticalWarning nvme)
                (if n_CriticalWarning nvme > 0
                 then ''NVMe critical warning bitmask set (0x'' @ hex02 (n_CriticalWarning nvme) @ '')''
                 else ''Device self-assessment reported failing or critical warning'')]
          else if n_AvailableSpareThreshold nvme > 0 \<and>
                  n_AvailableSpare nvme < n_AvailableSpareThreshold nvme then
            result StatusAttributeFailingNow
              [plain_finding ''NVME_SPARE_BELOW_THRESHOLD'' ''AvailableSpare''
                (n_AvailableSpare nvme)
                (''NVMe available spare ('' @ itoa (n_AvailableSpare nvme) @
                 ''%) is below threshold ('' @ itoa (n_AvailableSpareThreshold nvme) @ ''%)'')]
          else if n_PercentageUsed nvme \<ge> 100 then
            result StatusAttributeFailingNow
              [plain_finding ''NVME_ENDURANCE_EXHAUSTED'' ''PercentageUsed'' (n_PercentageUsed nvme)
                (''NVMe estimated endurance exhausted ('' @ itoa (n_PercentageUsed nvme) @
                 ''% used)'')]
          else if n_MediaErrors nvme > 0 then
            result StatusSectorErrors
              [plain_finding ''NVME_MEDIA_ERRORS'' ''MediaErrors'' (n_MediaErrors nvme)
                (''NVMe reported '' @ itoa (n_MediaErrors nvme) @
                 '' unrecovered data integrity errors'')]
          else result StatusGood []
      | None \<Rightarrow>
          if so_ScsiErrorLog d \<noteq> None \<or> Protocol (so_Device d) = ''SCSI'' then
            (if failed then
               result StatusSelfAssessmentFailed
                 [plain_finding ''SCSI_SELF_ASSESSMENT_FAILED'' ''SmartStatus'' 0
                   ''SCSI device self-assessment reported failing'']
             else
               (let uncorrected =
                  (case so_ScsiErrorLog d of None \<Rightarrow> 0
                   | Some log \<Rightarrow>
                       (let u = (case Read log of None \<Rightarrow> 0
                                 | Some c \<Rightarrow> wrap64 (0 + TotalUncorrectedErrors c))
                        in case Write log of None \<Rightarrow> u
                           | Some c \<Rightarrow> wrap64 (u + TotalUncorrectedErrors c)))
                in if uncorrected > 0 then
                     result StatusSectorErrors
                       [plain_finding ''SCSI_UNCORRECTED_ERRORS'' ''TotalUncorrectedErrors''
                         uncorrected
                         (''SCSI device reported '' @ itoa uncorrected @ '' uncorrected errors'')]
                   else result StatusGood []))
          else if failed then
            result StatusSelfAssessmentFailed
              [plain_finding ''DEVICE_SELF_ASSESSMENT_FAILED'' ''SmartStatus'' 0
                ''Device self-assessment reported failing'']
          else result StatusGood [])"

definition isNvmeOrScsi :: "SmartctlOutput \<Rightarrow> bool" where
  "isNvmeOrScsi d \<longleftrightarrow> so_NvmeSmart d \<noteq> None \<or> so_ScsiErrorLog d \<noteq> None \<or>
     Protocol (so_Device d) = ''NVMe'' \<or> Protocol (so_Device d) = ''SCSI''"

definition Evaluate :: "SmartctlOutput option \<Rightarrow> AssessmentResult" where
  "Evaluate smartData =
     (case smartData of
        None \<Rightarrow> result StatusUnknown []
      | Some d \<Rightarrow>
          if isNvmeOrScsi d \<and> so_AtaSmartAttributes d = None then evaluateNvmeOrScsi d
          else if \<not> Passed (so_SmartStatus d) \<or> HasExitBit (so_Smartctl d) ExitBitDiskFailing then
            result StatusSelfAssessmentFailed
              [plain_finding ''SELF_ASSESSMENT_FAILED'' ''SmartStatus'' 0
                ''SMART overall-health self-assessment test failed (DISK FAILING)'']
          else
            (let s = (case so_AtaSmartAttributes d of None \<Rightarrow> ata_scan_init
                      | Some ata \<Rightarrow> fold scan_attribute (Table ata) ata_scan_init) in
             if hasSectorFailingNow s then
               result StatusExcessiveSectorErrors
                 (plain_finding ''EXCESSIVE_SECTOR_ERRORS'' ''ReallocatedAndPendingSectors''
                    (wrap64 (reallocatedSec s + pendingSec s))
                    ''Reallocated or pending sector count breached manufacturer threshold (failing now)''
                  # scan_findings s)
             else if hasOtherFailingNow s \<or> HasExitBit (so_Smartctl d) ExitBitPrefailBelow then
               result StatusAttributeFailingNow (scan_findings s)
             else
               (let totalBadSectors = wrap64 (reallocatedSec s + pendingSec s) in
                if totalBadSectors > 0 then
                  result StatusSectorErrors
                    (plain_finding ''SECTOR_ERRORS'' ''ReallocatedAndPendingSectors''
                       totalBadSectors
                       (''Disk has sector errors (Reallocated: '' @ itoa (reallocatedSec s) @
                        '', Pending: '' @ itoa (pendingSec s) @ '')'')
                     # scan_findings s)
                else if hasFailedInPast s \<or> HasExitBit (so_Smartctl d) ExitBitBelowPast then
                  result StatusAttributeFailedInPast (scan_findings s)
                else result StatusGood (scan_findings s))))"

subsection \<open>The scan, described without its state\<close>

definition attributes :: "SmartctlOutput \<Rightarrow> AtaAttribute list" where
  "attributes d = (case so_AtaSmartAttributes d of None \<Rightarrow> [] | Some ata \<Rightarrow> Table ata)"

text \<open>The raw value of the last attribute of the table with the given id, 0 without one.\<close>

definition last_raw :: "int \<Rightarrow> AtaAttribute list \<Rightarrow> int" where
  "last_raw i as = (case List.find (\<lambda>a. a_ID a = i) (rev as) of
     None \<Rightarrow> 0 | Some a \<Rightarrow> raw_Value (a_Raw a))"

definition attribute_finding :: "AtaAttribute \<Rightarrow> Finding option" where
  "attribute_finding a =
     (if isAttributeFailingNow a then Some (failing_now_finding a)
      else if isAttributeFailedInPast a then Some (failed_past_finding a) else None)"

lemma last_raw_snoc:
  "last_raw i (as @ [a]) = (if a_ID a = i then raw_Value (a_Raw a) else last_raw i as)"
  by (simp add: last_raw_def)

lemma last_raw_Nil [simp]: "last_raw i [] = 0"
  by (simp add: last_raw_def)

lemma ata_scan_fold:
  "fold scan_attribute as ata_scan_init =
     \<lparr>hasSectorFailingNow = (\<exists>a \<in> set as. isAttributeFailingNow a \<and> a_ID a \<in> {5, 197}),
      hasOtherFailingNow = (\<exists>a \<in> set as. isAttributeFailingNow a \<and> a_ID a \<notin> {5, 197}),
      hasFailedInPast = (\<exists>a \<in> set as. \<not> isAttributeFailingNow a \<and> isAttributeFailedInPast a),
      reallocatedSec = last_raw 5 as,
      pendingSec = last_raw 197 as,
      scan_findings = List.map_filter attribute_finding as\<rparr>"
proof (induction as rule: rev_induct)
  case Nil
  show ?case by (simp add: ata_scan_init_def)
next
  case (snoc a as)
  then show ?case
    by (simp add: scan_attribute_def Let_def last_raw_snoc attribute_finding_def
        List.map_filter_def)
qed

subsection \<open>Specification: what the data indicates\<close>

definition self_assessment_failed :: "SmartctlOutput \<Rightarrow> bool" where
  "self_assessment_failed d \<longleftrightarrow>
     \<not> Passed (so_SmartStatus d) \<or> bit (ExitStatus (so_Smartctl d)) 3"

definition bad_sectors :: "SmartctlOutput \<Rightarrow> int" where
  "bad_sectors d = wrap64 (last_raw 5 (attributes d) + last_raw 197 (attributes d))"

definition uncorrected_errors :: "SmartctlOutput \<Rightarrow> int" where
  "uncorrected_errors d =
     (case so_ScsiErrorLog d of None \<Rightarrow> 0
      | Some log \<Rightarrow>
          wrap64 ((case Read log of None \<Rightarrow> 0 | Some c \<Rightarrow> TotalUncorrectedErrors c) +
                  (case Write log of None \<Rightarrow> 0 | Some c \<Rightarrow> TotalUncorrectedErrors c)))"

definition indicated :: "bool \<Rightarrow> 'a \<Rightarrow> 'a set" where
  "indicated b x = (if b then {x} else {})"

definition ata_indications :: "SmartctlOutput \<Rightarrow> DiskHealthStatus set" where
  "ata_indications d =
     indicated (\<exists>a \<in> set (attributes d). isAttributeFailingNow a \<and> a_ID a \<in> {5, 197})
       StatusExcessiveSectorErrors \<union>
     indicated ((\<exists>a \<in> set (attributes d). isAttributeFailingNow a \<and> a_ID a \<notin> {5, 197}) \<or>
           bit (ExitStatus (so_Smartctl d)) 4) StatusAttributeFailingNow \<union>
     indicated (bad_sectors d > 0) StatusSectorErrors \<union>
     indicated ((\<exists>a \<in> set (attributes d). isAttributeFailedInPast a) \<or>
           bit (ExitStatus (so_Smartctl d)) 5) StatusAttributeFailedInPast"

definition nvme_indications :: "NvmeSmartHealth \<Rightarrow> DiskHealthStatus set" where
  "nvme_indications n =
     indicated (n_CriticalWarning n > 0) StatusSelfAssessmentFailed \<union>
     indicated ((n_AvailableSpareThreshold n > 0 \<and> n_AvailableSpare n < n_AvailableSpareThreshold n) \<or>
           n_PercentageUsed n \<ge> 100) StatusAttributeFailingNow \<union>
     indicated (n_MediaErrors n > 0) StatusSectorErrors"

definition uses_ata_cascade :: "SmartctlOutput \<Rightarrow> bool" where
  "uses_ata_cascade d \<longleftrightarrow> so_AtaSmartAttributes d \<noteq> None \<or> \<not> isNvmeOrScsi d"

definition indications :: "SmartctlOutput \<Rightarrow> DiskHealthStatus set" where
  "indications d =
     {StatusGood} \<union> indicated (self_assessment_failed d) StatusSelfAssessmentFailed \<union>
     (if uses_ata_cascade d then ata_indications d
      else case so_NvmeSmart d of
        Some n \<Rightarrow> nvme_indications n
      | None \<Rightarrow> indicated (uncorrected_errors d > 0) StatusSectorErrors)"

text \<open>
  The findings that belong to a status: one summary where the cascade makes one, then one
  finding for each flagged attribute, in table order.
\<close>

definition attribute_findings :: "SmartctlOutput \<Rightarrow> Finding list" where
  "attribute_findings d = List.map_filter attribute_finding (attributes d)"

lemma indicated_empty_iff [simp]: "indicated b x = {} \<longleftrightarrow> \<not> b"
  by (simp add: indicated_def)

lemma mem_indicated [simp]: "y \<in> indicated b x \<longleftrightarrow> b \<and> y = x"
  by (simp add: indicated_def)

lemma finite_indicated [simp]: "finite (indicated b x)"
  by (simp add: indicated_def)

lemma finite_indications [simp]: "finite (indications d)"
  by (simp add: indications_def ata_indications_def nvme_indications_def split: option.split)

lemma Max_eq_status:
  fixes s :: DiskHealthStatus
  assumes "s \<in> A" and "finite A" and "\<And>t. t \<in> A \<Longrightarrow> severity t \<le> severity s"
  shows "Max A = s"
  using assms by (intro Max_eqI) (auto simp: status_order)

lemma disk_failing_bit: "HasExitBit i ExitBitDiskFailing = bit (ExitStatus i) 3"
  and prefail_bit: "HasExitBit i ExitBitPrefailBelow = bit (ExitStatus i) 4"
  and below_past_bit: "HasExitBit i ExitBitBelowPast = bit (ExitStatus i) 5"
  unfolding exit_bit_defs by (rule HasExitBit_bit)+

lemmas exit_bits = disk_failing_bit prefail_bit below_past_bit

lemma not_ata_cascade: "\<not> uses_ata_cascade d \<longleftrightarrow>
    isNvmeOrScsi d \<and> so_AtaSmartAttributes d = None"
  by (simp add: uses_ata_cascade_def) blast

text \<open>The ATA cascade with the scan replaced by its description.\<close>

lemma Evaluate_ata:
  assumes "uses_ata_cascade d"
  shows "Evaluate (Some d) =
    (if self_assessment_failed d then
       result StatusSelfAssessmentFailed
         [plain_finding ''SELF_ASSESSMENT_FAILED'' ''SmartStatus'' 0
           ''SMART overall-health self-assessment test failed (DISK FAILING)'']
     else if \<exists>a \<in> set (attributes d). isAttributeFailingNow a \<and> a_ID a \<in> {5, 197} then
       result StatusExcessiveSectorErrors
         (plain_finding ''EXCESSIVE_SECTOR_ERRORS'' ''ReallocatedAndPendingSectors'' (bad_sectors d)
            ''Reallocated or pending sector count breached manufacturer threshold (failing now)''
          # attribute_findings d)
     else if (\<exists>a \<in> set (attributes d). isAttributeFailingNow a \<and> a_ID a \<notin> {5, 197}) \<or>
             bit (ExitStatus (so_Smartctl d)) 4 then
       result StatusAttributeFailingNow (attribute_findings d)
     else if bad_sectors d > 0 then
       result StatusSectorErrors
         (plain_finding ''SECTOR_ERRORS'' ''ReallocatedAndPendingSectors'' (bad_sectors d)
            (''Disk has sector errors (Reallocated: '' @ itoa (last_raw 5 (attributes d)) @
             '', Pending: '' @ itoa (last_raw 197 (attributes d)) @ '')'')
          # attribute_findings d)
     else if (\<exists>a \<in> set (attributes d). \<not> isAttributeFailingNow a \<and> isAttributeFailedInPast a) \<or>
             bit (ExitStatus (so_Smartctl d)) 5 then
       result StatusAttributeFailedInPast (attribute_findings d)
     else result StatusGood (attribute_findings d))"
proof -
  have scan: "(case so_AtaSmartAttributes d of None \<Rightarrow> ata_scan_init
      | Some ata \<Rightarrow> fold scan_attribute (Table ata) ata_scan_init) =
      fold scan_attribute (attributes d) ata_scan_init"
    by (simp add: attributes_def split: option.split)
  from assms have ata: "(isNvmeOrScsi d \<and> so_AtaSmartAttributes d = None) = False"
    by (auto simp: uses_ata_cascade_def)
  show ?thesis
    unfolding Evaluate_def option.case ata if_False self_assessment_failed_def exit_bits scan
    by (simp only: ata_scan_fold bad_sectors_def attribute_findings_def Let_def
        ata_scan.select_convs)
qed

lemma Evaluate_not_ata:
  "\<not> uses_ata_cascade d \<Longrightarrow> Evaluate (Some d) = evaluateNvmeOrScsi d"
  by (simp add: Evaluate_def not_ata_cascade)

lemma scsi_sum:
  "(case so_ScsiErrorLog d of None \<Rightarrow> 0
    | Some log \<Rightarrow>
        (let u = (case Read log of None \<Rightarrow> 0 | Some c \<Rightarrow> wrap64 (0 + TotalUncorrectedErrors c))
         in case Write log of None \<Rightarrow> u | Some c \<Rightarrow> wrap64 (u + TotalUncorrectedErrors c))) =
   uncorrected_errors d"
  by (simp add: uncorrected_errors_def wrap64_add_left split: option.split)

lemmas indication_defs = indications_def ata_indications_def nvme_indications_def

lemma status_result [simp]: "ar_Status (result s fs) = s"
  and findings_result [simp]: "ar_Findings (result s fs) = fs"
  by (simp_all add: result_def)

lemmas status_if = if_distrib [of ar_Status] status_result
lemmas findings_if = if_distrib [of ar_Findings] findings_result

text \<open>A cascade of guards is the maximum of the indicated statuses.\<close>

lemma ata_cascade_max:
  assumes "p' \<Longrightarrow> p" and "p \<Longrightarrow> p' \<or> sec \<or> other"
  shows "(if self then StatusSelfAssessmentFailed else if sec then StatusExcessiveSectorErrors
     else if other \<or> b4 then StatusAttributeFailingNow else if bad then StatusSectorErrors
     else if p' \<or> b5 then StatusAttributeFailedInPast else StatusGood) =
   Max ({StatusGood} \<union> indicated self StatusSelfAssessmentFailed \<union>
     (indicated sec StatusExcessiveSectorErrors \<union>
      indicated (other \<or> b4) StatusAttributeFailingNow \<union>
      indicated bad StatusSectorErrors \<union> indicated (p \<or> b5) StatusAttributeFailedInPast))"
  by (rule sym, rule Max_eq_status) (use assms in \<open>auto split: if_splits\<close>)

lemma nvme_cascade_max:
  "(if self \<or> crit then StatusSelfAssessmentFailed else if spare then StatusAttributeFailingNow
    else if used then StatusAttributeFailingNow else if media then StatusSectorErrors
    else StatusGood) =
   Max ({StatusGood} \<union> indicated self StatusSelfAssessmentFailed \<union>
     (indicated crit StatusSelfAssessmentFailed \<union>
      indicated (spare \<or> used) StatusAttributeFailingNow \<union> indicated media StatusSectorErrors))"
  by (rule sym, rule Max_eq_status) (auto split: if_splits)

lemma scsi_cascade_max:
  "(if self then StatusSelfAssessmentFailed else if unc then StatusSectorErrors
    else StatusGood) =
   Max ({StatusGood} \<union> indicated self StatusSelfAssessmentFailed \<union>
     indicated unc StatusSectorErrors)"
  by (rule sym, rule Max_eq_status) (auto split: if_splits)

lemma status_ata:
  assumes "uses_ata_cascade d"
  shows "ar_Status (Evaluate (Some d)) = Max (indications d)"
proof -
  let ?A = "set (attributes d)"
  have "ar_Status (Evaluate (Some d)) =
     (if self_assessment_failed d then StatusSelfAssessmentFailed
      else if \<exists>a \<in> ?A. isAttributeFailingNow a \<and> a_ID a \<in> {5, 197} then StatusExcessiveSectorErrors
      else if (\<exists>a \<in> ?A. isAttributeFailingNow a \<and> a_ID a \<notin> {5, 197}) \<or>
              bit (ExitStatus (so_Smartctl d)) 4 then StatusAttributeFailingNow
      else if bad_sectors d > 0 then StatusSectorErrors
      else if (\<exists>a \<in> ?A. \<not> isAttributeFailingNow a \<and> isAttributeFailedInPast a) \<or>
              bit (ExitStatus (so_Smartctl d)) 5 then StatusAttributeFailedInPast
      else StatusGood)"
    by (simp only: Evaluate_ata [OF assms] status_if)
  also have "\<dots> = Max (indications d)"
    unfolding indications_def ata_indications_def using assms
    by (simp only: if_True, intro ata_cascade_max) blast+
  finally show ?thesis .
qed

lemma status_nvme:
  assumes "so_NvmeSmart d = Some n"
  shows "ar_Status (evaluateNvmeOrScsi d) = Max ({StatusGood} \<union>
     indicated (self_assessment_failed d) StatusSelfAssessmentFailed \<union> nvme_indications n)"
  unfolding evaluateNvmeOrScsi_def nvme_indications_def
  by (simp only: assms option.case Let_def status_if exit_bits
      flip: self_assessment_failed_def nvme_cascade_max)

lemma status_scsi:
  assumes "so_NvmeSmart d = None"
  shows "ar_Status (evaluateNvmeOrScsi d) = Max ({StatusGood} \<union>
     indicated (self_assessment_failed d) StatusSelfAssessmentFailed \<union>
     indicated (uncorrected_errors d > 0) StatusSectorErrors)"
proof -
  have none: "uncorrected_errors d = 0" if "so_ScsiErrorLog d = None"
    by (simp add: that uncorrected_errors_def)
  have "ar_Status (evaluateNvmeOrScsi d) =
     (if so_ScsiErrorLog d \<noteq> None \<or> Protocol (so_Device d) = ''SCSI'' then
        (if self_assessment_failed d then StatusSelfAssessmentFailed
         else if uncorrected_errors d > 0 then StatusSectorErrors else StatusGood)
      else if self_assessment_failed d then StatusSelfAssessmentFailed else StatusGood)"
    unfolding evaluateNvmeOrScsi_def scsi_sum
    by (simp only: assms option.case Let_def status_if exit_bits flip: self_assessment_failed_def)
  then show ?thesis
    unfolding scsi_cascade_max [symmetric] using none by auto
qed

lemma status_not_ata:
  assumes "\<not> uses_ata_cascade d"
  shows "ar_Status (Evaluate (Some d)) = Max (indications d)"
  by (cases "so_NvmeSmart d")
    (simp_all only: Evaluate_not_ata [OF assms] indications_def if_not_P [OF assms] option.case
      status_nvme status_scsi)

subsection \<open>Findings\<close>

lemma attribute_findings_empty:
  "attribute_findings d = [] \<longleftrightarrow>
     (\<forall>a \<in> set (attributes d). \<not> isAttributeFailingNow a \<and> \<not> isAttributeFailedInPast a)"
  by (auto simp: attribute_findings_def List.map_filter_def filter_empty_conv attribute_finding_def)

lemma attribute_findings_ids:
  "map f_AttributeID (List.map_filter attribute_finding as) =
     map (\<lambda>a. Some (a_ID a))
       (filter (\<lambda>a. isAttributeFailingNow a \<or> isAttributeFailedInPast a) as)"
  by (induction as)
    (auto simp: List.map_filter_def attribute_finding_def failing_now_finding_def
      failed_past_finding_def)

lemma findings_not_ata:
  assumes "\<not> uses_ata_cascade d"
  shows "ar_Findings (Evaluate (Some d)) = [] \<longleftrightarrow> ar_Status (Evaluate (Some d)) = StatusGood"
  unfolding Evaluate_not_ata [OF assms] evaluateNvmeOrScsi_def
  by (cases "so_NvmeSmart d") (simp_all only: option.case Let_def status_if findings_if, simp_all)

lemma ata_findings_cascade:
  assumes "af = [] \<longleftrightarrow> \<not> sec \<and> \<not> other \<and> \<not> past"
    and "st = (if self then StatusSelfAssessmentFailed else if sec then StatusExcessiveSectorErrors
     else if other \<or> b4 then StatusAttributeFailingNow else if bad then StatusSectorErrors
     else if past \<or> b5 then StatusAttributeFailedInPast else StatusGood)"
  shows "(if self then [x] else if sec then y # af else if other \<or> b4 then af
      else if bad then z # af else if past \<or> b5 then af else af) = [] \<longleftrightarrow>
    st = StatusGood \<or> (af = [] \<and> st \<in> {StatusAttributeFailingNow, StatusAttributeFailedInPast})"
  unfolding assms(2) using assms(1)
  by (cases self; cases sec; cases other; cases b4; cases bad; cases past; cases b5) simp_all

lemma ata_summary_cascade:
  assumes "g y = v" and "g z = v"
  shows "\<exists>summary. (if sec then y # af else if o4 then af else if bad then z # af
      else if p5 then af else af) = summary @ af \<and>
    map g summary = (if (if sec then StatusExcessiveSectorErrors
       else if o4 then StatusAttributeFailingNow else if bad then StatusSectorErrors
       else if p5 then StatusAttributeFailedInPast else StatusGood)
       \<in> {StatusExcessiveSectorErrors, StatusSectorErrors} then [v] else [])"
  using assms by (cases sec; cases o4; cases bad; cases p5) simp_all

lemma findings_ata:
  assumes "uses_ata_cascade d"
  shows "ar_Findings (Evaluate (Some d)) = [] \<longleftrightarrow>
    ar_Status (Evaluate (Some d)) = StatusGood \<or>
    (attribute_findings d = [] \<and>
     ar_Status (Evaluate (Some d)) \<in> {StatusAttributeFailingNow, StatusAttributeFailedInPast})"
  unfolding Evaluate_ata [OF assms] status_if findings_if
  by (rule ata_findings_cascade [OF _ refl]) (auto simp: attribute_findings_empty)

subsection \<open>Samples used by the witnesses\<close>

definition sample_attribute :: "int \<Rightarrow> int \<Rightarrow> int \<Rightarrow> string \<Rightarrow> int \<Rightarrow> AtaAttribute" where
  "sample_attribute i v t w r = \<lparr>a_ID = i, a_Name = ''Sample'', a_Value = v, a_Worst = v,
     a_Threshold = t, a_WhenFailed = w, a_Raw = \<lparr>raw_Value = r, raw_String = ''''\<rparr>\<rparr>"

definition sample_output :: SmartctlOutput where
  "sample_output =
     \<lparr>so_Smartctl = \<lparr>Version = [7, 4], ExitStatus = 0, Messages = []\<rparr>,
      so_Device = \<lparr>dh_Name = ''/dev/sda'', dh_InfoName = ''/dev/sda [SAT]'', dh_Type = ''sat'',
        Protocol = ''ATA''\<rparr>,
      so_ModelFamily = '''', so_ModelName = ''M'', so_SerialNumber = ''S'',
      so_FirmwareVersion = ''F'', so_SmartStatus = \<lparr>Passed = True\<rparr>,
      so_SmartSupport = Some \<lparr>Available = True, Enabled = True\<rparr>,
      so_Temperature = None, so_PowerOnTime = None, so_PowerCycleCount = None,
      so_RotationRate = 7200,
      so_AtaSmartAttributes = Some \<lparr>Revision = 1,
        Table = [sample_attribute 5 100 10 '''' 8, sample_attribute 197 100 0 '''' 1,
                 sample_attribute 194 30 40 ''past'' 31]\<rparr>,
      so_NvmeSmart = None, so_ScsiErrorLog = None\<rparr>"

subsection \<open>Properties\<close>

text \<open>
  C7: the status that \<open>Evaluate\<close> reports is the most severe status among those that the data
  indicates, for every smartctl output.
\<close>

theorem Evaluate_most_severe: "ar_Status (Evaluate (Some d)) = Max (indications d)"
  by (cases "uses_ata_cascade d") (simp_all add: status_ata status_not_ata)

text \<open>
  C24: the findings of the ATA cascade: of a failed self-assessment that one finding alone; otherwise
  those of the flagged attributes, one for each in table order and carrying its id, after one
  summary finding with the bad sector count that is present exactly for the two sector statuses.
\<close>

theorem Evaluate_ata_findings:
  assumes "uses_ata_cascade d"
  shows "if self_assessment_failed d
    then map (\<lambda>f. (f_ID f, f_AttributeID f)) (ar_Findings (Evaluate (Some d))) =
      [(''SELF_ASSESSMENT_FAILED'', None)]
    else \<exists>summary. ar_Findings (Evaluate (Some d)) = summary @ attribute_findings d \<and>
      map f_AttributeID (attribute_findings d) = map (\<lambda>a. Some (a_ID a))
        (filter (\<lambda>a. isAttributeFailingNow a \<or> isAttributeFailedInPast a) (attributes d)) \<and>
      map (\<lambda>f. (f_AttributeID f, f_RawValue f)) summary =
        (if ar_Status (Evaluate (Some d)) \<in> {StatusExcessiveSectorErrors, StatusSectorErrors}
         then [(None, bad_sectors d)] else [])"
proof (cases "self_assessment_failed d")
  case True
  then show ?thesis
    by (simp add: Evaluate_ata [OF assms] result_def plain_finding_def)
next
  case False
  have ids: "map f_AttributeID (attribute_findings d) = map (\<lambda>a. Some (a_ID a))
      (filter (\<lambda>a. isAttributeFailingNow a \<or> isAttributeFailedInPast a) (attributes d))"
    unfolding attribute_findings_def by (rule attribute_findings_ids)
  show ?thesis
    unfolding ids Evaluate_ata [OF assms(1)] if_not_P [OF False] status_if findings_if
      simp_thms
    by (rule ata_summary_cascade) (simp_all add: plain_finding_def)
qed

theorem Evaluate_ata_findings_witness:
  "\<exists>summary. ar_Findings (Evaluate (Some sample_output)) =
    summary @ attribute_findings sample_output \<and>
    map f_AttributeID (attribute_findings sample_output) = map (\<lambda>a. Some (a_ID a))
      (filter (\<lambda>a. isAttributeFailingNow a \<or> isAttributeFailedInPast a)
        (attributes sample_output)) \<and>
    map (\<lambda>f. (f_AttributeID f, f_RawValue f)) summary =
      (if ar_Status (Evaluate (Some sample_output))
            \<in> {StatusExcessiveSectorErrors, StatusSectorErrors}
       then [(None, bad_sectors sample_output)] else [])"
proof -
  have cascade: "uses_ata_cascade sample_output" and passed: "\<not> self_assessment_failed sample_output"
    by (simp_all add: sample_output_def uses_ata_cascade_def self_assessment_failed_def)
  show ?thesis
    using Evaluate_ata_findings [OF cascade] unfolding if_not_P [OF passed] .
qed

text \<open>
  A result without findings is a healthy disk, or an ATA disk whose degradation smartctl
  reports only through its exit status; a degraded disk has a finding in every other case.
\<close>

theorem Evaluate_findings_empty_iff:
  "ar_Findings (Evaluate (Some d)) = [] \<longleftrightarrow>
    ar_Status (Evaluate (Some d)) = StatusGood \<or>
    (uses_ata_cascade d \<and> attribute_findings d = [] \<and>
     ar_Status (Evaluate (Some d)) \<in> {StatusAttributeFailingNow, StatusAttributeFailedInPast})"
proof (cases "uses_ata_cascade d")
  case True
  then show ?thesis using findings_ata by simp
next
  case False
  then show ?thesis using findings_not_ata by simp
qed

text \<open>
  With raw values of at most 48 bits, as ATA devices store them, the sum of reallocated and
  pending sectors does not wrap: sector errors are indicated exactly when one of the two raw
  counts is positive.
\<close>

theorem bad_sectors_48_bit:
  assumes "\<forall>a \<in> set (attributes d). 0 \<le> raw_Value (a_Raw a) \<and> raw_Value (a_Raw a) < 2 ^ 48"
  shows "bad_sectors d = last_raw 5 (attributes d) + last_raw 197 (attributes d) \<and>
    (bad_sectors d > 0 \<longleftrightarrow> last_raw 5 (attributes d) > 0 \<or> last_raw 197 (attributes d) > 0)"
proof -
  have range: "0 \<le> last_raw i (attributes d) \<and> last_raw i (attributes d) < 2 ^ 48" for i
  proof (cases "List.find (\<lambda>a. a_ID a = i) (rev (attributes d))")
    case (Some a)
    then have "a \<in> set (attributes d)"
      by (metis find_Some_iff nth_mem set_rev)
    with Some assms show ?thesis by (simp add: last_raw_def)
  qed (simp add: last_raw_def)
  have "bad_sectors d = last_raw 5 (attributes d) + last_raw 197 (attributes d)"
    unfolding bad_sectors_def
    by (rule wrap64_id) (use range [of 5] range [of 197] in \<open>simp add: int64_range_def\<close>)
  then show ?thesis using range [of 5] range [of 197] by linarith
qed

theorem bad_sectors_48_bit_witness:
  "bad_sectors sample_output =
     last_raw 5 (attributes sample_output) + last_raw 197 (attributes sample_output) \<and>
   (bad_sectors sample_output > 0 \<longleftrightarrow>
     last_raw 5 (attributes sample_output) > 0 \<or> last_raw 197 (attributes sample_output) > 0)"
proof -
  have "\<forall>a \<in> set (attributes sample_output).
      0 \<le> raw_Value (a_Raw a) \<and> raw_Value (a_Raw a) < 2 ^ 48"
    by (simp add: attributes_def sample_output_def sample_attribute_def)
  then show ?thesis by (rule bad_sectors_48_bit)
qed

lemma Evaluate_not_passed:
  assumes "\<not> Passed (so_SmartStatus d)"
  shows "ar_Status (Evaluate (Some d)) = StatusSelfAssessmentFailed"
proof -
  have "Max (indications d) = StatusSelfAssessmentFailed"
  proof (rule Max_eq_status)
    show "StatusSelfAssessmentFailed \<in> indications d"
      using assms by (simp add: indications_def self_assessment_failed_def)
    show "severity t \<le> severity StatusSelfAssessmentFailed" for t
      by (cases t) simp_all
  qed simp
  then show ?thesis
    by (cases "uses_ata_cascade d") (simp_all add: status_ata status_not_ata)
qed

text \<open>
  An output without a \<^verbatim>\<open>smart_status\<close> member leaves the zero value in the decoded struct, and
  such a disk is reported as failing its self-assessment, whatever else the output says.
\<close>

theorem Evaluate_absent_smart_status:
  "ar_Status (Evaluate (Some (d\<lparr>so_SmartStatus := \<lparr>Passed = False\<rparr>\<rparr>))) =
     StatusSelfAssessmentFailed"
  by (rule Evaluate_not_passed) simp

end
