(* ===== verification/Cmd_Args.thy ===== *)
theory Cmd_Args
  imports Prelude
begin

text \<open>
  \<^verbatim>\<open>SplitCommandArgs\<close> (\<^verbatim>\<open>pkg/utils/cmd_args.go\<close>), which splits \<^verbatim>\<open>extraCmdArgs\<close> into the arguments
  of smartctl.  The loop over the runes is the fold of \<open>split_step\<close> over the loop's variables;
  the closure \<^verbatim>\<open>flush\<close> is \<open>flush_args\<close>.

  The specification is a grammar: a word is a list of \<open>piece\<close>s (bare characters, escapes, single
  and double quotes), \<open>render\<close> writes it and \<open>meaning\<close> is the argument it stands for.
\<close>

subsection \<open>The code\<close>

datatype split_error = TrailingEscape | UnterminatedQuote string

record split_state =
  args :: "string list"
  value_buf :: string
  quote :: "string option"
  escaped :: bool

definition split_init :: split_state where
  "split_init = \<lparr>args = [], value_buf = [], quote = None, escaped = False\<rparr>"

definition flush_args :: "split_state \<Rightarrow> split_state" where
  "flush_args s = (if length (value_buf s) > 0
     then s\<lparr>args := args s @ [value_buf s], value_buf := []\<rparr> else s)"

definition split_step :: "string \<Rightarrow> split_state \<Rightarrow> split_state" where
  "split_step ch s =
     (if escaped s then s\<lparr>value_buf := value_buf s @ ch, escaped := False\<rparr>
      else if ch = [CHR 0x5C] \<and> quote s \<noteq> Some [CHR 0x27] then s\<lparr>escaped := True\<rparr>
      else if quote s \<noteq> None then
        (if quote s = Some ch then s\<lparr>quote := None\<rparr>
         else s\<lparr>value_buf := value_buf s @ ch\<rparr>)
      else if ch = [CHR 0x27] \<or> ch = [CHR 0x22] then s\<lparr>quote := Some ch\<rparr>
      else if is_space_rune ch then flush_args s
      else s\<lparr>value_buf := value_buf s @ ch\<rparr>)"

definition split_finish :: "split_state \<Rightarrow> split_error + string list" where
  "split_finish s =
     (if escaped s then Inl TrailingEscape
      else case quote s of
        Some q \<Rightarrow> Inl (UnterminatedQuote q)
      | None \<Rightarrow> Inr (args (flush_args s)))"

definition SplitCommandArgs :: "string \<Rightarrow> split_error + string list" where
  "SplitCommandArgs input = split_finish (fold split_step (runes input) split_init)"

subsection \<open>The grammar of argument strings\<close>

datatype dpiece = DPlain char | DEsc char

datatype piece = Bare char | Esc char | Single string | Double "dpiece list"

definition ascii_char :: "char \<Rightarrow> bool" where
  "ascii_char c \<longleftrightarrow> byte c < 128"

definition blank_char :: "char \<Rightarrow> bool" where
  "blank_char c \<longleftrightarrow> byte c \<in> {9, 10, 11, 12, 13, 32}"

fun wf_dpiece :: "dpiece \<Rightarrow> bool" where
  "wf_dpiece (DPlain c) \<longleftrightarrow> ascii_char c \<and> c \<noteq> CHR 0x22 \<and> c \<noteq> CHR 0x5C"
| "wf_dpiece (DEsc c) \<longleftrightarrow> ascii_char c"

fun wf_piece :: "piece \<Rightarrow> bool" where
  "wf_piece (Bare c) \<longleftrightarrow> ascii_char c \<and> \<not> blank_char c \<and> c \<notin> {CHR 0x22, CHR 0x27, CHR 0x5C}"
| "wf_piece (Esc c) \<longleftrightarrow> ascii_char c"
| "wf_piece (Single s) \<longleftrightarrow> list_all ascii_char s \<and> CHR 0x27 \<notin> set s"
| "wf_piece (Double ds) \<longleftrightarrow> list_all wf_dpiece ds"

fun render_dpiece :: "dpiece \<Rightarrow> string" where
  "render_dpiece (DPlain c) = [c]"
| "render_dpiece (DEsc c) = [CHR 0x5C, c]"

fun render_piece :: "piece \<Rightarrow> string" where
  "render_piece (Bare c) = [c]"
| "render_piece (Esc c) = [CHR 0x5C, c]"
| "render_piece (Single s) = [CHR 0x27] @ s @ [CHR 0x27]"
| "render_piece (Double ds) = [CHR 0x22] @ concat (map render_dpiece ds) @ [CHR 0x22]"

fun dpiece_char :: "dpiece \<Rightarrow> char" where
  "dpiece_char (DPlain c) = c"
| "dpiece_char (DEsc c) = c"

fun piece_value :: "piece \<Rightarrow> string" where
  "piece_value (Bare c) = [c]"
| "piece_value (Esc c) = [c]"
| "piece_value (Single s) = s"
| "piece_value (Double ds) = map dpiece_char ds"

definition render :: "piece list \<Rightarrow> string" where
  "render w = concat (map render_piece w)"

definition meaning :: "piece list \<Rightarrow> string" where
  "meaning w = concat (map piece_value w)"

text \<open>A command line: blanks, then words each followed by at least one blank, then a last word.\<close>

fun render_line :: "string \<Rightarrow> (piece list \<times> char \<times> string) list \<Rightarrow> piece list \<Rightarrow> string" where
  "render_line lead ws lastw = lead @ concat (map (\<lambda>(w, b, bs). render w @ b # bs) ws) @ render lastw"

definition wf_line :: "string \<Rightarrow> (piece list \<times> char \<times> string) list \<Rightarrow> piece list \<Rightarrow> bool" where
  "wf_line lead ws lastw \<longleftrightarrow> list_all blank_char lead \<and> list_all wf_piece lastw \<and>
     list_all (\<lambda>(w, b, bs). list_all wf_piece w \<and> blank_char b \<and> list_all blank_char bs) ws"

subsection \<open>Running the loop\<close>

abbreviation chars :: "string \<Rightarrow> string list" where
  "chars s \<equiv> map (\<lambda>c. [c]) s"

definition run_chars :: "string \<Rightarrow> split_state \<Rightarrow> split_state" where
  "run_chars s = fold split_step (chars s)"

lemma run_simps [simp]:
  "run_chars [] st = st" "run_chars (c # s) st = run_chars s (split_step [c] st)"
  "run_chars (s @ t) st = run_chars t (run_chars s st)"
  by (simp_all add: run_chars_def)

lemma blank_ascii: "blank_char c \<Longrightarrow> ascii_char c"
  by (auto simp: blank_char_def ascii_char_def)

lemma blank_is_space: "is_space_rune [c] \<longleftrightarrow> blank_char c"
proof -
  have "is_space_rune [c] \<longleftrightarrow>
      c \<in> {CHR 0x09, CHR 0x0A, CHR 0x0B, CHR 0x0C, CHR 0x0D, CHR 0x20}"
    by (simp add: is_space_rune_def space_encodings_def)
  also have "\<dots> \<longleftrightarrow> byte c \<in> byte ` {CHR 0x09, CHR 0x0A, CHR 0x0B, CHR 0x0C, CHR 0x0D, CHR 0x20}"
    by (rule inj_image_mem_iff [OF inj_of_char, symmetric])
  finally show ?thesis by (simp add: blank_char_def)
qed

text \<open>The state between two words: no quote, no escape.\<close>

abbreviation ready :: "string list \<Rightarrow> string \<Rightarrow> split_state" where
  "ready as v \<equiv> \<lparr>args = as, value_buf = v, quote = None, escaped = False\<rparr>"

lemma run_single: "CHR 0x27 \<notin> set s \<Longrightarrow>
  run_chars s \<lparr>args = as, value_buf = v, quote = Some [CHR 0x27], escaped = False\<rparr> =
    \<lparr>args = as, value_buf = v @ s, quote = Some [CHR 0x27], escaped = False\<rparr>"
  by (induction s arbitrary: v) (auto simp: split_step_def)

lemma run_double: "list_all wf_dpiece ds \<Longrightarrow>
  run_chars (concat (map render_dpiece ds))
      \<lparr>args = as, value_buf = v, quote = Some [CHR 0x22], escaped = False\<rparr> =
    \<lparr>args = as, value_buf = v @ map dpiece_char ds, quote = Some [CHR 0x22], escaped = False\<rparr>"
proof (induction ds arbitrary: v)
  case (Cons d ds)
  then show ?case by (cases d) (auto simp: split_step_def)
qed simp

lemma run_piece: "wf_piece p \<Longrightarrow> run_chars (render_piece p) (ready as v) = ready as (v @ piece_value p)"
  by (cases p) (auto simp: split_step_def run_single run_double blank_is_space)

lemma run_word: "list_all wf_piece w \<Longrightarrow> run_chars (render w) (ready as v) = ready as (v @ meaning w)"
  by (induction w arbitrary: v) (simp_all add: render_def meaning_def run_piece)

lemma run_blank:
  "blank_char c \<Longrightarrow> run_chars [c] (ready as v) = ready (as @ filter (\<lambda>a. a \<noteq> []) [v]) []"
  by (auto simp: split_step_def blank_is_space flush_args_def) (auto simp: blank_char_def)

lemma run_blanks: "list_all blank_char bs \<Longrightarrow> run_chars bs (ready as []) = ready as []"
proof (induction bs)
  case (Cons b bs)
  then show ?case using run_blank [of b as "[]"] by simp
qed simp

lemma run_words:
  "list_all (\<lambda>(w, b, bs). list_all wf_piece w \<and> blank_char b \<and> list_all blank_char bs) ws \<Longrightarrow>
   run_chars (concat (map (\<lambda>(w, b, bs). render w @ b # bs) ws)) (ready as []) =
     ready (as @ filter (\<lambda>a. a \<noteq> []) (map (meaning \<circ> fst) ws)) []"
proof (induction ws arbitrary: as)
  case (Cons x ws)
  obtain w b bs where x: "x = (w, b, bs)" by (cases x)
  have "run_chars (render w @ b # bs) (ready as []) = ready (as @ filter (\<lambda>a. a \<noteq> []) [meaning w]) []"
    using Cons.prems x run_blank [of b as "meaning w"] by (simp add: run_word run_blanks)
  then show ?case using Cons x by simp
qed simp

lemma render_piece_ascii: "wf_piece p \<Longrightarrow> list_all ascii_char (render_piece p)"
proof (cases p)
  case (Double ds)
  have "list_all wf_dpiece ds \<Longrightarrow> list_all ascii_char (concat (map render_dpiece ds))"
  proof (induction ds)
    case (Cons d ds)
    then show ?case by (cases d) (simp_all add: ascii_char_def)
  qed simp
  then show "wf_piece p \<Longrightarrow> ?thesis" using Double by (simp add: ascii_char_def)
qed (simp_all add: ascii_char_def)

lemma render_ascii: "list_all wf_piece w \<Longrightarrow> list_all ascii_char (render w)"
  by (induction w) (simp_all add: render_def render_piece_ascii)

lemma blanks_ascii: "list_all blank_char bs \<Longrightarrow> list_all ascii_char bs"
  by (induction bs) (simp_all add: blank_ascii)

lemma render_line_ascii:
  assumes "wf_line lead ws lastw"
  shows "is_ascii (render_line lead ws lastw)"
proof -
  have "list_all (\<lambda>(w, b, bs). list_all wf_piece w \<and> blank_char b \<and> list_all blank_char bs) ws
      \<Longrightarrow> list_all ascii_char (concat (map (\<lambda>(w, b, bs). render w @ b # bs) ws))"
    by (induction ws) (auto simp: render_ascii blanks_ascii blank_ascii)
  then have "list_all ascii_char (render_line lead ws lastw)"
    using assms by (simp add: wf_line_def render_ascii blanks_ascii)
  then show ?thesis by (simp add: is_ascii_def ascii_char_def [abs_def])
qed

lemma SplitCommandArgs_run:
  "is_ascii s \<Longrightarrow> SplitCommandArgs s = split_finish (run_chars s split_init)"
  by (simp add: SplitCommandArgs_def run_chars_def runes_ascii)

subsection \<open>What comes out was in the input\<close>

definition collected :: "split_state \<Rightarrow> string" where
  "collected s = concat (args s) @ value_buf s"

lemma collected_flush [simp]: "collected (flush_args s) = collected s"
  by (simp add: collected_def flush_args_def)

lemma collected_step: "collected (split_step ch s) = collected s @ ch \<or>
    collected (split_step ch s) = collected s"
  by (simp add: split_step_def) (simp add: collected_def)

lemma collected_fold:
  "subseq (collected s) inp \<Longrightarrow> subseq (collected (fold split_step rs s)) (inp @ concat rs)"
proof (induction rs arbitrary: s inp)
  case (Cons r rs)
  have "subseq (collected (split_step r s)) (inp @ r)"
    using collected_step [of r s] Cons.prems
    by (metis append_Nil2 list_emb_append_mono subseq_order.order_refl list_emb_Nil)
  from Cons.IH [OF this] show ?case by simp
qed simp

definition no_empty_args :: "split_state \<Rightarrow> bool" where
  "no_empty_args s \<longleftrightarrow> [] \<notin> set (args s)"

lemma no_empty_flush: "no_empty_args s \<Longrightarrow> no_empty_args (flush_args s)"
  by (simp add: no_empty_args_def flush_args_def)

lemma no_empty_step: "no_empty_args s \<Longrightarrow> no_empty_args (split_step ch s)"
  using no_empty_flush [of s] by (simp add: split_step_def) (simp add: no_empty_args_def)

lemma no_empty_fold: "no_empty_args s \<Longrightarrow> no_empty_args (fold split_step rs s)"
  by (induction rs arbitrary: s) (simp_all add: no_empty_step)

subsection \<open>Properties\<close>

text \<open>
  C26: a command line written by the grammar splits into the meanings of its words, in order;
  words that stand for the empty string are dropped.
\<close>

theorem SplitCommandArgs_grammar:
  assumes "wf_line lead ws lastw"
  shows "SplitCommandArgs (render_line lead ws lastw) =
    Inr (filter (\<lambda>a. a \<noteq> []) (map (meaning \<circ> fst) ws @ [meaning lastw]))"
proof -
  have "run_chars (render_line lead ws lastw) split_init =
      ready (filter (\<lambda>a. a \<noteq> []) (map (meaning \<circ> fst) ws)) (meaning lastw)"
    using assms by (simp add: wf_line_def split_init_def run_blanks run_words run_word)
  then show ?thesis
    using render_line_ascii [OF assms]
    by (simp add: SplitCommandArgs_run split_finish_def flush_args_def del: render_line.simps)
qed

theorem SplitCommandArgs_grammar_witness:
  "SplitCommandArgs (render_line '' '' [(map Bare ''-d'', CHR '' '', [])] [Single ''sat,12'']) =
    Inr (filter (\<lambda>a. a \<noteq> []) (map (meaning \<circ> fst)
      [(map Bare ''-d'', CHR '' '', ''''::string)] @ [meaning [Single ''sat,12'']]))"
  by (rule SplitCommandArgs_grammar) code_simp

text \<open>
  Splitting invents nothing: no argument is empty, and the arguments, concatenated, are a
  subsequence of the input's runes, so no character is expanded or substituted.
\<close>

theorem SplitCommandArgs_subseq:
  assumes "SplitCommandArgs input = Inr out"
  shows "[] \<notin> set out \<and> subseq (concat out) (concat (runes input))"
proof -
  let ?s = "fold split_step (runes input) split_init"
  have out: "out = args (flush_args ?s)"
    using assms by (auto simp: SplitCommandArgs_def split_finish_def split: if_splits option.splits)
  have "no_empty_args (flush_args ?s)"
    by (intro no_empty_flush no_empty_fold) (simp add: no_empty_args_def split_init_def)
  moreover have "subseq (collected (flush_args ?s)) ([] @ concat (runes input))"
    unfolding collected_flush by (rule collected_fold) (simp add: collected_def split_init_def)
  moreover have "value_buf (flush_args ?s) = []"
    by (simp add: flush_args_def)
  ultimately show ?thesis by (simp add: out no_empty_args_def collected_def)
qed

theorem SplitCommandArgs_subseq_witness:
  "[] \<notin> set [''-d'', ''sat;''] \<and>
   subseq (concat [''-d'', ''sat;'']) (concat (runes ''-d  sat;''))"
  by (rule SplitCommandArgs_subseq) code_simp

end
