(* ===== verification/Json.thy ===== *)
theory Json
  imports Prelude
begin

text \<open>
  Reading JSON, as Go's \<^verbatim>\<open>encoding/json\<close> does for \<^verbatim>\<open>json.Unmarshal\<close>: the bytes are cut into tokens,
  strings are unquoted (invalid UTF-8 and lone surrogates become U+FFFD), and a machine with a stack
  of open arrays and objects, at most 10000 deep, checks the grammar and builds the value.  Numbers
  stay literals.  Every text that is laid out from the tokens of a value, with any white space
  between them, is read back as this value.
\<close>

datatype json =
    JNull
  | JBool bool
  | JNumber string
  | JString string
  | JArray "json list"
  | JObject "(string \<times> json) list"

datatype token =
    LeftBracket | RightBracket | LeftBrace | RightBrace | Colon | Comma
  | NullToken | BoolToken bool | NumberToken string | StringToken string

subsection \<open>Numbers\<close>

definition valid_exp :: "string \<Rightarrow> bool" where
  "valid_exp r = (case r of [] \<Rightarrow> True
     | e # r' \<Rightarrow> (e = CHR ''e'' \<or> e = CHR ''E'') \<and>
         (let ds = (case r' of sign # ds \<Rightarrow> if sign = CHR ''+'' \<or> sign = CHR ''-'' then ds else r' | [] \<Rightarrow> [])
          in ds \<noteq> [] \<and> list_all is_digit ds))"

definition valid_frac :: "string \<Rightarrow> bool" where
  "valid_frac r = (case r of [] \<Rightarrow> True
     | c # r' \<Rightarrow> if c = CHR ''.'' then takeWhile is_digit r' \<noteq> [] \<and> valid_exp (dropWhile is_digit r')
         else valid_exp r)"

definition unsigned :: "string \<Rightarrow> string" where
  "unsigned w = (case w of [] \<Rightarrow> [] | c # r \<Rightarrow> if c = CHR ''-'' then r else w)"

definition valid_number :: "string \<Rightarrow> bool" where
  "valid_number w = (let u = unsigned w; ip = takeWhile is_digit u in
     ip \<noteq> [] \<and> (hd ip \<noteq> CHR ''0'' \<or> length ip = 1) \<and> valid_frac (dropWhile is_digit u))"

text \<open>The value of a literal as a 64-bit integer, \<^verbatim>\<open>strconv.ParseInt(literal, 10, 64)\<close>.\<close>

definition int_literal :: "string \<Rightarrow> int option" where
  "int_literal w = (let u = unsigned w; n = int (digits_value u); v = (if u = w then n else - n) in
     if u \<noteq> [] \<and> list_all is_digit u \<and> int64_range v then Some v else None)"

subsection \<open>Strings\<close>

definition encode_rune :: "nat \<Rightarrow> string" where
  "encode_rune n =
     (if n < 0x80 then [char_of n]
      else if n < 0x800 then map char_of [0xC0 + n div 64, 0x80 + n mod 64]
      else if n < 0x10000 then map char_of [0xE0 + n div 4096, 0x80 + n div 64 mod 64, 0x80 + n mod 64]
      else map char_of [0xF0 + n div 262144, 0x80 + n div 4096 mod 64, 0x80 + n div 64 mod 64,
        0x80 + n mod 64])"

definition hex_value :: "char \<Rightarrow> nat option" where
  "hex_value c = (let b = byte c in
     if 48 \<le> b \<and> b \<le> 57 then Some (b - 48)
     else if 97 \<le> b \<and> b \<le> 102 then Some (b - 87)
     else if 65 \<le> b \<and> b \<le> 70 then Some (b - 55) else None)"

fun hex4 :: "string \<Rightarrow> nat option" where
  "hex4 (a # b # c # d # s) =
     (case (hex_value a, hex_value b, hex_value c, hex_value d) of
        (Some a, Some b, Some c, Some d) \<Rightarrow> Some (((a * 16 + b) * 16 + c) * 16 + d)
      | _ \<Rightarrow> None)"
| "hex4 _ = None"

definition surrogate :: "nat \<Rightarrow> bool" where
  "surrogate n \<longleftrightarrow> 0xD800 \<le> n \<and> n < 0xE000"

text \<open>The rune of a surrogate and a following escaped one, \<^verbatim>\<open>utf16.DecodeRune\<close>.\<close>

fun surrogate_pair :: "nat \<Rightarrow> string \<Rightarrow> nat option" where
  "surrogate_pair hi (a # b # s) =
     (if a = CHR 0x5C \<and> b = CHR ''u'' then
        (case hex4 s of None \<Rightarrow> None
         | Some lo \<Rightarrow> if 0xD800 \<le> hi \<and> hi < 0xDC00 \<and> 0xDC00 \<le> lo \<and> lo < 0xE000
             then Some ((hi - 0xD800) * 1024 + (lo - 0xDC00) + 0x10000) else None)
      else None)"
| "surrogate_pair hi _ = None"

definition escape_value :: "char \<Rightarrow> char option" where
  "escape_value e =
     (if e = CHR 0x22 \<or> e = CHR 0x5C \<or> e = CHR ''/'' then Some e
      else if e = CHR ''b'' then Some (CHR 0x08)
      else if e = CHR ''f'' then Some (CHR 0x0C)
      else if e = CHR ''n'' then Some (CHR 0x0A)
      else if e = CHR ''r'' then Some (CHR 0x0D)
      else if e = CHR ''t'' then Some (CHR 0x09) else None)"

text \<open>The bytes up to the closing quote, escapes included, and what follows it.\<close>

fun scan_string :: "string \<Rightarrow> (string \<times> string) option" where
  "scan_string [] = None"
| "scan_string (c # s) =
     (if c = CHR 0x22 then Some ([], s)
      else if c = CHR 0x5C then
        (case s of [] \<Rightarrow> None
         | d # s' \<Rightarrow> map_option (\<lambda>(raw, rest). (c # d # raw, rest)) (scan_string s'))
      else if byte c < 32 then None
      else map_option (\<lambda>(raw, rest). (c # raw, rest)) (scan_string s))"

function unquote :: "string \<Rightarrow> string option" where
  "unquote [] = Some []"
| "unquote (c # s) =
     (if c = CHR 0x5C then
        (case s of [] \<Rightarrow> None
         | e # s' \<Rightarrow>
           if e = CHR ''u'' then
             (case hex4 s' of None \<Rightarrow> None
              | Some n \<Rightarrow>
                (case (if surrogate n then surrogate_pair n (drop 4 s') else None) of
                   Some rune \<Rightarrow> map_option (\<lambda>t. encode_rune rune @ t) (unquote (drop 10 s'))
                 | None \<Rightarrow> map_option (\<lambda>t. encode_rune (if surrogate n then 0xFFFD else n) @ t)
                     (unquote (drop 4 s'))))
           else (case escape_value e of None \<Rightarrow> None
              | Some x \<Rightarrow> map_option (\<lambda>t. x # t) (unquote s')))
      else
        (let w = rune_width (c # s) in
         if w = 0 then map_option (\<lambda>t. rune_error @ t) (unquote s)
         else map_option (\<lambda>t. take w (c # s) @ t) (unquote (drop (w - 1) s))))"
  by pat_completeness auto
termination
  by (relation "measure length") auto

declare unquote.simps [simp del]

subsection \<open>Tokens\<close>

definition is_space :: "char \<Rightarrow> bool" where
  "is_space c \<longleftrightarrow> c = CHR 0x20 \<or> c = CHR 0x09 \<or> c = CHR 0x0A \<or> c = CHR 0x0D"

definition punctuation :: "char \<Rightarrow> token option" where
  "punctuation c =
     (if c = CHR ''['' then Some LeftBracket else if c = CHR '']'' then Some RightBracket
      else if c = CHR ''{'' then Some LeftBrace else if c = CHR ''}'' then Some RightBrace
      else if c = CHR '':'' then Some Colon else if c = CHR '','' then Some Comma else None)"

text \<open>The characters of the literals: a longest run of them is a literal or an error.\<close>

definition is_word :: "char \<Rightarrow> bool" where
  "is_word c \<longleftrightarrow> is_alnum c \<or> c = CHR ''+'' \<or> c = CHR ''-'' \<or> c = CHR ''.''"

definition word_token :: "string \<Rightarrow> token option" where
  "word_token w =
     (if w = ''null'' then Some NullToken
      else if w = ''true'' then Some (BoolToken True)
      else if w = ''false'' then Some (BoolToken False)
      else if valid_number w then Some (NumberToken w) else None)"

lemma scan_string_length: "scan_string s = Some (raw, rest) \<Longrightarrow> length rest < length s"
proof (induction s arbitrary: raw rest rule: scan_string.induct)
  case (2 c s)
  then show ?case by (force split: if_splits list.splits)
qed simp

function lex :: "string \<Rightarrow> token list option" where
  "lex [] = Some []"
| "lex (c # s) =
     (if is_space c then lex s
      else (case punctuation c of
        Some t \<Rightarrow> map_option (Cons t) (lex s)
      | None \<Rightarrow>
          if c = CHR 0x22 then
            (case scan_string s of None \<Rightarrow> None
             | Some (raw, rest) \<Rightarrow>
                 (case unquote raw of None \<Rightarrow> None
                  | Some v \<Rightarrow> map_option (Cons (StringToken v)) (lex rest)))
          else if is_word c then
            (case word_token (c # takeWhile is_word s) of None \<Rightarrow> None
             | Some t \<Rightarrow> map_option (Cons t) (lex (dropWhile is_word s)))
          else None))"
  by pat_completeness auto
termination
  by (relation "measure length") (auto simp: less_Suc_eq_le length_dropWhile_le
      dest: scan_string_length)

declare lex.simps [simp del]

subsection \<open>The grammar\<close>

datatype frame = InArray "json list" | InObject "(string \<times> json) list" string

datatype mode =
    WantValue | WantValueOrEnd
  | WantKey "(string \<times> json) list" | WantKeyOrEnd
  | WantColon "(string \<times> json) list" string
  | HaveValue json

definition maxNestingDepth :: int where
  "maxNestingDepth = 10000"

text \<open>
  The mode and the stack after a token.  While an object waits for a key or a colon, its members so
  far are in the mode and its frame on the stack is a placeholder.
\<close>

definition open_ok :: "frame list \<Rightarrow> bool" where
  "open_ok st \<longleftrightarrow> int (length st) < maxNestingDepth"

fun value_step :: "frame list \<Rightarrow> token \<Rightarrow> (mode \<times> frame list) option" where
  "value_step st NullToken = Some (HaveValue JNull, st)"
| "value_step st (BoolToken b) = Some (HaveValue (JBool b), st)"
| "value_step st (NumberToken w) = Some (HaveValue (JNumber w), st)"
| "value_step st (StringToken s) = Some (HaveValue (JString s), st)"
| "value_step st LeftBracket = (if open_ok st then Some (WantValueOrEnd, InArray [] # st) else None)"
| "value_step st LeftBrace = (if open_ok st then Some (WantKeyOrEnd, InObject [] [] # st) else None)"
| "value_step st _ = None"

fun key_step :: "(string \<times> json) list \<Rightarrow> frame list \<Rightarrow> token \<Rightarrow> (mode \<times> frame list) option" where
  "key_step ms st (StringToken k) = Some (WantColon ms k, st)"
| "key_step ms st _ = None"

fun after_step :: "json \<Rightarrow> frame list \<Rightarrow> token \<Rightarrow> (mode \<times> frame list) option" where
  "after_step v (InArray vs # st) Comma = Some (WantValue, InArray (vs @ [v]) # st)"
| "after_step v (InArray vs # st) RightBracket = Some (HaveValue (JArray (vs @ [v])), st)"
| "after_step v (InObject ms k # st) Comma = Some (WantKey (ms @ [(k, v)]), InObject [] [] # st)"
| "after_step v (InObject ms k # st) RightBrace = Some (HaveValue (JObject (ms @ [(k, v)])), st)"
| "after_step v _ _ = None"

fun json_step :: "mode \<Rightarrow> frame list \<Rightarrow> token \<Rightarrow> (mode \<times> frame list) option" where
  "json_step WantValue st t = value_step st t"
| "json_step WantValueOrEnd st t =
     (if t = RightBracket then Some (HaveValue (JArray []), tl st) else value_step st t)"
| "json_step (WantKey ms) st t = key_step ms st t"
| "json_step WantKeyOrEnd st t =
     (if t = RightBrace then Some (HaveValue (JObject []), tl st) else key_step [] st t)"
| "json_step (WantColon ms k) st t =
     (if t = Colon then Some (WantValue, InObject ms k # tl st) else None)"
| "json_step (HaveValue v) st t = after_step v st t"

fun json_run :: "mode \<Rightarrow> frame list \<Rightarrow> token list \<Rightarrow> json option" where
  "json_run m st [] = (case m of HaveValue v \<Rightarrow> if st = [] then Some v else None | _ \<Rightarrow> None)"
| "json_run m st (t # ts) = (case json_step m st t of None \<Rightarrow> None | Some (m', st') \<Rightarrow> json_run m' st' ts)"

definition parse_json :: "string \<Rightarrow> json option" where
  "parse_json s = (case lex s of None \<Rightarrow> None | Some ts \<Rightarrow> json_run WantValue [] ts)"

subsection \<open>Writing JSON\<close>

definition escape_char :: "char \<Rightarrow> string" where
  "escape_char c =
     (if c = CHR 0x22 \<or> c = CHR 0x5C then [CHR 0x5C, c]
      else if byte c < 32
        then CHR 0x5C # ''u00'' @ [hex_digit (byte c div 16), hex_digit (byte c mod 16)]
      else [c])"

definition escape :: "string \<Rightarrow> string" where
  "escape s = concat (map escape_char s)"

function valid_utf8 :: "string \<Rightarrow> bool" where
  "valid_utf8 [] = True"
| "valid_utf8 (c # s) =
     (let w = rune_width (c # s) in w \<noteq> 0 \<and> valid_utf8 (drop (w - 1) s))"
  by pat_completeness auto
termination
  by (relation "measure length") auto

declare valid_utf8.simps [simp del]

fun token_text :: "token \<Rightarrow> string" where
  "token_text LeftBracket = ''[''"
| "token_text RightBracket = '']''"
| "token_text LeftBrace = ''{''"
| "token_text RightBrace = ''}''"
| "token_text Colon = '':''"
| "token_text Comma = '',''"
| "token_text NullToken = ''null''"
| "token_text (BoolToken b) = (if b then ''true'' else ''false'')"
| "token_text (NumberToken w) = w"
| "token_text (StringToken s) = CHR 0x22 # escape s @ [CHR 0x22]"

fun good_token :: "token \<Rightarrow> bool" where
  "good_token (NumberToken w) \<longleftrightarrow> valid_number w"
| "good_token (StringToken s) \<longleftrightarrow> valid_utf8 s"
| "good_token _ \<longleftrightarrow> True"

fun is_literal :: "token \<Rightarrow> bool" where
  "is_literal NullToken = True"
| "is_literal (BoolToken b) = True"
| "is_literal (NumberToken w) = True"
| "is_literal _ = False"

text \<open>Tokens that no white space has to separate.\<close>

fun apart :: "token list \<Rightarrow> bool" where
  "apart (t # t' # ts) \<longleftrightarrow> \<not> (is_literal t \<and> is_literal t') \<and> apart (t' # ts)"
| "apart _ \<longleftrightarrow> True"

text \<open>Tokens, each with the white space after it.\<close>

definition layout :: "(token \<times> string) list \<Rightarrow> string" where
  "layout tws = concat (map (\<lambda>(t, w). token_text t @ w) tws)"

subsection \<open>Reading what was written\<close>

lemma word_char: "is_word c \<Longrightarrow> \<not> is_space c \<and> punctuation c = None \<and> c \<noteq> CHR 0x22"
proof -
  assume c: "is_word c"
  let ?specials = "''[]{}:, '' @ [CHR 0x22, CHR 0x09, CHR 0x0A, CHR 0x0D]"
  have "list_all (\<lambda>c. \<not> is_word c) ?specials" by code_simp
  with c have "c \<notin> set ?specials" by (auto simp: list_all_iff)
  then show ?thesis by (simp add: is_space_def punctuation_def)
qed

lemma word_samples:
  "is_word (CHR ''e'')" "is_word (CHR ''E'')" "is_word (CHR ''+'')" "is_word (CHR ''-'')"
  "is_word (CHR ''.'')" "list_all is_word ''null''" "list_all is_word ''true''"
  "list_all is_word ''false''"
  by code_simp+

lemma space_char: "is_space c \<Longrightarrow> punctuation c = None"
  by (auto simp: is_space_def punctuation_def)

lemma punctuation_not_word: "punctuation c = Some t \<Longrightarrow> \<not> is_word c \<and> \<not> is_space c"
  using word_char [of c] space_char [of c] by auto

lemma space_not_word: "is_space c \<Longrightarrow> \<not> is_word c"
  using word_char by blast

lemma digit_word: "is_digit c \<Longrightarrow> is_word c"
  by (simp add: is_digit_def is_word_def is_alnum_def is_lower_alnum_def)

lemma list_all_split: "list_all P (takeWhile Q xs) \<Longrightarrow> list_all P (dropWhile Q xs) \<Longrightarrow> list_all P xs"
  by (metis list_all_append takeWhile_dropWhile_id)

lemma digits_words: "list_all is_word (takeWhile is_digit u)"
  by (auto simp: list_all_iff dest: set_takeWhileD intro: digit_word)

lemma all_digits_words: "list_all is_digit ds \<Longrightarrow> list_all is_word ds"
  by (auto simp: list_all_iff intro: digit_word)

lemma exp_words: "valid_exp r \<Longrightarrow> list_all is_word r"
proof -
  assume v: "valid_exp r"
  show ?thesis
  proof (cases r)
    case (Cons e r')
    have "e = CHR ''e'' \<or> e = CHR ''E''" using v by (simp add: Cons valid_exp_def)
    then have e: "is_word e" using word_samples by blast
    have "list_all is_word r'"
    proof (cases r')
      case sign: (Cons sign ds)
      show ?thesis
      proof (cases "sign = CHR ''+'' \<or> sign = CHR ''-''")
        case True
        then have "list_all is_digit ds" using v by (simp add: Cons sign valid_exp_def)
        then show ?thesis using True all_digits_words using word_samples by (auto simp: sign)
      next
        case False
        then have "list_all is_digit r'" using v by (simp add: Cons sign valid_exp_def)
        then show ?thesis by (rule all_digits_words)
      qed
    qed simp
    with e show ?thesis by (simp add: Cons)
  qed simp
qed

lemma frac_words: "valid_frac r \<Longrightarrow> list_all is_word r"
proof -
  assume v: "valid_frac r"
  show ?thesis
  proof (cases r)
    case (Cons c r')
    show ?thesis
    proof (cases "c = CHR ''.''")
      case True
      then have "list_all is_word (dropWhile is_digit r')"
        using v by (intro exp_words) (simp add: valid_frac_def Cons)
      then have "list_all is_word r'" using digits_words by (rule list_all_split [rotated])
      then show ?thesis using word_samples by (simp add: Cons True)
    next
      case False
      then show ?thesis using v by (intro exp_words) (simp add: valid_frac_def Cons)
    qed
  qed simp
qed

lemma number_words: "valid_number w \<Longrightarrow> w \<noteq> [] \<and> list_all is_word w"
proof -
  assume v: "valid_number w"
  let ?u = "unsigned w"
  have "list_all is_word (dropWhile is_digit ?u)"
    using v by (intro frac_words) (simp add: valid_number_def Let_def)
  then have "list_all is_word ?u" using digits_words by (rule list_all_split [rotated])
  moreover have "?u \<noteq> []" using v by (auto simp: valid_number_def Let_def)
  ultimately show ?thesis
    using word_samples by (cases w) (auto simp: unsigned_def split: if_splits)
qed

lemma valid_number_not_keyword:
  "valid_number w \<Longrightarrow> w \<noteq> ''null'' \<and> w \<noteq> ''true'' \<and> w \<noteq> ''false''"
  by (auto simp: valid_number_def unsigned_def is_digit_def Let_def)

text \<open>A literal token starts with its text.\<close>

lemma literal_text:
  assumes "is_literal t" and "good_token t"
  shows "token_text t \<noteq> []" and "list_all is_word (token_text t)"
    and "word_token (token_text t) = Some t"
  using assms number_words valid_number_not_keyword word_samples
  by (cases t; simp add: word_token_def)+

lemma other_text: "\<not> is_literal t \<Longrightarrow> \<exists>c r. token_text t = c # r \<and> \<not> is_word c"
proof -
  have "list_all (\<lambda>c. \<not> is_word c) (''[]{}:,'' @ [CHR 0x22])" by code_simp
  then show "\<not> is_literal t \<Longrightarrow> ?thesis" by (cases t) simp_all
qed

lemma lex_space: "list_all is_space w \<Longrightarrow> lex (w @ s) = lex s"
  by (induction w) (simp_all add: lex.simps)

lemma hex_value_digit: "d < 16 \<Longrightarrow> hex_value (hex_digit d) = Some d"
  by (simp add: hex_value_def hex_digit_def)

lemma hex_digit_plain: "d < 16 \<Longrightarrow> hex_digit d \<noteq> CHR 0x22 \<and> hex_digit d \<noteq> CHR 0x5C \<and> \<not> byte (hex_digit d) < 32"
proof -
  assume "d < 16"
  then have "48 \<le> byte (hex_digit d) \<and> byte (hex_digit d) \<noteq> 92"
    by (simp add: hex_digit_def)
  then show ?thesis by auto
qed

lemma scan_escaped: "scan_string (escape s @ CHR 0x22 # rest) = Some (escape s, rest)"
proof (induction s)
  case (Cons c s)
  have "byte c div 16 < 16" by (simp add: less_mult_imp_div_less)
  then show ?case
    using Cons hex_digit_plain [of "byte c div 16"] hex_digit_plain [of "byte c mod 16"]
    by (simp add: escape_def escape_char_def)
qed (simp add: escape_def)

lemma cont_in_weaken: "cont_in lo hi s i \<Longrightarrow> 128 \<le> lo \<Longrightarrow> hi \<le> 191 \<Longrightarrow> cont_in 128 191 s i"
  by (auto simp: cont_in_def)

lemma cont_in_untake: "i < w \<Longrightarrow> w \<le> length s \<Longrightarrow> cont_in lo hi (take w s @ t) i = cont_in lo hi s i"
  by (simp add: cont_in_def nth_append)

text \<open>A rune of more than one byte consists of bytes that are not ASCII.\<close>

lemma rune_width_cases:
  assumes "rune_width s = w" and "w \<noteq> 0"
  shows "byte (hd s) < 128 \<and> w = 1 \<or>
    128 \<le> byte (hd s) \<and> cont_in 128 191 s 1 \<and>
      (w = 2 \<or> w = 3 \<and> cont_in 128 191 s 2 \<or> w = 4 \<and> cont_in 128 191 s 2 \<and> cont_in 128 191 s 3)"
  using assms unfolding rune_width_def Let_def
  by (simp split: if_splits) (simp_all add: cont_in_weaken)

lemma rune_width_le:
  assumes "rune_width s \<noteq> 0" and "s \<noteq> []"
  shows "rune_width s \<le> length s"
  using rune_width_cases [OF refl assms(1)] assms(2)
  by (auto simp: cont_in_def Suc_le_eq)

lemma rune_width_take:
  assumes "rune_width s = w" and "w \<noteq> 0" and "s \<noteq> []"
  shows "rune_width (take w s @ t) = w"
proof -
  have le: "w \<le> length s" using rune_width_le assms by blast
  have hd: "hd (take w s @ t) = hd s" using assms(2,3) by (cases s; cases w) simp_all
  have same: "cont_in lo hi (take w s @ t) i = cont_in lo hi s i" if "i < w" for lo hi i
    using that le by (rule cont_in_untake)
  from rune_width_cases [OF assms(1,2)] show ?thesis
  proof (elim disjE conjE)
    assume w: "w = 2"
    show ?thesis using assms(1) unfolding rune_width_def Let_def w
      by (auto simp: hd [unfolded w] same [unfolded w] split: if_splits)
  next
    assume w: "w = 3"
    show ?thesis using assms(1) unfolding rune_width_def Let_def w
      by (auto simp: hd [unfolded w] same [unfolded w] split: if_splits)
  next
    assume w: "w = 4"
    show ?thesis using assms(1) unfolding rune_width_def Let_def w
      by (auto simp: hd [unfolded w] same [unfolded w] split: if_splits)
  next
    assume "w = 1" and "byte (hd s) < 128"
    then show ?thesis using hd by (simp add: rune_width_def)
  qed
qed

lemma rune_bytes:
  assumes "rune_width s = w" and "1 < w" and "x \<in> set (take w s)" and "s \<noteq> []"
  shows "128 \<le> byte x"
proof -
  obtain i where i: "i < w" "i < length s" and x: "x = s ! i"
    using assms(3) by (auto simp: in_set_conv_nth)
  have "i = 0 \<or> i = 1 \<or> i = 2 \<and> 2 < w \<or> i = 3 \<and> 3 < w"
    using rune_width_cases [OF assms(1)] assms(2) i by auto
  then show ?thesis
    using rune_width_cases [OF assms(1)] assms(2,4) by (auto simp: x hd_conv_nth cont_in_def)
qed

lemma append_single: "(@) [c] = (#) c"
  by (rule ext) simp

lemma unquote_plain:
  "c \<noteq> CHR 0x5C \<Longrightarrow> byte c < 128 \<Longrightarrow> unquote (c # s) = map_option (Cons c) (unquote s)"
  by (subst unquote.simps(2)) (simp add: rune_width_def Let_def append_single)

lemma unquote_rune:
  assumes "rune_width s = w" and "1 < w" and "s \<noteq> []"
  shows "unquote (take w s @ t) = map_option ((@) (take w s)) (unquote t)"
proof -
  obtain c r where s: "take w s = c # r" using assms(2,3) by (cases s; cases w) auto
  have le: "w \<le> length s" using rune_width_le assms by fastforce
  then have r: "length r = w - 1" using s assms(2) by (metis length_Cons length_take min.absorb2 diff_Suc_1)
  have "128 \<le> byte c" by (rule rune_bytes [OF assms(1,2) _ assms(3)]) (simp add: s)
  then have "c \<noteq> CHR 0x5C" by auto
  moreover have "rune_width (c # r @ t) = w"
    using rune_width_take [OF assms(1) _ assms(3), of t] assms(2) by (simp add: s)
  moreover have "take w (c # r @ t) = c # r" and "drop (w - 1) (r @ t) = t"
    using r assms(2) by (cases w; simp)+
  ultimately show ?thesis
    unfolding s append_Cons using assms(2)
    by (subst unquote.simps(2)) (cases "unquote t"; simp add: Let_def)
qed

lemma unquote_escape_char: "byte c < 128 \<Longrightarrow> unquote (escape_char c @ t) = map_option (Cons c) (unquote t)"
proof -
  assume c: "byte c < 128"
  consider "c = CHR 0x22 \<or> c = CHR 0x5C" | "byte c < 32" "c \<noteq> CHR 0x22" "c \<noteq> CHR 0x5C"
    | "\<not> byte c < 32" "c \<noteq> CHR 0x22" "c \<noteq> CHR 0x5C" by blast
  then show ?thesis
  proof cases
    case 1
    then show ?thesis
      by (auto simp: escape_char_def escape_value_def unquote.simps(2))
  next
    case 2
    have "byte c div 16 < 16" and "byte c div 16 * 16 + byte c mod 16 = byte c" using 2 by simp_all
    then have "hex4 (''00'' @ [hex_digit (byte c div 16), hex_digit (byte c mod 16)] @ t) = Some (byte c)"
      using hex_value_digit [of 0] by (simp add: hex_value_digit) (simp add: hex_value_def)
    moreover have "\<not> surrogate (byte c)" and "encode_rune (byte c) = [c]"
      using 2 by (simp_all add: surrogate_def encode_rune_def)
    ultimately show ?thesis
      using 2 by (simp add: escape_char_def unquote.simps(2) [of "CHR 0x5C"] append_single)
  next
    case 3
    with c show ?thesis by (simp add: escape_char_def unquote_plain)
  qed
qed

lemma escape_append: "escape (s @ t) = escape s @ escape t"
  by (simp add: escape_def)

lemma escape_high: "\<forall>x \<in> set s. 128 \<le> byte x \<Longrightarrow> escape s = s"
  by (induction s) (auto simp: escape_def escape_char_def)

lemma unquote_escape: "valid_utf8 s \<Longrightarrow> unquote (escape s) = Some s"
proof (induction s rule: valid_utf8.induct)
  case (2 c s)
  define w where "w = rune_width (c # s)"
  have w: "w \<noteq> 0" and IH: "unquote (escape (drop (w - 1) s)) = Some (drop (w - 1) s)"
    using 2 by (simp_all add: valid_utf8.simps(2) w_def Let_def)
  show ?case
  proof (cases "w = 1")
    case True
    then have "byte c < 128" using rune_width_cases [of "c # s" w] w_def by auto
    then show ?thesis using IH True by (simp add: escape_def unquote_escape_char)
  next
    case False
    with w have w1: "1 < w" by simp
    have "\<forall>x \<in> set (take w (c # s)). 128 \<le> byte x" using rune_bytes [of "c # s" w] w1 w_def by blast
    then have "escape (take w (c # s)) = take w (c # s)" by (rule escape_high)
    moreover have "drop w (c # s) = drop (w - 1) s" using w by (simp add: drop_Cons')
    ultimately have "escape (c # s) = take w (c # s) @ escape (drop (w - 1) s)"
      by (metis append_take_drop_id escape_append)
    then show ?thesis
      using unquote_rune [of "c # s" w] w1 IH w_def \<open>drop w (c # s) = drop (w - 1) s\<close>
      by simp (metis append_take_drop_id)
  qed
qed (simp add: escape_def unquote.simps)

text \<open>White space may follow every token, and must not be there for tokens that are apart.\<close>

lemma lex_string:
  assumes "valid_utf8 v"
  shows "lex (token_text (StringToken v) @ s) = map_option (Cons (StringToken v)) (lex s)"
  using scan_escaped [of v s] unquote_escape [OF assms]
  by (simp add: lex.simps(2) is_space_def punctuation_def)

lemma lex_literal:
  assumes "is_literal t" and "good_token t" and "s = [] \<or> \<not> is_word (hd s)"
  shows "lex (token_text t @ s) = map_option (Cons t) (lex s)"
proof -
  obtain c r where t: "token_text t = c # r" and c: "is_word c" and r: "list_all is_word r"
    using literal_text(1,2) [OF assms(1,2)] by (cases "token_text t") auto
  have "takeWhile is_word (r @ s) = r" and "dropWhile is_word (r @ s) = s"
    using r assms(3) by (cases s; simp add: list_all_iff takeWhile_append dropWhile_append3)+
  then show ?thesis
    using literal_text(3) [OF assms(1,2)] word_char [OF c] c by (simp add: t lex.simps(2))
qed

lemma lex_punctuation:
  assumes "\<not> is_literal t" and "\<And>v. t \<noteq> StringToken v"
  shows "lex (token_text t @ s) = map_option (Cons t) (lex s)"
proof (cases t)
  case (StringToken v)
  then show ?thesis using assms(2) by blast
qed (use assms(1) in \<open>simp_all add: lex.simps(2) is_space_def punctuation_def\<close>)

lemma lex_layout:
  assumes "apart (map fst tws)" and "list_all (\<lambda>(t, w). good_token t \<and> list_all is_space w) tws"
  shows "lex (layout tws) = Some (map fst tws)"
  using assms
proof (induction tws)
  case (Cons tw tws)
  obtain t w where tw: "tw = (t, w)" by fastforce
  let ?s = "w @ layout tws"
  have laid: "layout (tw # tws) = token_text t @ ?s" by (simp add: layout_def tw)
  have w: "list_all is_space w" and good: "good_token t" using Cons.prems(2) by (simp_all add: tw)
  have "apart (map fst tws)" using Cons.prems(1) by (cases tws) auto
  then have rest: "lex ?s = Some (map fst tws)" using Cons w by (simp add: tw lex_space)
  consider "is_literal t" | v where "t = StringToken v" | "\<not> is_literal t" "\<And>v. t \<noteq> StringToken v"
    by (cases t) auto
  then show ?case
  proof cases
    case 1
    have "?s = [] \<or> \<not> is_word (hd ?s)"
    proof (cases w)
      case Nil
      show ?thesis
      proof (cases tws)
        case (Cons tw' tws')
        obtain t' w' where "tw' = (t', w')" by fastforce
        moreover have "\<not> is_literal t'" using Cons.prems(1) 1 by (simp add: tw Cons \<open>tw' = (t', w')\<close>)
        ultimately show ?thesis using other_text [of t'] by (auto simp: Cons layout_def Nil)
      qed (simp add: layout_def Nil)
    next
      case (Cons c w')
      then show ?thesis using w space_not_word by simp
    qed
    then show ?thesis using lex_literal [OF 1 good] rest unfolding laid by (simp add: tw)
  next
    case 2
    then show ?thesis using lex_string [of v ?s] good rest unfolding laid by (simp add: tw)
  next
    case 3
    then show ?thesis using lex_punctuation [of t ?s] rest unfolding laid by (simp add: tw)
  qed
qed (simp add: layout_def lex.simps(1))

subsection \<open>Reading values\<close>

fun commas :: "token list list \<Rightarrow> token list" where
  "commas [] = []"
| "commas [ts] = ts"
| "commas (ts # us # tss) = ts @ Comma # commas (us # tss)"

fun tokens :: "json \<Rightarrow> token list" where
  "tokens JNull = [NullToken]"
| "tokens (JBool b) = [BoolToken b]"
| "tokens (JNumber w) = [NumberToken w]"
| "tokens (JString s) = [StringToken s]"
| "tokens (JArray vs) = LeftBracket # commas (map tokens vs) @ [RightBracket]"
| "tokens (JObject ms) =
     LeftBrace # commas (map (\<lambda>(k, v). StringToken k # Colon # tokens v) ms) @ [RightBrace]"

fun json_depth :: "json \<Rightarrow> nat" where
  "json_depth (JArray vs) = Suc (foldr max (map json_depth vs) 0)"
| "json_depth (JObject ms) = Suc (foldr max (map (\<lambda>(k, v). json_depth v) ms) 0)"
| "json_depth _ = 0"

fun good_json :: "json \<Rightarrow> bool" where
  "good_json (JNumber w) \<longleftrightarrow> valid_number w"
| "good_json (JString s) \<longleftrightarrow> valid_utf8 s"
| "good_json (JArray vs) \<longleftrightarrow> list_all good_json vs"
| "good_json (JObject ms) \<longleftrightarrow> list_all (\<lambda>(k, v). valid_utf8 k \<and> good_json v) ms"
| "good_json _ \<longleftrightarrow> True"

definition starts_value :: "token list \<Rightarrow> bool" where
  "starts_value ts \<longleftrightarrow> ts \<noteq> [] \<and> hd ts \<noteq> RightBracket"

lemma tokens_start: "starts_value (tokens v)"
  by (cases v) (simp_all add: starts_value_def)

lemma json_run_start:
  "starts_value ts \<Longrightarrow> json_run WantValueOrEnd st (ts @ us) = json_run WantValue st (ts @ us)"
  by (cases ts) (simp_all add: starts_value_def)

text \<open>Reading the elements of an array, given that each is read.\<close>

lemma json_run_elements:
  assumes "\<And>v us ts. v \<in> set vs \<Longrightarrow>
      json_run WantValue (InArray us # st) (tokens v @ ts) = json_run (HaveValue v) (InArray us # st) ts"
    and "vs \<noteq> []"
  shows "json_run WantValue (InArray us # st) (commas (map tokens vs) @ RightBracket # ts) =
    json_run (HaveValue (JArray (us @ vs))) st ts"
  using assms
proof (induction vs arbitrary: us)
  case (Cons v vs)
  show ?case
  proof (cases vs)
    case Nil
    then show ?thesis using Cons.prems(1) [of v] by simp
  next
    case (Cons v' vs')
    then have "json_run WantValue (InArray (us @ [v]) # st) (commas (map tokens vs) @ RightBracket # ts) =
        json_run (HaveValue (JArray ((us @ [v]) @ vs))) st ts"
      by (intro Cons.IH) (simp_all add: Cons.prems)
    then show ?thesis using Cons.prems(1) [of v] by (simp add: Cons)
  qed
qed simp

definition member_tokens :: "string \<times> json \<Rightarrow> token list" where
  "member_tokens = (\<lambda>(k, v). StringToken k # Colon # tokens v)"

lemma json_run_members:
  assumes "\<And>k v ns k' ts. (k, v) \<in> set ms \<Longrightarrow>
      json_run WantValue (InObject ns k' # st) (tokens v @ ts) =
      json_run (HaveValue v) (InObject ns k' # st) ts"
    and "ms \<noteq> []"
  shows "json_run (WantKey ns) (f # st) (commas (map member_tokens ms) @ RightBrace # ts) =
    json_run (HaveValue (JObject (ns @ ms))) st ts"
  using assms
proof (induction ms arbitrary: ns f)
  case (Cons m ms)
  obtain k v where m: "m = (k, v)" by fastforce
  show ?case
  proof (cases ms)
    case Nil
    then show ?thesis using Cons.prems(1) [of k v] by (simp add: m member_tokens_def)
  next
    case (Cons m' ms')
    then have "json_run (WantKey (ns @ [m])) (InObject [] [] # st)
        (commas (map member_tokens ms) @ RightBrace # ts) =
        json_run (HaveValue (JObject ((ns @ [m]) @ ms))) st ts"
      by (intro Cons.IH) (auto intro!: Cons.prems(1))
    then show ?thesis using Cons.prems(1) [of k v] by (simp add: Cons m) (simp add: member_tokens_def)
  qed
qed simp

lemma depth_element: "v \<in> set vs \<Longrightarrow> json_depth v \<le> foldr max (map json_depth vs) 0"
  by (induction vs) auto

lemma depth_member: "(k, v) \<in> set ms \<Longrightarrow> json_depth v \<le> foldr max (map (\<lambda>(k, v). json_depth v) ms) 0"
  by (induction ms) auto

lemma json_run_tokens:
  "int (length st + json_depth v) \<le> maxNestingDepth \<Longrightarrow>
   json_run WantValue st (tokens v @ ts) = json_run (HaveValue v) st ts"
proof (induction v arbitrary: st ts)
  case (JArray vs)
  have "open_ok st" using JArray.prems by (simp add: open_ok_def)
  show ?case
  proof (cases "vs = []")
    case False
    have "json_run WantValue (InArray us # st) (tokens v @ ts) = json_run (HaveValue v) (InArray us # st) ts"
      if "v \<in> set vs" for v us ts
      using JArray.prems depth_element [OF that] by (intro JArray.IH [OF that]) simp
    note elements = json_run_elements [OF this False, of "[]" ts]
    have "starts_value (commas (map tokens vs))"
      using False tokens_start by (cases vs; cases "tl vs") (auto simp: starts_value_def)
    then show ?thesis
      using elements \<open>open_ok st\<close> by (simp add: json_run_start)
  qed (use \<open>open_ok st\<close> in simp)
next
  case (JObject ms)
  have "open_ok st" using JObject.prems by (simp add: open_ok_def)
  show ?case
  proof (cases "ms = []")
    case False
    have "json_run WantValue (InObject ns k' # st) (tokens v @ ts) =
        json_run (HaveValue v) (InObject ns k' # st) ts" if "(k, v) \<in> set ms" for k v ns k' ts
      using JObject.prems depth_member [OF that] by (intro JObject.IH [OF that]) simp_all
    then have members: "json_run (WantKey []) (InObject [] [] # st)
        (commas (map member_tokens ms) @ RightBrace # ts) = json_run (HaveValue (JObject ([] @ ms))) st ts"
      using False by (intro json_run_members) simp_all
    have "commas (map member_tokens ms) \<noteq> [] \<and> hd (commas (map member_tokens ms)) \<noteq> RightBrace"
      using False by (cases ms; cases "tl ms") (auto simp: member_tokens_def)
    then show ?thesis
      using members \<open>open_ok st\<close>
      by (cases "commas (map member_tokens ms)") (simp_all add: member_tokens_def)
  qed (use \<open>open_ok st\<close> in simp)
qed simp_all

lemma list_all_commas: "P Comma \<Longrightarrow> list_all (list_all P) tss \<Longrightarrow> list_all P (commas tss)"
  by (induction tss rule: commas.induct) auto

lemma good_tokens: "good_json v \<Longrightarrow> list_all good_token (tokens v)"
proof (induction v)
  case (JArray vs)
  then have "list_all good_token (commas (map tokens vs))"
    by (intro list_all_commas) (auto simp: list_all_iff)
  then show ?case by simp
next
  case (JObject ms)
  then have "list_all good_token (commas (map member_tokens ms))"
    by (intro list_all_commas) (fastforce simp: list_all_iff member_tokens_def)+
  then show ?case by (simp add: member_tokens_def)
qed simp_all

lemma apart_Cons: "\<not> is_literal t \<Longrightarrow> apart (t # ts) \<longleftrightarrow> apart ts"
  by (cases ts) auto

lemma apart_append: "apart ts \<Longrightarrow> apart us \<Longrightarrow> \<not> is_literal t \<Longrightarrow> apart (ts @ t # us)"
  by (induction ts rule: apart.induct) (auto simp: apart_Cons)

lemma apart_commas: "list_all apart tss \<Longrightarrow> apart (commas tss)"
  by (induction tss rule: commas.induct) (auto intro: apart_append)

lemma apart_tokens: "apart (tokens v)"
proof (induction v)
  case (JArray vs)
  then have "apart (commas (map tokens vs))" by (intro apart_commas) (simp add: list_all_iff)
  then show ?case by (simp add: apart_Cons apart_append)
next
  case (JObject ms)
  then have "apart (commas (map member_tokens ms))"
    by (intro apart_commas) (fastforce simp: list_all_iff member_tokens_def apart_Cons)
  then show ?case by (simp add: apart_Cons apart_append member_tokens_def)
qed simp_all

lemma parse_layout:
  assumes "good_json v" and "int (json_depth v) \<le> maxNestingDepth" and "map fst tws = tokens v"
    and "list_all is_space indent" and "list_all (list_all is_space) (map snd tws)"
  shows "parse_json (indent @ layout tws) = Some v"
proof -
  have "list_all (\<lambda>(t, w). good_token t \<and> list_all is_space w) tws"
    using good_tokens [OF assms(1)] assms(5) unfolding assms(3) [symmetric]
    by (induction tws) auto
  then have "lex (layout tws) = Some (tokens v)"
    using lex_layout [of tws] apart_tokens [of v] by (simp add: assms(3))
  moreover have "json_run WantValue [] (tokens v @ []) = Some v"
    using assms(2) by (subst json_run_tokens) simp_all
  ultimately show ?thesis by (simp add: parse_json_def lex_space [OF assms(4)])
qed

end
