(* ===== verification/Smartctl_Json.thy ===== *)
theory Smartctl_Json
  imports Smartctl Json
begin

text \<open>
  Decoding the output of smartctl: \<^verbatim>\<open>json.Unmarshal\<close> into the structs of
  \<^verbatim>\<open>pkg/smartmontools/types.go\<close>, one list of fields per struct, each with the name of its JSON tag.
  A decoder updates an existing value: a member that occurs twice is decoded twice into the same
  field, null leaves a plain field as it is and resets a pointer or a slice, unknown members are
  skipped, and names are matched exactly or else up to case.  \<open>None\<close> stands for an error, whatever
  it says.  A slice that is decoded twice reuses its elements; elements that a shorter decoding in
  between cut off are taken as zero.
\<close>

type_synonym 'a decoder = "json \<Rightarrow> 'a \<Rightarrow> 'a option"

subsection \<open>Values\<close>

fun decode_string :: "string decoder" where
  "decode_string JNull x = Some x"
| "decode_string (JString s) x = Some s"
| "decode_string _ x = None"

fun decode_bool :: "bool decoder" where
  "decode_bool JNull x = Some x"
| "decode_bool (JBool b) x = Some b"
| "decode_bool _ x = None"

fun decode_int :: "int decoder" where
  "decode_int JNull x = Some x"
| "decode_int (JNumber w) x = int_literal w"
| "decode_int _ x = None"

fun decode_pointer :: "'a \<Rightarrow> 'a decoder \<Rightarrow> 'a option decoder" where
  "decode_pointer zero d JNull p = Some None"
| "decode_pointer zero d j p = map_option Some (d j (case p of None \<Rightarrow> zero | Some x \<Rightarrow> x))"

fun decode_elements :: "'a \<Rightarrow> 'a decoder \<Rightarrow> json list \<Rightarrow> 'a list \<Rightarrow> 'a list option" where
  "decode_elements zero d [] xs = Some []"
| "decode_elements zero d (j # js) xs =
     (case d j (case xs of [] \<Rightarrow> zero | x # _ \<Rightarrow> x) of None \<Rightarrow> None
      | Some y \<Rightarrow> map_option (Cons y) (decode_elements zero d js (tl xs)))"

fun decode_slice :: "'a \<Rightarrow> 'a decoder \<Rightarrow> 'a list decoder" where
  "decode_slice zero d JNull xs = Some []"
| "decode_slice zero d (JArray js) xs = decode_elements zero d js xs"
| "decode_slice zero d _ xs = None"

text \<open>
  A \<^verbatim>\<open>map[string]any\<close> accepts every object whose numbers a \<^verbatim>\<open>float64\<close> can hold; nothing is kept of it.
\<close>

definition exponent :: "string \<Rightarrow> int" where
  "exponent r = (case r of [] \<Rightarrow> 0
     | e # r' \<Rightarrow> (case r' of [] \<Rightarrow> 0
        | c # ds \<Rightarrow> if c = CHR ''-'' then - int (digits_value ds)
            else if c = CHR ''+'' then int (digits_value ds) else int (digits_value r')))"

definition float_ok :: "string \<Rightarrow> bool" where
  "float_ok w =
     (let u = unsigned w;
          ip = takeWhile is_digit u; r = dropWhile is_digit u;
          point = (r \<noteq> [] \<and> hd r = CHR ''.'');
          frac = (if point then takeWhile is_digit (tl r) else []);
          ex = exponent (if point then dropWhile is_digit (tl r) else r) - int (length frac);
          m = int (digits_value (ip @ frac)); limit = 2 ^ 1024 - 2 ^ 970
      in m = 0 \<or> (if 0 \<le> ex then m * 10 ^ nat ex < limit else m < limit * 10 ^ nat (- ex)))"

fun any_ok :: "json \<Rightarrow> bool" where
  "any_ok (JNumber w) \<longleftrightarrow> float_ok w"
| "any_ok (JArray js) \<longleftrightarrow> list_all any_ok js"
| "any_ok (JObject ms) \<longleftrightarrow> list_all (\<lambda>(k, v). any_ok v) ms"
| "any_ok _ \<longleftrightarrow> True"

fun decode_any_map :: "'a decoder" where
  "decode_any_map JNull x = Some x"
| "decode_any_map (JObject ms) x = (if any_ok (JObject ms) then Some x else None)"
| "decode_any_map _ x = None"

subsection \<open>Structs\<close>

type_synonym 'a struct_fields = "(string \<times> 'a decoder) list"

definition find_field :: "'a struct_fields \<Rightarrow> string \<Rightarrow> 'a decoder option" where
  "find_field fs k = (case map_of fs k of Some d \<Rightarrow> Some d
     | None \<Rightarrow> map_option snd (List.find (\<lambda>(name, _). equal_fold name k) fs))"

fun decode_members :: "'a struct_fields \<Rightarrow> (string \<times> json) list \<Rightarrow> 'a \<Rightarrow> 'a option" where
  "decode_members fs [] x = Some x"
| "decode_members fs ((k, v) # ms) x =
     (case find_field fs k of None \<Rightarrow> decode_members fs ms x
      | Some d \<Rightarrow> (case d v x of None \<Rightarrow> None | Some y \<Rightarrow> decode_members fs ms y))"

fun decode_struct :: "'a struct_fields \<Rightarrow> 'a decoder" where
  "decode_struct fs JNull x = Some x"
| "decode_struct fs (JObject ms) x = decode_members fs ms x"
| "decode_struct fs _ x = None"

text \<open>A field of a struct, given by its selector, its update and the decoder of its type.\<close>

definition json_field :: "('a \<Rightarrow> 'b) \<Rightarrow> (('b \<Rightarrow> 'b) \<Rightarrow> 'a \<Rightarrow> 'a) \<Rightarrow> 'b decoder \<Rightarrow> 'a decoder" where
  "json_field get upd d j x = map_option (\<lambda>y. upd (\<lambda>_. y) x) (d j (get x))"

definition zero_Message :: Message where
  "zero_Message = \<lparr>m_String = [], m_Severity = []\<rparr>"

definition Message_fields :: "Message struct_fields" where
  "Message_fields = [(''string'', json_field m_String m_String_update decode_string),
     (''severity'', json_field m_Severity m_Severity_update decode_string)]"

definition zero_SmartctlInfo :: SmartctlInfo where
  "zero_SmartctlInfo = \<lparr>Version = [], ExitStatus = 0, Messages = []\<rparr>"

definition SmartctlInfo_fields :: "SmartctlInfo struct_fields" where
  "SmartctlInfo_fields = [(''version'', json_field Version Version_update (decode_slice 0 decode_int)),
     (''exit_status'', json_field ExitStatus ExitStatus_update decode_int),
     (''messages'', json_field Messages Messages_update
       (decode_slice zero_Message (decode_struct Message_fields)))]"

definition zero_DeviceHeader :: DeviceHeader where
  "zero_DeviceHeader = \<lparr>dh_Name = [], dh_InfoName = [], dh_Type = [], Protocol = []\<rparr>"

definition DeviceHeader_fields :: "DeviceHeader struct_fields" where
  "DeviceHeader_fields = [(''name'', json_field dh_Name dh_Name_update decode_string),
     (''info_name'', json_field dh_InfoName dh_InfoName_update decode_string),
     (''type'', json_field dh_Type dh_Type_update decode_string),
     (''protocol'', json_field Protocol Protocol_update decode_string)]"

definition SmartStatus_fields :: "SmartStatus struct_fields" where
  "SmartStatus_fields = [(''passed'', json_field Passed Passed_update decode_bool)]"

definition zero_SmartSupport :: SmartSupport where
  "zero_SmartSupport = \<lparr>Available = False, Enabled = False\<rparr>"

definition SmartSupport_fields :: "SmartSupport struct_fields" where
  "SmartSupport_fields = [(''available'', json_field Available Available_update decode_bool),
     (''enabled'', json_field Enabled Enabled_update decode_bool)]"

definition DeviceTemperature_fields :: "DeviceTemperature struct_fields" where
  "DeviceTemperature_fields = [(''current'', json_field Current Current_update decode_int)]"

definition PowerOnTime_fields :: "PowerOnTime struct_fields" where
  "PowerOnTime_fields = [(''hours'', json_field Hours Hours_update decode_int)]"

definition zero_AtaAttributeRaw :: AtaAttributeRaw where
  "zero_AtaAttributeRaw = \<lparr>raw_Value = 0, raw_String = []\<rparr>"

definition AtaAttributeRaw_fields :: "AtaAttributeRaw struct_fields" where
  "AtaAttributeRaw_fields = [(''value'', json_field raw_Value raw_Value_update decode_int),
     (''string'', json_field raw_String raw_String_update decode_string)]"

definition zero_AtaAttribute :: AtaAttribute where
  "zero_AtaAttribute = \<lparr>a_ID = 0, a_Name = [], a_Value = 0, a_Worst = 0, a_Threshold = 0,
     a_WhenFailed = [], a_Raw = zero_AtaAttributeRaw\<rparr>"

definition AtaAttribute_fields :: "AtaAttribute struct_fields" where
  "AtaAttribute_fields = [(''id'', json_field a_ID a_ID_update decode_int),
     (''name'', json_field a_Name a_Name_update decode_string),
     (''value'', json_field a_Value a_Value_update decode_int),
     (''worst'', json_field a_Worst a_Worst_update decode_int),
     (''thresh'', json_field a_Threshold a_Threshold_update decode_int),
     (''when_failed'', json_field a_WhenFailed a_WhenFailed_update decode_string),
     (''flags'', decode_any_map),
     (''raw'', json_field a_Raw a_Raw_update (decode_struct AtaAttributeRaw_fields))]"

definition zero_AtaSmartAttributes :: AtaSmartAttributes where
  "zero_AtaSmartAttributes = \<lparr>Revision = 0, Table = []\<rparr>"

definition AtaSmartAttributes_fields :: "AtaSmartAttributes struct_fields" where
  "AtaSmartAttributes_fields = [(''revision'', json_field Revision Revision_update decode_int),
     (''table'', json_field Table Table_update
       (decode_slice zero_AtaAttribute (decode_struct AtaAttribute_fields)))]"

definition zero_NvmeSmartHealth :: NvmeSmartHealth where
  "zero_NvmeSmartHealth = \<lparr>n_CriticalWarning = 0, n_Temperature = 0, n_AvailableSpare = 0,
     n_AvailableSpareThreshold = 0, n_PercentageUsed = 0, n_DataUnitsRead = 0,
     n_DataUnitsWritten = 0, n_HostReads = 0, n_HostWrites = 0, n_MediaErrors = 0,
     n_NumErrLogEntries = 0\<rparr>"

definition NvmeSmartHealth_fields :: "NvmeSmartHealth struct_fields" where
  "NvmeSmartHealth_fields =
     [(''critical_warning'', json_field n_CriticalWarning n_CriticalWarning_update decode_int),
      (''temperature'', json_field n_Temperature n_Temperature_update decode_int),
      (''available_spare'', json_field n_AvailableSpare n_AvailableSpare_update decode_int),
      (''available_spare_threshold'',
        json_field n_AvailableSpareThreshold n_AvailableSpareThreshold_update decode_int),
      (''percentage_used'', json_field n_PercentageUsed n_PercentageUsed_update decode_int),
      (''data_units_read'', json_field n_DataUnitsRead n_DataUnitsRead_update decode_int),
      (''data_units_written'', json_field n_DataUnitsWritten n_DataUnitsWritten_update decode_int),
      (''host_reads'', json_field n_HostReads n_HostReads_update decode_int),
      (''host_writes'', json_field n_HostWrites n_HostWrites_update decode_int),
      (''media_errors'', json_field n_MediaErrors n_MediaErrors_update decode_int),
      (''num_err_log_entries'', json_field n_NumErrLogEntries n_NumErrLogEntries_update decode_int)]"

definition zero_ScsiErrorCounters :: ScsiErrorCounters where
  "zero_ScsiErrorCounters = \<lparr>TotalErrorsCorrected = 0, TotalUncorrectedErrors = 0\<rparr>"

definition ScsiErrorCounters_fields :: "ScsiErrorCounters struct_fields" where
  "ScsiErrorCounters_fields =
     [(''total_errors_corrected'', json_field TotalErrorsCorrected TotalErrorsCorrected_update decode_int),
      (''total_uncorrected_errors'',
        json_field TotalUncorrectedErrors TotalUncorrectedErrors_update decode_int)]"

definition zero_ScsiErrorLog :: ScsiErrorLog where
  "zero_ScsiErrorLog = \<lparr>Read = None, Write = None\<rparr>"

definition ScsiErrorLog_fields :: "ScsiErrorLog struct_fields" where
  "ScsiErrorLog_fields =
     [(''read'', json_field Read Read_update
        (decode_pointer zero_ScsiErrorCounters (decode_struct ScsiErrorCounters_fields))),
      (''write'', json_field Write Write_update
        (decode_pointer zero_ScsiErrorCounters (decode_struct ScsiErrorCounters_fields)))]"

definition zero_SmartctlOutput :: SmartctlOutput where
  "zero_SmartctlOutput = \<lparr>so_Smartctl = zero_SmartctlInfo, so_Device = zero_DeviceHeader,
     so_ModelFamily = [], so_ModelName = [], so_SerialNumber = [], so_FirmwareVersion = [],
     so_SmartStatus = \<lparr>Passed = False\<rparr>, so_SmartSupport = None, so_Temperature = None,
     so_PowerOnTime = None, so_PowerCycleCount = None, so_RotationRate = 0,
     so_AtaSmartAttributes = None, so_NvmeSmart = None, so_ScsiErrorLog = None\<rparr>"

definition SmartctlOutput_fields :: "SmartctlOutput struct_fields" where
  "SmartctlOutput_fields =
     [(''smartctl'', json_field so_Smartctl so_Smartctl_update (decode_struct SmartctlInfo_fields)),
      (''device'', json_field so_Device so_Device_update (decode_struct DeviceHeader_fields)),
      (''model_family'', json_field so_ModelFamily so_ModelFamily_update decode_string),
      (''model_name'', json_field so_ModelName so_ModelName_update decode_string),
      (''serial_number'', json_field so_SerialNumber so_SerialNumber_update decode_string),
      (''firmware_version'', json_field so_FirmwareVersion so_FirmwareVersion_update decode_string),
      (''smart_status'', json_field so_SmartStatus so_SmartStatus_update (decode_struct SmartStatus_fields)),
      (''smart_support'', json_field so_SmartSupport so_SmartSupport_update
        (decode_pointer zero_SmartSupport (decode_struct SmartSupport_fields))),
      (''temperature'', json_field so_Temperature so_Temperature_update
        (decode_pointer \<lparr>Current = 0\<rparr> (decode_struct DeviceTemperature_fields))),
      (''power_on_time'', json_field so_PowerOnTime so_PowerOnTime_update
        (decode_pointer \<lparr>Hours = 0\<rparr> (decode_struct PowerOnTime_fields))),
      (''power_cycle_count'', json_field so_PowerCycleCount so_PowerCycleCount_update
        (decode_pointer 0 decode_int)),
      (''rotation_rate'', json_field so_RotationRate so_RotationRate_update decode_int),
      (''ata_smart_attributes'', json_field so_AtaSmartAttributes so_AtaSmartAttributes_update
        (decode_pointer zero_AtaSmartAttributes (decode_struct AtaSmartAttributes_fields))),
      (''nvme_smart_health_information_log'', json_field so_NvmeSmart so_NvmeSmart_update
        (decode_pointer zero_NvmeSmartHealth (decode_struct NvmeSmartHealth_fields))),
      (''scsi_error_counter_log'', json_field so_ScsiErrorLog so_ScsiErrorLog_update
        (decode_pointer zero_ScsiErrorLog (decode_struct ScsiErrorLog_fields)))]"

text \<open>\<^verbatim>\<open>json.Unmarshal(data, &smartctlOutput)\<close> into the zero value.\<close>

definition decode_output :: "string \<Rightarrow> SmartctlOutput option" where
  "decode_output data = (case parse_json data of None \<Rightarrow> None
     | Some j \<Rightarrow> decode_struct SmartctlOutput_fields j zero_SmartctlOutput)"

subsection \<open>The JSON of an output\<close>

text \<open>
  What a JSON value has to be to stand for a value of the program, independent of the decoder.  An
  object stands for a struct when each member with the name of a field stands for the value of this
  field; a field whose member is missing or null has its zero value.  The members may come in any
  order, and there may be any others, at every level, as long as no name occurs twice and none
  is that of a field in another case.
\<close>

fun rep_string :: "json \<Rightarrow> string \<Rightarrow> bool" where
  "rep_string (JString s) x \<longleftrightarrow> x = s"
| "rep_string _ x \<longleftrightarrow> False"

fun rep_bool :: "json \<Rightarrow> bool \<Rightarrow> bool" where
  "rep_bool (JBool b) x \<longleftrightarrow> x = b"
| "rep_bool _ x \<longleftrightarrow> False"

fun rep_int :: "json \<Rightarrow> int \<Rightarrow> bool" where
  "rep_int (JNumber w) i \<longleftrightarrow> int64_range i \<and> w = itoa i"
| "rep_int _ i \<longleftrightarrow> False"

fun rep_list :: "(json \<Rightarrow> 'a \<Rightarrow> bool) \<Rightarrow> json \<Rightarrow> 'a list \<Rightarrow> bool" where
  "rep_list rep (JArray js) xs \<longleftrightarrow> list_all2 rep js xs"
| "rep_list rep _ xs \<longleftrightarrow> False"

definition rep_pointer :: "(json \<Rightarrow> 'a \<Rightarrow> bool) \<Rightarrow> json \<Rightarrow> 'a option \<Rightarrow> bool" where
  "rep_pointer rep j p \<longleftrightarrow> (case p of None \<Rightarrow> False | Some x \<Rightarrow> rep j x)"

text \<open>An opaque object; the numbers in it must be in the range of a \<^verbatim>\<open>float64\<close>.\<close>

fun rep_opaque :: "json option \<Rightarrow> bool" where
  "rep_opaque (Some (JObject ms)) \<longleftrightarrow> any_ok (JObject ms)"
| "rep_opaque (Some JNull) \<longleftrightarrow> True"
| "rep_opaque None \<longleftrightarrow> True"
| "rep_opaque _ \<longleftrightarrow> False"

text \<open>The value of a field, given its member.\<close>

definition given :: "(json \<Rightarrow> 'a \<Rightarrow> bool) \<Rightarrow> 'a \<Rightarrow> json option \<Rightarrow> 'a \<Rightarrow> bool" where
  "given rep zero l x \<longleftrightarrow> (case l of None \<Rightarrow> x = zero | Some j \<Rightarrow> if j = JNull then x = zero else rep j x)"

definition well_named :: "string list \<Rightarrow> (string \<times> json) list \<Rightarrow> bool" where
  "well_named names ms \<longleftrightarrow> distinct (filter (\<lambda>k. k \<in> set names) (map fst ms)) \<and>
     list_all (\<lambda>(k, v). k \<in> set names \<or> list_all (\<lambda>name. \<not> equal_fold name k) names) ms"

fun rep_struct :: "string list \<Rightarrow> ((string \<Rightarrow> json option) \<Rightarrow> 'a \<Rightarrow> bool) \<Rightarrow> json \<Rightarrow> 'a \<Rightarrow> bool" where
  "rep_struct names R (JObject ms) x \<longleftrightarrow> well_named names ms \<and> R (map_of ms) x"
| "rep_struct names R _ x \<longleftrightarrow> False"

definition Message_members :: "(string \<Rightarrow> json option) \<Rightarrow> Message \<Rightarrow> bool" where
  "Message_members look x \<longleftrightarrow>
     given rep_string [] (look ''string'') (m_String x) \<and>
     given rep_string [] (look ''severity'') (m_Severity x)"

definition rep_Message :: "json \<Rightarrow> Message \<Rightarrow> bool" where
  "rep_Message = rep_struct
     [''string'', ''severity'']
     Message_members"

definition SmartctlInfo_members :: "(string \<Rightarrow> json option) \<Rightarrow> SmartctlInfo \<Rightarrow> bool" where
  "SmartctlInfo_members look x \<longleftrightarrow>
     given (rep_list rep_int) [] (look ''version'') (Version x) \<and>
     given rep_int 0 (look ''exit_status'') (ExitStatus x) \<and>
     given (rep_list rep_Message) [] (look ''messages'') (Messages x)"

definition rep_SmartctlInfo :: "json \<Rightarrow> SmartctlInfo \<Rightarrow> bool" where
  "rep_SmartctlInfo = rep_struct
     [''version'', ''exit_status'', ''messages'']
     SmartctlInfo_members"

definition DeviceHeader_members :: "(string \<Rightarrow> json option) \<Rightarrow> DeviceHeader \<Rightarrow> bool" where
  "DeviceHeader_members look x \<longleftrightarrow>
     given rep_string [] (look ''name'') (dh_Name x) \<and>
     given rep_string [] (look ''info_name'') (dh_InfoName x) \<and>
     given rep_string [] (look ''type'') (dh_Type x) \<and>
     given rep_string [] (look ''protocol'') (Protocol x)"

definition rep_DeviceHeader :: "json \<Rightarrow> DeviceHeader \<Rightarrow> bool" where
  "rep_DeviceHeader = rep_struct
     [''name'', ''info_name'', ''type'', ''protocol'']
     DeviceHeader_members"

definition SmartStatus_members :: "(string \<Rightarrow> json option) \<Rightarrow> SmartStatus \<Rightarrow> bool" where
  "SmartStatus_members look x \<longleftrightarrow>
     given rep_bool False (look ''passed'') (Passed x)"

definition rep_SmartStatus :: "json \<Rightarrow> SmartStatus \<Rightarrow> bool" where
  "rep_SmartStatus = rep_struct
     [''passed'']
     SmartStatus_members"

definition SmartSupport_members :: "(string \<Rightarrow> json option) \<Rightarrow> SmartSupport \<Rightarrow> bool" where
  "SmartSupport_members look x \<longleftrightarrow>
     given rep_bool False (look ''available'') (Available x) \<and>
     given rep_bool False (look ''enabled'') (Enabled x)"

definition rep_SmartSupport :: "json \<Rightarrow> SmartSupport \<Rightarrow> bool" where
  "rep_SmartSupport = rep_struct
     [''available'', ''enabled'']
     SmartSupport_members"

definition DeviceTemperature_members :: "(string \<Rightarrow> json option) \<Rightarrow> DeviceTemperature \<Rightarrow> bool" where
  "DeviceTemperature_members look x \<longleftrightarrow>
     given rep_int 0 (look ''current'') (Current x)"

definition rep_DeviceTemperature :: "json \<Rightarrow> DeviceTemperature \<Rightarrow> bool" where
  "rep_DeviceTemperature = rep_struct
     [''current'']
     DeviceTemperature_members"

definition PowerOnTime_members :: "(string \<Rightarrow> json option) \<Rightarrow> PowerOnTime \<Rightarrow> bool" where
  "PowerOnTime_members look x \<longleftrightarrow>
     given rep_int 0 (look ''hours'') (Hours x)"

definition rep_PowerOnTime :: "json \<Rightarrow> PowerOnTime \<Rightarrow> bool" where
  "rep_PowerOnTime = rep_struct
     [''hours'']
     PowerOnTime_members"

definition AtaAttributeRaw_members :: "(string \<Rightarrow> json option) \<Rightarrow> AtaAttributeRaw \<Rightarrow> bool" where
  "AtaAttributeRaw_members look x \<longleftrightarrow>
     given rep_int 0 (look ''value'') (raw_Value x) \<and>
     given rep_string [] (look ''string'') (raw_String x)"

definition rep_AtaAttributeRaw :: "json \<Rightarrow> AtaAttributeRaw \<Rightarrow> bool" where
  "rep_AtaAttributeRaw = rep_struct
     [''value'', ''string'']
     AtaAttributeRaw_members"

definition AtaAttribute_members :: "(string \<Rightarrow> json option) \<Rightarrow> AtaAttribute \<Rightarrow> bool" where
  "AtaAttribute_members look x \<longleftrightarrow>
     given rep_int 0 (look ''id'') (a_ID x) \<and>
     given rep_string [] (look ''name'') (a_Name x) \<and>
     given rep_int 0 (look ''value'') (a_Value x) \<and>
     given rep_int 0 (look ''worst'') (a_Worst x) \<and>
     given rep_int 0 (look ''thresh'') (a_Threshold x) \<and>
     given rep_string [] (look ''when_failed'') (a_WhenFailed x) \<and>
     rep_opaque (look ''flags'') \<and>
     given rep_AtaAttributeRaw zero_AtaAttributeRaw (look ''raw'') (a_Raw x)"

definition rep_AtaAttribute :: "json \<Rightarrow> AtaAttribute \<Rightarrow> bool" where
  "rep_AtaAttribute = rep_struct
     [''id'', ''name'', ''value'', ''worst'', ''thresh'', ''when_failed'', ''flags'', ''raw'']
     AtaAttribute_members"

definition AtaSmartAttributes_members :: "(string \<Rightarrow> json option) \<Rightarrow> AtaSmartAttributes \<Rightarrow> bool" where
  "AtaSmartAttributes_members look x \<longleftrightarrow>
     given rep_int 0 (look ''revision'') (Revision x) \<and>
     given (rep_list rep_AtaAttribute) [] (look ''table'') (Table x)"

definition rep_AtaSmartAttributes :: "json \<Rightarrow> AtaSmartAttributes \<Rightarrow> bool" where
  "rep_AtaSmartAttributes = rep_struct
     [''revision'', ''table'']
     AtaSmartAttributes_members"

definition NvmeSmartHealth_members :: "(string \<Rightarrow> json option) \<Rightarrow> NvmeSmartHealth \<Rightarrow> bool" where
  "NvmeSmartHealth_members look x \<longleftrightarrow>
     given rep_int 0 (look ''critical_warning'') (n_CriticalWarning x) \<and>
     given rep_int 0 (look ''temperature'') (n_Temperature x) \<and>
     given rep_int 0 (look ''available_spare'') (n_AvailableSpare x) \<and>
     given rep_int 0 (look ''available_spare_threshold'') (n_AvailableSpareThreshold x) \<and>
     given rep_int 0 (look ''percentage_used'') (n_PercentageUsed x) \<and>
     given rep_int 0 (look ''data_units_read'') (n_DataUnitsRead x) \<and>
     given rep_int 0 (look ''data_units_written'') (n_DataUnitsWritten x) \<and>
     given rep_int 0 (look ''host_reads'') (n_HostReads x) \<and>
     given rep_int 0 (look ''host_writes'') (n_HostWrites x) \<and>
     given rep_int 0 (look ''media_errors'') (n_MediaErrors x) \<and>
     given rep_int 0 (look ''num_err_log_entries'') (n_NumErrLogEntries x)"

definition rep_NvmeSmartHealth :: "json \<Rightarrow> NvmeSmartHealth \<Rightarrow> bool" where
  "rep_NvmeSmartHealth = rep_struct
     [''critical_warning'', ''temperature'', ''available_spare'', ''available_spare_threshold'',
      ''percentage_used'', ''data_units_read'', ''data_units_written'', ''host_reads'',
      ''host_writes'', ''media_errors'', ''num_err_log_entries'']
     NvmeSmartHealth_members"

definition ScsiErrorCounters_members :: "(string \<Rightarrow> json option) \<Rightarrow> ScsiErrorCounters \<Rightarrow> bool" where
  "ScsiErrorCounters_members look x \<longleftrightarrow>
     given rep_int 0 (look ''total_errors_corrected'') (TotalErrorsCorrected x) \<and>
     given rep_int 0 (look ''total_uncorrected_errors'') (TotalUncorrectedErrors x)"

definition rep_ScsiErrorCounters :: "json \<Rightarrow> ScsiErrorCounters \<Rightarrow> bool" where
  "rep_ScsiErrorCounters = rep_struct
     [''total_errors_corrected'', ''total_uncorrected_errors'']
     ScsiErrorCounters_members"

definition ScsiErrorLog_members :: "(string \<Rightarrow> json option) \<Rightarrow> ScsiErrorLog \<Rightarrow> bool" where
  "ScsiErrorLog_members look x \<longleftrightarrow>
     given (rep_pointer rep_ScsiErrorCounters) None (look ''read'') (Read x) \<and>
     given (rep_pointer rep_ScsiErrorCounters) None (look ''write'') (Write x)"

definition rep_ScsiErrorLog :: "json \<Rightarrow> ScsiErrorLog \<Rightarrow> bool" where
  "rep_ScsiErrorLog = rep_struct
     [''read'', ''write'']
     ScsiErrorLog_members"

definition SmartctlOutput_members :: "(string \<Rightarrow> json option) \<Rightarrow> SmartctlOutput \<Rightarrow> bool" where
  "SmartctlOutput_members look x \<longleftrightarrow>
     given rep_SmartctlInfo zero_SmartctlInfo (look ''smartctl'') (so_Smartctl x) \<and>
     given rep_DeviceHeader zero_DeviceHeader (look ''device'') (so_Device x) \<and>
     given rep_string [] (look ''model_family'') (so_ModelFamily x) \<and>
     given rep_string [] (look ''model_name'') (so_ModelName x) \<and>
     given rep_string [] (look ''serial_number'') (so_SerialNumber x) \<and>
     given rep_string [] (look ''firmware_version'') (so_FirmwareVersion x) \<and>
     given rep_SmartStatus \<lparr>Passed = False\<rparr> (look ''smart_status'') (so_SmartStatus x) \<and>
     given (rep_pointer rep_SmartSupport) None (look ''smart_support'') (so_SmartSupport x) \<and>
     given (rep_pointer rep_DeviceTemperature) None (look ''temperature'') (so_Temperature x) \<and>
     given (rep_pointer rep_PowerOnTime) None (look ''power_on_time'') (so_PowerOnTime x) \<and>
     given (rep_pointer rep_int) None (look ''power_cycle_count'') (so_PowerCycleCount x) \<and>
     given rep_int 0 (look ''rotation_rate'') (so_RotationRate x) \<and>
     given (rep_pointer rep_AtaSmartAttributes) None (look ''ata_smart_attributes'') (so_AtaSmartAttributes x) \<and>
     given (rep_pointer rep_NvmeSmartHealth) None (look ''nvme_smart_health_information_log'') (so_NvmeSmart x) \<and>
     given (rep_pointer rep_ScsiErrorLog) None (look ''scsi_error_counter_log'') (so_ScsiErrorLog x)"

definition rep_SmartctlOutput :: "json \<Rightarrow> SmartctlOutput \<Rightarrow> bool" where
  "rep_SmartctlOutput = rep_struct
     [''smartctl'', ''device'', ''model_family'', ''model_name'', ''serial_number'',
      ''firmware_version'', ''smart_status'', ''smart_support'', ''temperature'',
      ''power_on_time'', ''power_cycle_count'', ''rotation_rate'', ''ata_smart_attributes'',
      ''nvme_smart_health_information_log'', ''scsi_error_counter_log'']
     SmartctlOutput_members"

subsection \<open>Decoding gives the output back\<close>

locale reader =
  fixes dec :: "'a decoder" and rep :: "json \<Rightarrow> 'a \<Rightarrow> bool" and zero :: 'a
  assumes reads: "rep j x \<Longrightarrow> dec j zero = Some x"
    and reads_null: "dec JNull zero = Some zero"
    and not_null: "\<not> rep JNull x"
begin

lemma reads_given: "given rep zero (Some j) x \<Longrightarrow> dec j zero = Some x"
  using reads reads_null by (auto simp: given_def split: if_splits)

lemma pointer: "reader (decode_pointer zero dec) (rep_pointer rep) None"
proof
  fix j p
  assume "rep_pointer rep j p"
  then obtain x where p: "p = Some x" and j: "rep j x" by (auto simp: rep_pointer_def split: option.splits)
  then have "j \<noteq> JNull" using not_null by blast
  then show "decode_pointer zero dec j None = Some p"
    using reads [OF j] by (cases j) (simp_all add: p)
qed (auto simp: rep_pointer_def not_null split: option.split)

lemma elements: "list_all2 rep js xs \<Longrightarrow> decode_elements zero dec js [] = Some xs"
  by (induction rule: list_all2_induct) (simp_all add: reads)

lemma list: "reader (decode_slice zero dec) (rep_list rep) []"
proof
  fix j xs
  show "rep_list rep j xs \<Longrightarrow> decode_slice zero dec j [] = Some xs"
    by (cases j) (simp_all add: elements)
qed simp_all

text \<open>A step of the decoding of a struct: the field has its zero value before and its own after.\<close>

lemma field_step:
  assumes "given rep zero (Some j) (get x)" and "get y = zero"
  shows "json_field get upd dec j y = Some (upd (\<lambda>_. get x) y)"
  using reads_given [OF assms(1)] assms(2) by (simp add: json_field_def)

end

text \<open>
  A struct is decoded member by member.  \<open>part x ks\<close> has the fields named in \<open>ks\<close> from \<open>x\<close>, the others are
  zero; decoding a member adds its name.
\<close>

lemma decode_members_part:
  assumes "\<And>k v. (k, v) \<in> set ms \<Longrightarrow> find_field fs k = None \<or> (\<exists>d. map_of fs k = Some d \<and> look k = Some v)"
    and "\<And>k v d ks. map_of fs k = Some d \<Longrightarrow> look k = Some v \<Longrightarrow> k \<notin> ks \<Longrightarrow>
      d v (part x ks) = Some (part x (insert k ks))"
    and "distinct (filter (\<lambda>k. map_of fs k \<noteq> None) (map fst ms))"
    and "set (filter (\<lambda>k. map_of fs k \<noteq> None) (map fst ms)) \<inter> ks = {}"
  shows "decode_members fs ms (part x ks) =
    Some (part x (ks \<union> set (filter (\<lambda>k. map_of fs k \<noteq> None) (map fst ms))))"
  using assms(1,3,4)
proof (induction ms arbitrary: ks)
  case (Cons m ms)
  obtain k v where m: "m = (k, v)" by fastforce
  show ?case
  proof (cases "map_of fs k")
    case None
    then have "find_field fs k = None" using Cons.prems(1) [of k v] m by auto
    then show ?thesis using Cons None m by simp
  next
    case (Some d)
    then have look: "look k = Some v" and f: "find_field fs k = Some d"
      using Cons.prems(1) [of k v] m by (auto simp: find_field_def)
    have "d v (part x ks) = Some (part x (insert k ks))"
      using assms(2) [OF Some look] Cons.prems(3) m Some by simp
    moreover have "decode_members fs ms (part x (insert k ks)) =
        Some (part x (insert k ks \<union> set (filter (\<lambda>k. map_of fs k \<noteq> None) (map fst ms))))"
      using Cons.prems m Some by (intro Cons.IH) auto
    ultimately show ?thesis using f Some m by simp
  qed
qed simp

lemma known_lookup:
  "distinct (filter P (map fst ms)) \<Longrightarrow> (k, v) \<in> set ms \<Longrightarrow> P k \<Longrightarrow> map_of ms k = Some v"
proof (induction ms)
  case (Cons m ms)
  obtain a b where m: "m = (a, b)" by fastforce
  show ?case
  proof (cases "(k, v) \<in> set ms")
    case True
    then have "k \<in> set (filter P (map fst ms))" using Cons.prems(3) by force
    then have "k \<noteq> a" using Cons.prems(1) m by (auto split: if_splits)
    moreover have "distinct (filter P (map fst ms))" using Cons.prems(1) by (auto split: if_splits)
    ultimately show ?thesis using Cons.IH True Cons.prems(3) m by simp
  next
    case False
    then show ?thesis using Cons.prems(2) m by simp
  qed
qed simp

lemma unknown_field:
  "list_all (\<lambda>name. \<not> equal_fold name k) (map fst fs) \<Longrightarrow> k \<notin> set (map fst fs) \<Longrightarrow> find_field fs k = None"
  by (auto simp: find_field_def list_all_iff find_None_iff map_of_eq_None_iff split: option.split)

lemma struct_reader:
  assumes names: "names = map fst fs" and start: "\<And>x. part x {} = zero"
    and step: "\<And>look x k v d ks. R look x \<Longrightarrow> map_of fs k = Some d \<Longrightarrow> look k = Some v \<Longrightarrow> k \<notin> ks \<Longrightarrow>
      d v (part x ks) = Some (part x (insert k ks))"
    and final: "\<And>look x. R look x \<Longrightarrow> part x {k \<in> set names. look k \<noteq> None} = x"
  shows "reader (decode_struct fs) (rep_struct names R) zero"
proof
  fix j x
  assume rep: "rep_struct names R j x"
  then obtain ms where j: "j = JObject ms" and named: "well_named names ms" and fields: "R (map_of ms) x"
    by (cases j) simp_all
  have known: "map_of fs k \<noteq> None \<longleftrightarrow> k \<in> set names" for k
    by (auto simp: names map_of_eq_None_iff)
  have distinct: "distinct (filter (\<lambda>k. map_of fs k \<noteq> None) (map fst ms))"
    using named by (simp only: known well_named_def)
  have looked: "find_field fs k = None \<or> (\<exists>d. map_of fs k = Some d \<and> map_of ms k = Some v)" if "(k, v) \<in> set ms" for k v
  proof (cases "map_of fs k")
    case None
    then have "k \<notin> set (map fst fs)" by (simp add: map_of_eq_None_iff)
    moreover from this have "list_all (\<lambda>name. \<not> equal_fold name k) (map fst fs)"
      using named that by (auto simp: well_named_def list_all_iff names)
    ultimately show ?thesis using unknown_field by blast
  next
    case (Some d)
    then show ?thesis using known_lookup [OF distinct that] by simp
  qed
  have "decode_members fs ms (part x {}) =
      Some (part x ({} \<union> set (filter (\<lambda>k. map_of fs k \<noteq> None) (map fst ms))))"
    by (rule decode_members_part [where look = "map_of ms"])
      (use looked step [OF fields] distinct in simp_all)
  then have "decode_members fs ms zero = Some (part x (set (filter (\<lambda>k. map_of fs k \<noteq> None) (map fst ms))))"
    by (simp add: start)
  moreover have "set (filter (\<lambda>k. map_of fs k \<noteq> None) (map fst ms)) = {k \<in> set names. map_of ms k \<noteq> None}"
    unfolding known by (auto simp: map_of_eq_None_iff)
  ultimately show "decode_struct fs j zero = Some x" using final [OF fields] by (simp add: j)
qed simp_all

text \<open>The value of a field of which a part is taken.\<close>

definition picked :: "bool \<Rightarrow> 'a \<Rightarrow> 'a \<Rightarrow> 'a" where
  "picked b x zero = (if b then x else zero)"

lemma picked_simps [simp]: "picked True x zero = x" "picked False x zero = zero"
  by (simp_all add: picked_def)

lemma given_picked: "given rep zero l x \<Longrightarrow> picked (\<exists>j. l = Some j) x zero = x"
  by (auto simp: given_def picked_def split: option.splits)

lemma int_literal_itoa: "int64_range i \<Longrightarrow> int_literal (itoa i) = Some i"
proof -
  assume i: "int64_range i"
  have digits: "list_all is_digit (nat_digits n)" for n
    by (simp add: list_all_iff nat_digits_all)
  have "hd (nat_digits n) \<noteq> CHR ''-''" for n
    using nat_digits_all [of "hd (nat_digits n)" n] by (auto simp: is_digit_def)
  then have "unsigned (nat_digits n) = nat_digits n" for n
    by (cases "nat_digits n") (auto simp: unsigned_def, metis list.sel(1))
  moreover have "unsigned (''-'' @ s) = s" for s by (simp add: unsigned_def)
  ultimately show ?thesis
    using i digits by (simp add: int_literal_def itoa_def Let_def digits_value_nat_digits)
qed

interpretation int_reader: reader decode_int rep_int 0
proof
  fix j and i :: int
  show "rep_int j i \<Longrightarrow> decode_int j 0 = Some i" by (cases j) (simp_all add: int_literal_itoa)
qed simp_all

interpretation string_reader: reader decode_string rep_string "[]"
proof
  fix j and s :: string
  show "rep_string j s \<Longrightarrow> decode_string j [] = Some s" by (cases j) simp_all
qed simp_all

interpretation bool_reader: reader decode_bool rep_bool False
proof
  fix j b
  show "rep_bool j b \<Longrightarrow> decode_bool j False = Some b" by (cases j) simp_all
qed simp_all

interpretation ints_reader: reader "decode_slice 0 decode_int" "rep_list rep_int" "[]"
  by (rule int_reader.list)

interpretation opt_int_reader: reader "decode_pointer 0 decode_int" "rep_pointer rep_int" None
  by (rule int_reader.pointer)

lemma decode_opaque: "rep_opaque (Some v) \<Longrightarrow> decode_any_map v x = Some x"
  by (cases v) simp_all

definition Message_part :: "Message \<Rightarrow> string set \<Rightarrow> Message" where
  "Message_part x ks = \<lparr>m_String = picked (''string'' \<in> ks) (m_String x) [],
     m_Severity = picked (''severity'' \<in> ks) (m_Severity x) []\<rparr>"

interpretation Message_reader: reader "decode_struct Message_fields" rep_Message "zero_Message"
  unfolding rep_Message_def
proof (rule struct_reader [where part = Message_part])
  fix look x k v d ks
  assume "Message_members look x" "map_of Message_fields k = Some d" "look k = Some v" "k \<notin> ks"
  then show "d v (Message_part x ks) = Some (Message_part x (insert k ks))"
    by (auto simp: Message_fields_def Message_members_def Message_part_def
        string_reader.field_step split: if_splits)
next
  fix look x
  assume "Message_members look x"
  then show "Message_part x {k \<in> set [''string'', ''severity'']. look k \<noteq> None} = x"
    by (auto simp: Message_part_def Message_members_def dest!: given_picked)
qed (simp_all add: Message_fields_def Message_part_def zero_Message_def)

interpretation messages_reader: reader "decode_slice zero_Message (decode_struct Message_fields)"
  "rep_list rep_Message" "[]"
  by (rule Message_reader.list)

definition SmartctlInfo_part :: "SmartctlInfo \<Rightarrow> string set \<Rightarrow> SmartctlInfo" where
  "SmartctlInfo_part x ks = \<lparr>Version = picked (''version'' \<in> ks) (Version x) [],
     ExitStatus = picked (''exit_status'' \<in> ks) (ExitStatus x) 0,
     Messages = picked (''messages'' \<in> ks) (Messages x) []\<rparr>"

interpretation SmartctlInfo_reader: reader "decode_struct SmartctlInfo_fields" rep_SmartctlInfo "zero_SmartctlInfo"
  unfolding rep_SmartctlInfo_def
proof (rule struct_reader [where part = SmartctlInfo_part])
  fix look x k v d ks
  assume "SmartctlInfo_members look x" "map_of SmartctlInfo_fields k = Some d" "look k = Some v" "k \<notin> ks"
  then show "d v (SmartctlInfo_part x ks) = Some (SmartctlInfo_part x (insert k ks))"
    by (auto simp: SmartctlInfo_fields_def SmartctlInfo_members_def SmartctlInfo_part_def
        int_reader.field_step ints_reader.field_step messages_reader.field_step split: if_splits)
next
  fix look x
  assume "SmartctlInfo_members look x"
  then show "SmartctlInfo_part x {k \<in> set [''version'', ''exit_status'', ''messages'']. look k \<noteq> None} = x"
    by (auto simp: SmartctlInfo_part_def SmartctlInfo_members_def dest!: given_picked)
qed (simp_all add: SmartctlInfo_fields_def SmartctlInfo_part_def zero_SmartctlInfo_def)

definition DeviceHeader_part :: "DeviceHeader \<Rightarrow> string set \<Rightarrow> DeviceHeader" where
  "DeviceHeader_part x ks = \<lparr>dh_Name = picked (''name'' \<in> ks) (dh_Name x) [],
     dh_InfoName = picked (''info_name'' \<in> ks) (dh_InfoName x) [],
     dh_Type = picked (''type'' \<in> ks) (dh_Type x) [],
     Protocol = picked (''protocol'' \<in> ks) (Protocol x) []\<rparr>"

interpretation DeviceHeader_reader: reader "decode_struct DeviceHeader_fields" rep_DeviceHeader "zero_DeviceHeader"
  unfolding rep_DeviceHeader_def
proof (rule struct_reader [where part = DeviceHeader_part])
  fix look x k v d ks
  assume "DeviceHeader_members look x" "map_of DeviceHeader_fields k = Some d" "look k = Some v" "k \<notin> ks"
  then show "d v (DeviceHeader_part x ks) = Some (DeviceHeader_part x (insert k ks))"
    by (auto simp: DeviceHeader_fields_def DeviceHeader_members_def DeviceHeader_part_def
        string_reader.field_step split: if_splits)
next
  fix look x
  assume "DeviceHeader_members look x"
  then show "DeviceHeader_part x {k \<in> set [''name'', ''info_name'', ''type'', ''protocol'']. look k \<noteq> None} = x"
    by (auto simp: DeviceHeader_part_def DeviceHeader_members_def dest!: given_picked)
qed (simp_all add: DeviceHeader_fields_def DeviceHeader_part_def zero_DeviceHeader_def)

definition SmartStatus_part :: "SmartStatus \<Rightarrow> string set \<Rightarrow> SmartStatus" where
  "SmartStatus_part x ks = \<lparr>Passed = picked (''passed'' \<in> ks) (Passed x) False\<rparr>"

interpretation SmartStatus_reader: reader "decode_struct SmartStatus_fields" rep_SmartStatus "\<lparr>Passed = False\<rparr>"
  unfolding rep_SmartStatus_def
proof (rule struct_reader [where part = SmartStatus_part])
  fix look x k v d ks
  assume "SmartStatus_members look x" "map_of SmartStatus_fields k = Some d" "look k = Some v" "k \<notin> ks"
  then show "d v (SmartStatus_part x ks) = Some (SmartStatus_part x (insert k ks))"
    by (auto simp: SmartStatus_fields_def SmartStatus_members_def SmartStatus_part_def
        bool_reader.field_step split: if_splits)
next
  fix look x
  assume "SmartStatus_members look x"
  then show "SmartStatus_part x {k \<in> set [''passed'']. look k \<noteq> None} = x"
    by (auto simp: SmartStatus_part_def SmartStatus_members_def dest!: given_picked)
qed (simp_all add: SmartStatus_fields_def SmartStatus_part_def )

definition SmartSupport_part :: "SmartSupport \<Rightarrow> string set \<Rightarrow> SmartSupport" where
  "SmartSupport_part x ks = \<lparr>Available = picked (''available'' \<in> ks) (Available x) False,
     Enabled = picked (''enabled'' \<in> ks) (Enabled x) False\<rparr>"

interpretation SmartSupport_reader: reader "decode_struct SmartSupport_fields" rep_SmartSupport "zero_SmartSupport"
  unfolding rep_SmartSupport_def
proof (rule struct_reader [where part = SmartSupport_part])
  fix look x k v d ks
  assume "SmartSupport_members look x" "map_of SmartSupport_fields k = Some d" "look k = Some v" "k \<notin> ks"
  then show "d v (SmartSupport_part x ks) = Some (SmartSupport_part x (insert k ks))"
    by (auto simp: SmartSupport_fields_def SmartSupport_members_def SmartSupport_part_def
        bool_reader.field_step split: if_splits)
next
  fix look x
  assume "SmartSupport_members look x"
  then show "SmartSupport_part x {k \<in> set [''available'', ''enabled'']. look k \<noteq> None} = x"
    by (auto simp: SmartSupport_part_def SmartSupport_members_def dest!: given_picked)
qed (simp_all add: SmartSupport_fields_def SmartSupport_part_def zero_SmartSupport_def)

interpretation opt_SmartSupport_reader: reader
  "decode_pointer zero_SmartSupport (decode_struct SmartSupport_fields)" "rep_pointer rep_SmartSupport" None
  by (rule SmartSupport_reader.pointer)

definition DeviceTemperature_part :: "DeviceTemperature \<Rightarrow> string set \<Rightarrow> DeviceTemperature" where
  "DeviceTemperature_part x ks = \<lparr>Current = picked (''current'' \<in> ks) (Current x) 0\<rparr>"

interpretation DeviceTemperature_reader: reader "decode_struct DeviceTemperature_fields" rep_DeviceTemperature "\<lparr>Current = 0\<rparr>"
  unfolding rep_DeviceTemperature_def
proof (rule struct_reader [where part = DeviceTemperature_part])
  fix look x k v d ks
  assume "DeviceTemperature_members look x" "map_of DeviceTemperature_fields k = Some d" "look k = Some v" "k \<notin> ks"
  then show "d v (DeviceTemperature_part x ks) = Some (DeviceTemperature_part x (insert k ks))"
    by (auto simp: DeviceTemperature_fields_def DeviceTemperature_members_def DeviceTemperature_part_def
        int_reader.field_step split: if_splits)
next
  fix look x
  assume "DeviceTemperature_members look x"
  then show "DeviceTemperature_part x {k \<in> set [''current'']. look k \<noteq> None} = x"
    by (auto simp: DeviceTemperature_part_def DeviceTemperature_members_def dest!: given_picked)
qed (simp_all add: DeviceTemperature_fields_def DeviceTemperature_part_def )

interpretation opt_DeviceTemperature_reader: reader
  "decode_pointer (\<lparr>Current = 0\<rparr>) (decode_struct DeviceTemperature_fields)" "rep_pointer rep_DeviceTemperature" None
  by (rule DeviceTemperature_reader.pointer)

definition PowerOnTime_part :: "PowerOnTime \<Rightarrow> string set \<Rightarrow> PowerOnTime" where
  "PowerOnTime_part x ks = \<lparr>Hours = picked (''hours'' \<in> ks) (Hours x) 0\<rparr>"

interpretation PowerOnTime_reader: reader "decode_struct PowerOnTime_fields" rep_PowerOnTime "\<lparr>Hours = 0\<rparr>"
  unfolding rep_PowerOnTime_def
proof (rule struct_reader [where part = PowerOnTime_part])
  fix look x k v d ks
  assume "PowerOnTime_members look x" "map_of PowerOnTime_fields k = Some d" "look k = Some v" "k \<notin> ks"
  then show "d v (PowerOnTime_part x ks) = Some (PowerOnTime_part x (insert k ks))"
    by (auto simp: PowerOnTime_fields_def PowerOnTime_members_def PowerOnTime_part_def
        int_reader.field_step split: if_splits)
next
  fix look x
  assume "PowerOnTime_members look x"
  then show "PowerOnTime_part x {k \<in> set [''hours'']. look k \<noteq> None} = x"
    by (auto simp: PowerOnTime_part_def PowerOnTime_members_def dest!: given_picked)
qed (simp_all add: PowerOnTime_fields_def PowerOnTime_part_def )

interpretation opt_PowerOnTime_reader: reader
  "decode_pointer (\<lparr>Hours = 0\<rparr>) (decode_struct PowerOnTime_fields)" "rep_pointer rep_PowerOnTime" None
  by (rule PowerOnTime_reader.pointer)

definition AtaAttributeRaw_part :: "AtaAttributeRaw \<Rightarrow> string set \<Rightarrow> AtaAttributeRaw" where
  "AtaAttributeRaw_part x ks = \<lparr>raw_Value = picked (''value'' \<in> ks) (raw_Value x) 0,
     raw_String = picked (''string'' \<in> ks) (raw_String x) []\<rparr>"

interpretation AtaAttributeRaw_reader: reader "decode_struct AtaAttributeRaw_fields" rep_AtaAttributeRaw "zero_AtaAttributeRaw"
  unfolding rep_AtaAttributeRaw_def
proof (rule struct_reader [where part = AtaAttributeRaw_part])
  fix look x k v d ks
  assume "AtaAttributeRaw_members look x" "map_of AtaAttributeRaw_fields k = Some d" "look k = Some v" "k \<notin> ks"
  then show "d v (AtaAttributeRaw_part x ks) = Some (AtaAttributeRaw_part x (insert k ks))"
    by (auto simp: AtaAttributeRaw_fields_def AtaAttributeRaw_members_def AtaAttributeRaw_part_def
        int_reader.field_step string_reader.field_step split: if_splits)
next
  fix look x
  assume "AtaAttributeRaw_members look x"
  then show "AtaAttributeRaw_part x {k \<in> set [''value'', ''string'']. look k \<noteq> None} = x"
    by (auto simp: AtaAttributeRaw_part_def AtaAttributeRaw_members_def dest!: given_picked)
qed (simp_all add: AtaAttributeRaw_fields_def AtaAttributeRaw_part_def zero_AtaAttributeRaw_def)

definition AtaAttribute_part :: "AtaAttribute \<Rightarrow> string set \<Rightarrow> AtaAttribute" where
  "AtaAttribute_part x ks = \<lparr>a_ID = picked (''id'' \<in> ks) (a_ID x) 0,
     a_Name = picked (''name'' \<in> ks) (a_Name x) [],
     a_Value = picked (''value'' \<in> ks) (a_Value x) 0,
     a_Worst = picked (''worst'' \<in> ks) (a_Worst x) 0,
     a_Threshold = picked (''thresh'' \<in> ks) (a_Threshold x) 0,
     a_WhenFailed = picked (''when_failed'' \<in> ks) (a_WhenFailed x) [],
     a_Raw = picked (''raw'' \<in> ks) (a_Raw x) zero_AtaAttributeRaw\<rparr>"

interpretation AtaAttribute_reader: reader "decode_struct AtaAttribute_fields" rep_AtaAttribute "zero_AtaAttribute"
  unfolding rep_AtaAttribute_def
proof (rule struct_reader [where part = AtaAttribute_part])
  fix look x k v d ks
  assume "AtaAttribute_members look x" "map_of AtaAttribute_fields k = Some d" "look k = Some v" "k \<notin> ks"
  then show "d v (AtaAttribute_part x ks) = Some (AtaAttribute_part x (insert k ks))"
    by (auto simp: AtaAttribute_fields_def AtaAttribute_members_def AtaAttribute_part_def
        AtaAttributeRaw_reader.field_step int_reader.field_step string_reader.field_step decode_opaque split: if_splits)
next
  fix look x
  assume "AtaAttribute_members look x"
  then show "AtaAttribute_part x {k \<in> set [''id'', ''name'', ''value'', ''worst'', ''thresh'', ''when_failed'', ''flags'', ''raw'']. look k \<noteq> None} = x"
    by (auto simp: AtaAttribute_part_def AtaAttribute_members_def dest!: given_picked)
qed (simp_all add: AtaAttribute_fields_def AtaAttribute_part_def zero_AtaAttribute_def)

interpretation table_reader: reader "decode_slice zero_AtaAttribute (decode_struct AtaAttribute_fields)"
  "rep_list rep_AtaAttribute" "[]"
  by (rule AtaAttribute_reader.list)

definition AtaSmartAttributes_part :: "AtaSmartAttributes \<Rightarrow> string set \<Rightarrow> AtaSmartAttributes" where
  "AtaSmartAttributes_part x ks = \<lparr>Revision = picked (''revision'' \<in> ks) (Revision x) 0,
     Table = picked (''table'' \<in> ks) (Table x) []\<rparr>"

interpretation AtaSmartAttributes_reader: reader "decode_struct AtaSmartAttributes_fields" rep_AtaSmartAttributes "zero_AtaSmartAttributes"
  unfolding rep_AtaSmartAttributes_def
proof (rule struct_reader [where part = AtaSmartAttributes_part])
  fix look x k v d ks
  assume "AtaSmartAttributes_members look x" "map_of AtaSmartAttributes_fields k = Some d" "look k = Some v" "k \<notin> ks"
  then show "d v (AtaSmartAttributes_part x ks) = Some (AtaSmartAttributes_part x (insert k ks))"
    by (auto simp: AtaSmartAttributes_fields_def AtaSmartAttributes_members_def AtaSmartAttributes_part_def
        int_reader.field_step table_reader.field_step split: if_splits)
next
  fix look x
  assume "AtaSmartAttributes_members look x"
  then show "AtaSmartAttributes_part x {k \<in> set [''revision'', ''table'']. look k \<noteq> None} = x"
    by (auto simp: AtaSmartAttributes_part_def AtaSmartAttributes_members_def dest!: given_picked)
qed (simp_all add: AtaSmartAttributes_fields_def AtaSmartAttributes_part_def zero_AtaSmartAttributes_def)

interpretation opt_AtaSmartAttributes_reader: reader
  "decode_pointer zero_AtaSmartAttributes (decode_struct AtaSmartAttributes_fields)" "rep_pointer rep_AtaSmartAttributes" None
  by (rule AtaSmartAttributes_reader.pointer)

definition NvmeSmartHealth_part :: "NvmeSmartHealth \<Rightarrow> string set \<Rightarrow> NvmeSmartHealth" where
  "NvmeSmartHealth_part x ks = \<lparr>n_CriticalWarning = picked (''critical_warning'' \<in> ks) (n_CriticalWarning x) 0,
     n_Temperature = picked (''temperature'' \<in> ks) (n_Temperature x) 0,
     n_AvailableSpare = picked (''available_spare'' \<in> ks) (n_AvailableSpare x) 0,
     n_AvailableSpareThreshold = picked (''available_spare_threshold'' \<in> ks) (n_AvailableSpareThreshold x) 0,
     n_PercentageUsed = picked (''percentage_used'' \<in> ks) (n_PercentageUsed x) 0,
     n_DataUnitsRead = picked (''data_units_read'' \<in> ks) (n_DataUnitsRead x) 0,
     n_DataUnitsWritten = picked (''data_units_written'' \<in> ks) (n_DataUnitsWritten x) 0,
     n_HostReads = picked (''host_reads'' \<in> ks) (n_HostReads x) 0,
     n_HostWrites = picked (''host_writes'' \<in> ks) (n_HostWrites x) 0,
     n_MediaErrors = picked (''media_errors'' \<in> ks) (n_MediaErrors x) 0,
     n_NumErrLogEntries = picked (''num_err_log_entries'' \<in> ks) (n_NumErrLogEntries x) 0\<rparr>"

interpretation NvmeSmartHealth_reader: reader "decode_struct NvmeSmartHealth_fields" rep_NvmeSmartHealth "zero_NvmeSmartHealth"
  unfolding rep_NvmeSmartHealth_def
proof (rule struct_reader [where part = NvmeSmartHealth_part])
  fix look x k v d ks
  assume "NvmeSmartHealth_members look x" "map_of NvmeSmartHealth_fields k = Some d" "look k = Some v" "k \<notin> ks"
  then show "d v (NvmeSmartHealth_part x ks) = Some (NvmeSmartHealth_part x (insert k ks))"
    by (auto simp: NvmeSmartHealth_fields_def NvmeSmartHealth_members_def NvmeSmartHealth_part_def
        int_reader.field_step split: if_splits)
next
  fix look x
  assume "NvmeSmartHealth_members look x"
  then show "NvmeSmartHealth_part x {k \<in> set [''critical_warning'', ''temperature'', ''available_spare'', ''available_spare_threshold'',
      ''percentage_used'', ''data_units_read'', ''data_units_written'', ''host_reads'',
      ''host_writes'', ''media_errors'', ''num_err_log_entries'']. look k \<noteq> None} = x"
    by (auto simp: NvmeSmartHealth_part_def NvmeSmartHealth_members_def dest!: given_picked)
qed (simp_all add: NvmeSmartHealth_fields_def NvmeSmartHealth_part_def zero_NvmeSmartHealth_def)

interpretation opt_NvmeSmartHealth_reader: reader
  "decode_pointer zero_NvmeSmartHealth (decode_struct NvmeSmartHealth_fields)" "rep_pointer rep_NvmeSmartHealth" None
  by (rule NvmeSmartHealth_reader.pointer)

definition ScsiErrorCounters_part :: "ScsiErrorCounters \<Rightarrow> string set \<Rightarrow> ScsiErrorCounters" where
  "ScsiErrorCounters_part x ks = \<lparr>TotalErrorsCorrected = picked (''total_errors_corrected'' \<in> ks) (TotalErrorsCorrected x) 0,
     TotalUncorrectedErrors = picked (''total_uncorrected_errors'' \<in> ks) (TotalUncorrectedErrors x) 0\<rparr>"

interpretation ScsiErrorCounters_reader: reader "decode_struct ScsiErrorCounters_fields" rep_ScsiErrorCounters "zero_ScsiErrorCounters"
  unfolding rep_ScsiErrorCounters_def
proof (rule struct_reader [where part = ScsiErrorCounters_part])
  fix look x k v d ks
  assume "ScsiErrorCounters_members look x" "map_of ScsiErrorCounters_fields k = Some d" "look k = Some v" "k \<notin> ks"
  then show "d v (ScsiErrorCounters_part x ks) = Some (ScsiErrorCounters_part x (insert k ks))"
    by (auto simp: ScsiErrorCounters_fields_def ScsiErrorCounters_members_def ScsiErrorCounters_part_def
        int_reader.field_step split: if_splits)
next
  fix look x
  assume "ScsiErrorCounters_members look x"
  then show "ScsiErrorCounters_part x {k \<in> set [''total_errors_corrected'', ''total_uncorrected_errors'']. look k \<noteq> None} = x"
    by (auto simp: ScsiErrorCounters_part_def ScsiErrorCounters_members_def dest!: given_picked)
qed (simp_all add: ScsiErrorCounters_fields_def ScsiErrorCounters_part_def zero_ScsiErrorCounters_def)

interpretation opt_ScsiErrorCounters_reader: reader
  "decode_pointer zero_ScsiErrorCounters (decode_struct ScsiErrorCounters_fields)" "rep_pointer rep_ScsiErrorCounters" None
  by (rule ScsiErrorCounters_reader.pointer)

definition ScsiErrorLog_part :: "ScsiErrorLog \<Rightarrow> string set \<Rightarrow> ScsiErrorLog" where
  "ScsiErrorLog_part x ks = \<lparr>Read = picked (''read'' \<in> ks) (Read x) None,
     Write = picked (''write'' \<in> ks) (Write x) None\<rparr>"

interpretation ScsiErrorLog_reader: reader "decode_struct ScsiErrorLog_fields" rep_ScsiErrorLog "zero_ScsiErrorLog"
  unfolding rep_ScsiErrorLog_def
proof (rule struct_reader [where part = ScsiErrorLog_part])
  fix look x k v d ks
  assume "ScsiErrorLog_members look x" "map_of ScsiErrorLog_fields k = Some d" "look k = Some v" "k \<notin> ks"
  then show "d v (ScsiErrorLog_part x ks) = Some (ScsiErrorLog_part x (insert k ks))"
    by (auto simp: ScsiErrorLog_fields_def ScsiErrorLog_members_def ScsiErrorLog_part_def
        opt_ScsiErrorCounters_reader.field_step split: if_splits)
next
  fix look x
  assume "ScsiErrorLog_members look x"
  then show "ScsiErrorLog_part x {k \<in> set [''read'', ''write'']. look k \<noteq> None} = x"
    by (auto simp: ScsiErrorLog_part_def ScsiErrorLog_members_def dest!: given_picked)
qed (simp_all add: ScsiErrorLog_fields_def ScsiErrorLog_part_def zero_ScsiErrorLog_def)

interpretation opt_ScsiErrorLog_reader: reader
  "decode_pointer zero_ScsiErrorLog (decode_struct ScsiErrorLog_fields)" "rep_pointer rep_ScsiErrorLog" None
  by (rule ScsiErrorLog_reader.pointer)

definition SmartctlOutput_part :: "SmartctlOutput \<Rightarrow> string set \<Rightarrow> SmartctlOutput" where
  "SmartctlOutput_part x ks = \<lparr>so_Smartctl = picked (''smartctl'' \<in> ks) (so_Smartctl x) zero_SmartctlInfo,
     so_Device = picked (''device'' \<in> ks) (so_Device x) zero_DeviceHeader,
     so_ModelFamily = picked (''model_family'' \<in> ks) (so_ModelFamily x) [],
     so_ModelName = picked (''model_name'' \<in> ks) (so_ModelName x) [],
     so_SerialNumber = picked (''serial_number'' \<in> ks) (so_SerialNumber x) [],
     so_FirmwareVersion = picked (''firmware_version'' \<in> ks) (so_FirmwareVersion x) [],
     so_SmartStatus = picked (''smart_status'' \<in> ks) (so_SmartStatus x) \<lparr>Passed = False\<rparr>,
     so_SmartSupport = picked (''smart_support'' \<in> ks) (so_SmartSupport x) None,
     so_Temperature = picked (''temperature'' \<in> ks) (so_Temperature x) None,
     so_PowerOnTime = picked (''power_on_time'' \<in> ks) (so_PowerOnTime x) None,
     so_PowerCycleCount = picked (''power_cycle_count'' \<in> ks) (so_PowerCycleCount x) None,
     so_RotationRate = picked (''rotation_rate'' \<in> ks) (so_RotationRate x) 0,
     so_AtaSmartAttributes = picked (''ata_smart_attributes'' \<in> ks) (so_AtaSmartAttributes x) None,
     so_NvmeSmart = picked (''nvme_smart_health_information_log'' \<in> ks) (so_NvmeSmart x) None,
     so_ScsiErrorLog = picked (''scsi_error_counter_log'' \<in> ks) (so_ScsiErrorLog x) None\<rparr>"

interpretation SmartctlOutput_reader: reader "decode_struct SmartctlOutput_fields" rep_SmartctlOutput "zero_SmartctlOutput"
  unfolding rep_SmartctlOutput_def
proof (rule struct_reader [where part = SmartctlOutput_part])
  fix look x k v d ks
  assume "SmartctlOutput_members look x" "map_of SmartctlOutput_fields k = Some d" "look k = Some v" "k \<notin> ks"
  then show "d v (SmartctlOutput_part x ks) = Some (SmartctlOutput_part x (insert k ks))"
    by (auto simp: SmartctlOutput_fields_def SmartctlOutput_members_def SmartctlOutput_part_def
        DeviceHeader_reader.field_step SmartStatus_reader.field_step SmartctlInfo_reader.field_step int_reader.field_step opt_AtaSmartAttributes_reader.field_step opt_DeviceTemperature_reader.field_step opt_NvmeSmartHealth_reader.field_step opt_PowerOnTime_reader.field_step opt_ScsiErrorLog_reader.field_step opt_SmartSupport_reader.field_step opt_int_reader.field_step string_reader.field_step split: if_splits)
next
  fix look x
  assume "SmartctlOutput_members look x"
  then show "SmartctlOutput_part x {k \<in> set [''smartctl'', ''device'', ''model_family'', ''model_name'', ''serial_number'',
      ''firmware_version'', ''smart_status'', ''smart_support'', ''temperature'',
      ''power_on_time'', ''power_cycle_count'', ''rotation_rate'', ''ata_smart_attributes'',
      ''nvme_smart_health_information_log'', ''scsi_error_counter_log'']. look k \<noteq> None} = x"
    by (auto simp: SmartctlOutput_part_def SmartctlOutput_members_def dest!: given_picked)
qed (simp_all add: SmartctlOutput_fields_def SmartctlOutput_part_def zero_SmartctlOutput_def)

subsection \<open>Properties\<close>

text \<open>
  C17: every JSON text that stands for an output is decoded to exactly this output: the members in any
  order, at every level any additional members whose names are not those of a field (in any case),
  missing or null members for fields that have their zero value and pointers that are nil, any
  object as the flags of an attribute, numbers of 64 bits in decimal notation; and any white space
  between the tokens, up to the nesting depth of \<^verbatim>\<open>encoding/json\<close>.
\<close>

theorem decode_output_roundtrip:
  assumes "rep_SmartctlOutput j out"
  shows "(\<forall>data. parse_json data = Some j \<longrightarrow> decode_output data = Some out) \<and>
    (\<forall>indent tws. good_json j \<longrightarrow> int (json_depth j) \<le> maxNestingDepth \<longrightarrow> map fst tws = tokens j \<longrightarrow>
      list_all is_space indent \<longrightarrow> list_all (list_all is_space) (map snd tws) \<longrightarrow>
      decode_output (indent @ layout tws) = Some out)"
  using SmartctlOutput_reader.reads [OF assms] parse_layout [of j]
  by (auto simp: decode_output_def)

text \<open>An output in the style of smartctl: unknown members, flags, and an order of its own.\<close>

definition sample_output :: SmartctlOutput where
  "sample_output = zero_SmartctlOutput\<lparr>so_ModelName := ''A'', so_SmartStatus := \<lparr>Passed = True\<rparr>,
     so_Temperature := Some \<lparr>Current = 35\<rparr>,
     so_AtaSmartAttributes := Some \<lparr>Revision = 1, Table = [zero_AtaAttribute\<lparr>a_ID := 5, a_Threshold := 36\<rparr>]\<rparr>\<rparr>"

definition sample_json :: json where
  "sample_json = JObject [(''json_format_version'', JArray [JNumber ''1'', JNumber ''0'']),
     (''temperature'', JObject [(''current'', JNumber ''35''), (''lifetime_max'', JNumber ''51'')]),
     (''model_name'', JString ''A''),
     (''ata_smart_attributes'', JObject [(''table'', JArray [JObject
        [(''id'', JNumber ''5''), (''thresh'', JNumber ''36''),
         (''flags'', JObject [(''value'', JNumber ''51''), (''string'', JString ''PO--CK ''),
            (''prefailure'', JBool True)]),
         (''raw'', JObject [(''value'', JNumber ''0'')])]]), (''revision'', JNumber ''1'')]),
     (''power_cycle_count'', JNull),
     (''smart_status'', JObject [(''passed'', JBool True), (''nvme'', JObject [(''value'', JNumber ''0'')])])]"

theorem decode_output_roundtrip_witness:
  "decode_output (layout (map (\<lambda>t. (t, [CHR 0x0A])) (tokens sample_json))) = Some sample_output"
proof -
  have "rep_SmartctlOutput sample_json sample_output" by code_simp
  moreover have "good_json sample_json" by code_simp
  moreover have "int (json_depth sample_json) \<le> maxNestingDepth" by code_simp
  ultimately show ?thesis
    using decode_output_roundtrip [THEN conjunct2, THEN spec, THEN spec, THEN mp, THEN mp, THEN mp, THEN mp, THEN mp,
        of sample_json sample_output "map (\<lambda>t. (t, [CHR 0x0A])) (tokens sample_json)" "[]"]
    by (simp add: comp_def list_all_iff is_space_def)
qed

end
