(* ===== verification/Runner.thy ===== *)
theory Runner
  imports Cmd_Args Smartctl_Json
begin

text \<open>
  Running smartctl (\<^verbatim>\<open>pkg/smartmontools/runner.go\<close>).  The operating system is a parameter \<open>RunOs\<close>:
  what a run of a binary returns, the wording of the errors of \<^verbatim>\<open>json.Unmarshal\<close>, and the error of
  \<^verbatim>\<open>os.Stat\<close>.  The errors of \<^verbatim>\<open>Collect\<close> are a datatype with one constructor per
  \<^verbatim>\<open>return nil, ...\<close> of the source; the sentinel errors that callers test with \<^verbatim>\<open>errors.Is\<close>
  are constructors that carry the rest of the message, and \<open>error_text\<close> is \<^verbatim>\<open>Error()\<close>.
\<close>

subsection \<open>Durations\<close>

text \<open>
  \<^verbatim>\<open>time.Duration.String\<close> of a number of nanoseconds.  \<open>frac_digits n v\<close> are the decimals of
  \<open>v\<close> in units of \<open>10^n\<close>, without trailing zeros.
\<close>

definition pad_digits :: "nat \<Rightarrow> nat \<Rightarrow> string" where
  "pad_digits n v = (let ds = nat_digits v in replicate (n - length ds) (CHR ''0'') @ ds)"

definition frac_digits :: "nat \<Rightarrow> nat \<Rightarrow> string" where
  "frac_digits n v =
     (if v = 0 then []
      else ''.'' @ rev (dropWhile (\<lambda>c. c = CHR ''0'') (rev (pad_digits n v))))"

definition duration_string :: "int \<Rightarrow> string" where
  "duration_string d =
     (let u = nat \<bar>d\<bar>; sign = (if d < 0 then ''-'' else []);
          unit = (\<lambda>n suffix. nat_digits (u div 10 ^ n) @ frac_digits n (u mod 10 ^ n) @ suffix)
      in if u = 0 then ''0s''
         else sign @
           (if u < 10 ^ 3 then nat_digits u @ ''ns''
            else if u < 10 ^ 6 then unit 3 [CHR 0xC2, CHR 0xB5, CHR ''s'']
            else if u < 10 ^ 9 then unit 6 ''ms''
            else
              (let total = u div 10 ^ 9; minutes = total div 60; hours = minutes div 60;
                   seconds = nat_digits (total mod 60) @ frac_digits 9 (u mod 10 ^ 9) @ ''s''
               in if minutes = 0 then seconds
                  else if hours = 0 then nat_digits minutes @ ''m'' @ seconds
                  else nat_digits hours @ ''h'' @ nat_digits (minutes mod 60) @ ''m'' @ seconds)))"

definition Second :: int where
  "Second = 1000000000"

definition Minute :: int where
  "Minute = 60 * Second"

subsection \<open>The operating system\<close>

text \<open>
  How \<^verbatim>\<open>cmd.Run\<close> ends: success, an \<^verbatim>\<open>ExitError\<close> with its exit code (-1 for a process that a
  signal terminated), or another error, for instance a missing binary.
\<close>

datatype run_error = ExitError int | OtherError string

record RunOutcome =
  ro_Err :: "run_error option"
  ro_Stdout :: string
  ro_Stderr :: string
  ro_ExecCtxDone :: bool
  ro_CtxDone :: bool

record RunOs =
  os_Run :: "string \<Rightarrow> string list \<Rightarrow> int \<Rightarrow> RunOutcome"
  os_JsonError :: "string \<Rightarrow> string"
  os_Stat :: "string \<Rightarrow> string option"

subsection \<open>The code\<close>

record ExecRunner =
  BinaryPath :: string
  Timeout :: int

datatype collect_error =
    InvalidExtraArgs split_error
  | ExecFailed string string string
  | TimedOut int string
  | DeviceInStandby
  | DeviceNotFound string
  | SmartUnsupported string
  | ParseFailed string int string

fun split_error_text :: "split_error \<Rightarrow> string" where
  "split_error_text TrailingEscape = ''trailing escape''"
| "split_error_text (UnterminatedQuote q) = ''unterminated '' @ q @ '' quote''"

fun error_text :: "collect_error \<Rightarrow> string" where
  "error_text (InvalidExtraArgs e) = ''invalid smartctl extraCmdArgs: '' @ split_error_text e"
| "error_text (ExecFailed binary e stderr) =
     ''failed to execute '' @ binary @ '': '' @ e @ '' (stderr: '' @ stderr @ '')''"
| "error_text (TimedOut timeout path) =
     ''smartctl timed out after '' @ duration_string timeout @ '' on '' @ path"
| "error_text DeviceInStandby = ''device is in sleep or standby mode''"
| "error_text (DeviceNotFound rest) = ''device could not be opened'' @ rest"
| "error_text (SmartUnsupported rest) = ''SMART is unavailable or disabled'' @ rest"
| "error_text (ParseFailed path code e) =
     ''failed to parse smartctl output for '' @ path @ '' (exit '' @ itoa code @ ''): '' @ e"

definition Unmarshal :: "RunOs \<Rightarrow> string \<Rightarrow> string + SmartctlOutput" where
  "Unmarshal os data = (case decode_output data of None \<Rightarrow> Inl (os_JsonError os data)
     | Some out \<Rightarrow> Inr out)"

lemma Unmarshal_Inr: "Unmarshal os data = Inr out \<longleftrightarrow> decode_output data = Some out"
  by (simp add: Unmarshal_def split: option.split)

lemma Unmarshal_empty: "Unmarshal os [] = Inl (os_JsonError os [])"
  by (simp add: Unmarshal_def decode_output_def parse_json_def lex.simps(1))

definition diagnostics :: "string + SmartctlOutput \<Rightarrow> string \<Rightarrow> string" where
  "diagnostics parsed stderr =
     (let fallback = (if trim_space stderr \<noteq> [] then trim_space stderr
                      else ''no diagnostic output'')
      in case parsed of
           Inr out \<Rightarrow> (if Text (so_Smartctl out) \<noteq> [] then Text (so_Smartctl out) else fallback)
         | Inl _ \<Rightarrow> fallback)"

definition unsupported_text :: "string \<Rightarrow> bool" where
  "unsupported_text diagLower \<longleftrightarrow>
     sublist ''unable to detect device type'' diagLower \<or>
     sublist ''mandatory smart command failed'' diagLower \<or>
     sublist ''inappropriate ioctl for device'' diagLower"

definition set_exit_status :: "int \<Rightarrow> SmartctlOutput \<Rightarrow> SmartctlOutput" where
  "set_exit_status code out = out\<lparr>so_Smartctl := (so_Smartctl out)\<lparr>ExitStatus := code\<rparr>\<rparr>"

definition support_disabled :: "SmartctlOutput \<Rightarrow> bool" where
  "support_disabled out =
     (case so_SmartSupport out of None \<Rightarrow> False | Some s \<Rightarrow> \<not> Available s \<or> \<not> Enabled s)"

text \<open>What \<^verbatim>\<open>Collect\<close> makes of the exit code and the outputs of a run that was not cut off.\<close>

definition classify :: "RunOs \<Rightarrow> string \<Rightarrow> int \<Rightarrow> RunOutcome \<Rightarrow> collect_error + SmartctlOutput" where
  "classify os devicePath exitCode run =
     (let parsed = map_sum id (set_exit_status exitCode) (Unmarshal os (ro_Stdout run));
          diagText = diagnostics parsed (ro_Stderr run);
          diagLower = to_lower diagText;
          statErr = (if exitCode \<noteq> 0 then os_Stat os devicePath else None)
      in case statErr of
           Some e \<Rightarrow> Inl (DeviceNotFound ('': '' @ diagText @ '' ('' @ e @ '')''))
         | None \<Rightarrow>
           if unsupported_text diagLower then Inl (SmartUnsupported ('': '' @ diagText))
           else if exitCode AND exitBitDeviceOpen \<noteq> 0 then
             (if (case parsed of Inr out \<Rightarrow> IndicatesLowPower (so_Smartctl out) | Inl _ \<Rightarrow> False)
              then Inl DeviceInStandby else Inl (DeviceNotFound ('': '' @ diagText)))
           else if exitCode AND exitBitCommandLine \<noteq> 0 then Inl (DeviceNotFound ('': '' @ diagText))
           else (case parsed of
               Inl e \<Rightarrow> Inl (ParseFailed devicePath exitCode e)
             | Inr out \<Rightarrow> if support_disabled out then Inl (SmartUnsupported []) else Inr out))"

definition effective_binary :: "ExecRunner \<Rightarrow> string" where
  "effective_binary r = (if BinaryPath r = [] then ''smartctl'' else BinaryPath r)"

definition effective_timeout :: "ExecRunner \<Rightarrow> int" where
  "effective_timeout r = (if Timeout r \<le> 0 then 30 * Second else Timeout r)"

definition smartctl_args :: "string list \<Rightarrow> string \<Rightarrow> string list" where
  "smartctl_args extraArgs devicePath =
     [''--json'', ''--all'', ''--nocheck=standby''] @ extraArgs @ [devicePath]"

definition Collect :: "ExecRunner \<Rightarrow> RunOs \<Rightarrow> string \<Rightarrow> string \<Rightarrow> collect_error + SmartctlOutput" where
  "Collect r os devicePath extraCmdArgs =
     (case SplitCommandArgs extraCmdArgs of
        Inl e \<Rightarrow> Inl (InvalidExtraArgs e)
      | Inr extraArgs \<Rightarrow>
          (let run = os_Run os (effective_binary r) (smartctl_args extraArgs devicePath)
                 (effective_timeout r)
           in case ro_Err run of
                Some (OtherError e) \<Rightarrow>
                  Inl (ExecFailed (effective_binary r) e (trim_space (ro_Stderr run)))
              | runErr \<Rightarrow>
                  (let exitCode = (case runErr of Some (ExitError code) \<Rightarrow> code | _ \<Rightarrow> 0) in
                   if ro_ExecCtxDone run \<and> \<not> ro_CtxDone run
                   then Inl (TimedOut (effective_timeout r) devicePath)
                   else classify os devicePath exitCode run)))"

subsection \<open>Usable outputs\<close>

text \<open>The exit code of a run that came to an end by itself.\<close>

definition exit_code :: "RunOutcome \<Rightarrow> int option" where
  "exit_code run =
     (if ro_ExecCtxDone run \<and> \<not> ro_CtxDone run then None
      else case ro_Err run of None \<Rightarrow> Some 0 | Some (ExitError c) \<Rightarrow> Some c | Some (OtherError _) \<Rightarrow> None)"

text \<open>The run of smartctl that \<^verbatim>\<open>Collect\<close> makes for a device, when the arguments are well-formed.\<close>

definition run_of :: "ExecRunner \<Rightarrow> RunOs \<Rightarrow> string \<Rightarrow> string \<Rightarrow> RunOutcome option" where
  "run_of r os dev extra =
     (case SplitCommandArgs extra of Inl _ \<Rightarrow> None
      | Inr xs \<Rightarrow> Some (os_Run os (effective_binary r) (smartctl_args xs dev) (effective_timeout r)))"

text \<open>An output that the assessment may read.\<close>

definition usable :: "SmartctlOutput \<Rightarrow> bool" where
  "usable out \<longleftrightarrow> \<not> HasExitBit (so_Smartctl out) exitBitCommandLine \<and>
     \<not> HasExitBit (so_Smartctl out) exitBitDeviceOpen \<and> \<not> support_disabled out"

lemma support_disabled_set [simp]: "support_disabled (set_exit_status c out) = support_disabled out"
  by (simp add: support_disabled_def set_exit_status_def)

lemma exit_status_set [simp]: "ExitStatus (so_Smartctl (set_exit_status c out)) = c"
  by (simp add: set_exit_status_def)

lemma text_set [simp]:
  "Text (so_Smartctl (set_exit_status c out)) = Text (so_Smartctl out)"
  "IndicatesLowPower (so_Smartctl (set_exit_status c out)) = IndicatesLowPower (so_Smartctl out)"
  by (simp_all add: set_exit_status_def Text_def IndicatesLowPower_def)

lemma usable_set: "usable (set_exit_status c out) \<longleftrightarrow>
    \<not> bit c 0 \<and> \<not> bit c 1 \<and> \<not> support_disabled out"
  using HasExitBit_bit [of _ 0] HasExitBit_bit [of _ 1]
  by (simp add: usable_def exit_bit_defs)

lemma exit_bit_and: "(c AND exitBitDeviceOpen \<noteq> 0) = bit c 1" "(c AND exitBitCommandLine \<noteq> 0) = bit c 0"
  using and_push_bit_1 [of c 0] and_push_bit_1 [of c 1] by (simp_all add: exit_bit_defs)

text \<open>The errors of a run that did not end by itself.\<close>

definition run_failure :: "ExecRunner \<Rightarrow> string \<Rightarrow> RunOutcome \<Rightarrow> collect_error" where
  "run_failure r dev run =
     (case ro_Err run of
        Some (OtherError e) \<Rightarrow> ExecFailed (effective_binary r) e (trim_space (ro_Stderr run))
      | _ \<Rightarrow> TimedOut (effective_timeout r) dev)"

lemma Collect_run:
  assumes "run_of r os dev extra = Some run"
  shows "Collect r os dev extra =
    (case exit_code run of None \<Rightarrow> Inl (run_failure r dev run) | Some c \<Rightarrow> classify os dev c run)"
proof -
  obtain xs where xs: "SplitCommandArgs extra = Inr xs"
    and run: "os_Run os (effective_binary r) (smartctl_args xs dev) (effective_timeout r) = run"
    using assms by (auto simp: run_of_def split: sum.splits)
  show ?thesis
    unfolding Collect_def xs sum.case Let_def run exit_code_def run_failure_def
    by (cases "ro_Err run") (auto split: run_error.split)
qed

lemma Collect_no_run:
  "run_of r os dev extra = None \<Longrightarrow> \<exists>e. Collect r os dev extra = Inl (InvalidExtraArgs e)"
  by (auto simp: run_of_def Collect_def split: sum.splits)

lemma classify_success:
  "classify os dev c run = Inr out \<longleftrightarrow>
     (\<exists>parsed. Unmarshal os (ro_Stdout run) = Inr parsed \<and> out = set_exit_status c parsed \<and>
        usable out \<and> (c = 0 \<or> os_Stat os dev = None) \<and>
        \<not> unsupported_text (to_lower (diagnostics (Inr parsed) (ro_Stderr run))))"
proof (cases "Unmarshal os (ro_Stdout run)")
  case (Inl e)
  then show ?thesis
    unfolding classify_def exit_bit_and Let_def by (simp split: option.split)
next
  case (Inr parsed)
  have diag: "diagnostics (Inr (set_exit_status c parsed)) (ro_Stderr run) =
      diagnostics (Inr parsed) (ro_Stderr run)"
    unfolding diagnostics_def by simp
  have "classify os dev c run = Inr out \<longleftrightarrow>
      (c = 0 \<or> os_Stat os dev = None) \<and>
      \<not> unsupported_text (to_lower (diagnostics (Inr parsed) (ro_Stderr run))) \<and>
      \<not> bit c 1 \<and> \<not> bit c 0 \<and> \<not> support_disabled parsed \<and> out = set_exit_status c parsed"
    unfolding classify_def exit_bit_and Let_def Inr map_sum.simps diag
    by (auto split: option.split if_splits)
  then show ?thesis using Inr by (auto simp: usable_set)
qed

subsection \<open>The interface for the controller\<close>

text \<open>
  A \<^verbatim>\<open>smartmontools.Runner\<close>: what it returns without an error is the output of a smartctl that ran
  its commands (bits 0 and 1 of the exit status are clear) on a device with SMART enabled.
\<close>

locale smart_runner =
  fixes collect :: "string \<Rightarrow> string \<Rightarrow> collect_error + SmartctlOutput"
  assumes collected: "collect path extra = Inr out \<Longrightarrow> usable out"
begin

lemma collected_bits:
  "collect path extra = Inr out \<Longrightarrow>
   \<not> bit (ExitStatus (so_Smartctl out)) 0 \<and> \<not> bit (ExitStatus (so_Smartctl out)) 1"
  using collected [of path extra out] exit_bit_and by (simp add: usable_def HasExitBit_def)

lemma collected_supported:
  "collect path extra = Inr out \<Longrightarrow> so_SmartSupport out \<in> {None, Some \<lparr>Available = True, Enabled = True\<rparr>}"
  using collected [of path extra out]
  by (auto simp: usable_def support_disabled_def split: option.splits)

end

interpretation exec_runner: smart_runner "Collect r os" for r os
proof
  fix path extra out
  assume "Collect r os path extra = Inr out"
  moreover from this obtain run where "run_of r os path extra = Some run"
    using Collect_no_run by (metis Inl_Inr_False not_None_eq)
  ultimately show "usable out"
    by (auto simp: Collect_run classify_success split: option.splits)
qed

lemma classify_standby:
  "classify os dev c run = Inl DeviceInStandby \<longleftrightarrow>
     bit c 1 \<and> os_Stat os dev = None \<and> (\<exists>parsed. Unmarshal os (ro_Stdout run) = Inr parsed \<and>
        IndicatesLowPower (so_Smartctl parsed) \<and>
        \<not> unsupported_text (to_lower (diagnostics (Inr parsed) (ro_Stderr run))))"
proof (cases "Unmarshal os (ro_Stdout run)")
  case (Inl e)
  then show ?thesis
    unfolding classify_def exit_bit_and Let_def by (simp split: option.split)
next
  case (Inr parsed)
  have diag: "diagnostics (Inr (set_exit_status c parsed)) (ro_Stderr run) =
      diagnostics (Inr parsed) (ro_Stderr run)"
    unfolding diagnostics_def by simp
  have "bit c 1 \<Longrightarrow> c \<noteq> 0" by auto
  then have "classify os dev c run = Inl DeviceInStandby \<longleftrightarrow>
      bit c 1 \<and> os_Stat os dev = None \<and> IndicatesLowPower (so_Smartctl parsed) \<and>
      \<not> unsupported_text (to_lower (diagnostics (Inr parsed) (ro_Stderr run)))"
    unfolding classify_def exit_bit_and Let_def Inr map_sum.simps diag
    by (auto split: option.split if_splits)
  then show ?thesis using Inr by auto
qed

subsection \<open>Properties\<close>

text \<open>
  C16: a collection succeeds exactly when smartctl ran to its end and wrote a decodable, usable
  output that does not say that SMART is unsupported, for a device that exists if the exit code is
  not 0; the result is that output with the exit code stored in it.  Bits 2 and higher of the exit
  code, which describe the health of the disk, never make it fail.
\<close>

theorem Collect_success:
  "Collect r os dev extra = Inr out \<longleftrightarrow>
     (\<exists>run c parsed. run_of r os dev extra = Some run \<and> exit_code run = Some c \<and>
        decode_output (ro_Stdout run) = Some parsed \<and> out = set_exit_status c parsed \<and>
        usable out \<and> (c = 0 \<or> os_Stat os dev = None) \<and>
        \<not> unsupported_text (to_lower (diagnostics (Inr parsed) (ro_Stderr run))))"
proof (cases "run_of r os dev extra")
  case None
  then show ?thesis using Collect_no_run [OF None] by auto
next
  case (Some run)
  then show ?thesis
    by (cases "exit_code run") (auto simp: Collect_run classify_success Unmarshal_Inr)
qed

text \<open>
  C37: a failing smartctl on a device that does not exist is always reported as a missing device,
  even if its output says that the device type cannot be detected.
\<close>

theorem Collect_missing_device:
  assumes "run_of r os dev extra = Some run" and "exit_code run = Some c" and "c \<noteq> 0"
    and "os_Stat os dev = Some e"
  shows "\<exists>diag. Collect r os dev extra = Inl (DeviceNotFound ('': '' @ diag @ '' ('' @ e @ '')''))"
  using assms by (simp add: Collect_run classify_def Let_def)

definition sample_runner :: ExecRunner where
  "sample_runner = \<lparr>BinaryPath = [], Timeout = 0\<rparr>"

definition sample_run :: "int \<Rightarrow> string \<Rightarrow> RunOutcome" where
  "sample_run c stderr = \<lparr>ro_Err = Some (ExitError c), ro_Stdout = [], ro_Stderr = stderr,
     ro_ExecCtxDone = False, ro_CtxDone = False\<rparr>"

definition sample_os :: "RunOutcome \<Rightarrow> string option \<Rightarrow> RunOs" where
  "sample_os run stat = \<lparr>os_Run = (\<lambda>_ _ _. run), os_JsonError = (\<lambda>_. ''unexpected end of JSON input''),
     os_Stat = (\<lambda>_. stat)\<rparr>"

lemma sample_run_of:
  "run_of sample_runner (sample_os run stat) dev [] = Some run"
  by (simp add: run_of_def sample_os_def SplitCommandArgs_def split_init_def split_finish_def
      flush_args_def runes.simps)

theorem Collect_missing_device_witness:
  "\<exists>diag. Collect sample_runner
      (sample_os (sample_run 1 ''Unable to detect device type'') (Some ''no such file'')) ''/dev/sdx'' [] =
    Inl (DeviceNotFound ('': '' @ diag @ '' ('' @ ''no such file'' @ '')''))"
  by (rule Collect_missing_device [OF sample_run_of, where c = 1])
    (simp_all add: exit_code_def sample_run_def sample_os_def)

text \<open>
  C39: a disk is reported in standby exactly when smartctl ran to its end with bit 1 of the exit
  code set, on a device that exists, with a decodable output whose messages name a low power mode
  and whose diagnostics do not say that SMART is unsupported.
\<close>

theorem Collect_standby:
  "Collect r os dev extra = Inl DeviceInStandby \<longleftrightarrow>
     (\<exists>run c parsed. run_of r os dev extra = Some run \<and> exit_code run = Some c \<and> bit c 1 \<and>
        decode_output (ro_Stdout run) = Some parsed \<and> IndicatesLowPower (so_Smartctl parsed) \<and>
        os_Stat os dev = None \<and>
        \<not> unsupported_text (to_lower (diagnostics (Inr parsed) (ro_Stderr run))))"
proof (cases "run_of r os dev extra")
  case None
  then show ?thesis using Collect_no_run [OF None] by auto
next
  case run: (Some run)
  have "classify os dev c run = Inl DeviceInStandby \<longleftrightarrow>
      (bit c 1 \<and> os_Stat os dev = None \<and> (\<exists>parsed. Unmarshal os (ro_Stdout run) = Inr parsed \<and>
        IndicatesLowPower (so_Smartctl parsed) \<and>
        \<not> unsupported_text (to_lower (diagnostics (Inr parsed) (ro_Stderr run)))))" for c
    by (rule classify_standby)
  then show ?thesis
    using run by (cases "exit_code run")
      (auto simp: Collect_run run_failure_def Unmarshal_Inr split: option.split run_error.split)
qed

text \<open>
  A smartctl that a signal terminated (exit code -1: the daemon is shut down during the run)
  before it wrote its output is reported as a missing device, although the device exists.
\<close>

theorem Collect_killed:
  assumes "run_of r os dev extra = Some run" and "exit_code run = Some (- 1)"
    and "os_Stat os dev = None" and "ro_Stdout run = []" and "ro_Stderr run = []"
  shows "Collect r os dev extra = Inl (DeviceNotFound '': no diagnostic output'')"
proof -
  have diag: "diagnostics (Inl e) [] = ''no diagnostic output''" for e
    by (simp add: diagnostics_def)
  have supported: "\<not> unsupported_text (to_lower ''no diagnostic output'')" by code_simp
  show ?thesis
    using assms(1-3)
    by (simp add: Collect_run classify_def Let_def assms(4,5) Unmarshal_empty diag supported
        exit_bit_defs)
qed

theorem Collect_killed_witness:
  "Collect sample_runner (sample_os (sample_run (- 1) []) None) ''/dev/sda'' [] =
    Inl (DeviceNotFound '': no diagnostic output'')"
  by (rule Collect_killed [OF sample_run_of])
    (simp_all add: exit_code_def sample_run_def sample_os_def)

end
