(* ===== verification/Metrics.thy ===== *)
theory Metrics
  imports Prelude
begin

text \<open>
  The Prometheus metrics (\<^verbatim>\<open>pkg/metrics/metrics.go\<close>).  The functions of the package, and the
  controller's uses of it, are modelled by the gauge operations they perform, in order.  The
  Prometheus client is a parameter: the locale \<open>gauge_registry\<close> states what its \<^verbatim>\<open>GaugeVec\<close> promises
  for \<^verbatim>\<open>WithLabelValues(...).Set\<close> and \<^verbatim>\<open>DeletePartialMatch\<close>.  A gauge value is the integer that the
  code converts to a \<^verbatim>\<open>float64\<close>.
\<close>

subsection \<open>The gauge vectors\<close>

datatype vec =
    Device_vec | Version_vec | SmartStatus_vec | Temperature_vec | PowerOnSeconds_vec
  | PowerCycleCount_vec | PercentageUsed_vec | AvailableSpare_vec | AvailableSpareThreshold_vec
  | CriticalWarning_vec | MediaErrors_vec | NumErrLogEntries_vec | Attribute_vec
  | HealthStatus_vec | CollectionSuccess_vec

record GaugeOpts =
  Namespace :: string
  Subsystem :: string
  go_Name :: string
  LabelNames :: "string list"

definition device_gauge :: "string \<Rightarrow> string list \<Rightarrow> GaugeOpts" where
  "device_gauge name extra = \<lparr>Namespace = ''smartctl'', Subsystem = ''device'', go_Name = name,
     LabelNames = [''node'', ''disk'', ''device''] @ extra\<rparr>"

fun gauge_opts :: "vec \<Rightarrow> GaugeOpts" where
  "gauge_opts Device_vec = \<lparr>Namespace = ''smartctl'', Subsystem = [], go_Name = ''device'',
     LabelNames = [''node'', ''disk'', ''device'', ''interface'', ''protocol'', ''model_family'',
       ''model_name'', ''serial_number'', ''ata_additional_product_id'', ''firmware_version'',
       ''ata_version'', ''sata_version'', ''form_factor'', ''scsi_vendor'', ''scsi_product'',
       ''scsi_revision'', ''scsi_version'']\<rparr>"
| "gauge_opts Version_vec = \<lparr>Namespace = ''smartctl'', Subsystem = [], go_Name = ''version'',
     LabelNames = [''node'', ''json_format_version'', ''smartctl_version'', ''svn_revision'',
       ''build_info'']\<rparr>"
| "gauge_opts SmartStatus_vec = device_gauge ''smart_status'' []"
| "gauge_opts Temperature_vec = device_gauge ''temperature'' [''temperature_type'']"
| "gauge_opts PowerOnSeconds_vec = device_gauge ''power_on_seconds'' []"
| "gauge_opts PowerCycleCount_vec = device_gauge ''power_cycle_count'' []"
| "gauge_opts PercentageUsed_vec = device_gauge ''percentage_used'' []"
| "gauge_opts AvailableSpare_vec = device_gauge ''available_spare'' []"
| "gauge_opts AvailableSpareThreshold_vec = device_gauge ''available_spare_threshold'' []"
| "gauge_opts CriticalWarning_vec = device_gauge ''critical_warning'' []"
| "gauge_opts MediaErrors_vec = device_gauge ''media_errors'' []"
| "gauge_opts NumErrLogEntries_vec = device_gauge ''num_err_log_entries'' []"
| "gauge_opts Attribute_vec = device_gauge ''attribute''
     [''attribute_name'', ''attribute_id'', ''attribute_value_type'']"
| "gauge_opts HealthStatus_vec = device_gauge ''health_status'' [''status'']"
| "gauge_opts CollectionSuccess_vec = device_gauge ''collection_success'' []"

abbreviation label_names :: "vec \<Rightarrow> string list" where
  "label_names v \<equiv> LabelNames (gauge_opts v)"

text \<open>The full metric name that the client builds from the options.\<close>

definition metric_name :: "vec \<Rightarrow> string" where
  "metric_name v = (let o' = gauge_opts v in
     join ''_'' (filter (\<lambda>s. s \<noteq> []) [Namespace o', Subsystem o', go_Name o']))"

definition registered :: "vec list" where
  "registered = [Device_vec, Version_vec, SmartStatus_vec, Temperature_vec, PowerOnSeconds_vec,
     PowerCycleCount_vec, PercentageUsed_vec, AvailableSpare_vec, AvailableSpareThreshold_vec,
     CriticalWarning_vec, MediaErrors_vec, NumErrLogEntries_vec, Attribute_vec, HealthStatus_vec,
     CollectionSuccess_vec]"

subsection \<open>Gauge operations\<close>

datatype gauge_op =
    SetGauge vec "string list" int
  | DeletePartialMatch vec "(string \<times> string) list"

definition SmartctlVersion :: "int list \<Rightarrow> string" where
  "SmartctlVersion version = join ''.'' (map itoa version)"

definition disk_labels :: "string \<Rightarrow> string \<Rightarrow> (string \<times> string) list" where
  "disk_labels node disk = [(''node'', node), (''disk'', disk)]"

definition DeleteDeviceHealthMetrics :: "string \<Rightarrow> string \<Rightarrow> gauge_op list" where
  "DeleteDeviceHealthMetrics node disk =
     map (\<lambda>v. DeletePartialMatch v (disk_labels node disk))
       [Device_vec, SmartStatus_vec, Temperature_vec, PowerOnSeconds_vec, PowerCycleCount_vec,
        PercentageUsed_vec, AvailableSpare_vec, AvailableSpareThreshold_vec, CriticalWarning_vec,
        MediaErrors_vec, NumErrLogEntries_vec, Attribute_vec, HealthStatus_vec]"

definition DeleteAllDiskMetrics :: "string \<Rightarrow> string \<Rightarrow> gauge_op list" where
  "DeleteAllDiskMetrics node disk =
     DeleteDeviceHealthMetrics node disk @
     [DeletePartialMatch CollectionSuccess_vec (disk_labels node disk)]"

subsection \<open>The Prometheus client\<close>

record 'r Gauges =
  g_Set :: "vec \<Rightarrow> string list \<Rightarrow> int \<Rightarrow> 'r \<Rightarrow> 'r"
  g_Delete :: "vec \<Rightarrow> (string \<times> string) list \<Rightarrow> 'r \<Rightarrow> 'r"
  g_Read :: "'r \<Rightarrow> vec \<Rightarrow> string list \<Rightarrow> int option"

text \<open>The series that a partial label set selects.\<close>

definition partial_match :: "vec \<Rightarrow> (string \<times> string) list \<Rightarrow> string list \<Rightarrow> bool" where
  "partial_match v labels vs =
     list_all (\<lambda>(n, x). map_of (zip (label_names v) vs) n = Some x) labels"

text \<open>\<^verbatim>\<open>WithLabelValues\<close> panics unless it gets one value per label.\<close>

fun well_labelled :: "gauge_op \<Rightarrow> bool" where
  "well_labelled (SetGauge v vs x) \<longleftrightarrow> length vs = length (label_names v)"
| "well_labelled (DeletePartialMatch v labels) \<longleftrightarrow> list_all (\<lambda>(n, _). n \<in> set (label_names v)) labels"

fun gauge_step :: "'r Gauges \<Rightarrow> 'r \<Rightarrow> gauge_op \<Rightarrow> 'r" where
  "gauge_step G r (SetGauge v vs x) = g_Set G v vs x r"
| "gauge_step G r (DeletePartialMatch v labels) = g_Delete G v labels r"

definition run_gauges :: "'r Gauges \<Rightarrow> gauge_op list \<Rightarrow> 'r \<Rightarrow> 'r" where
  "run_gauges G ops r = foldl (gauge_step G) r ops"

lemma run_gauges_Nil [simp]: "run_gauges G [] r = r"
  by (simp add: run_gauges_def)

lemma run_gauges_append [simp]: "run_gauges G (xs @ ys) r = run_gauges G ys (run_gauges G xs r)"
  by (simp add: run_gauges_def)

lemma run_gauges_Cons: "run_gauges G (x # xs) r = run_gauges G xs (gauge_step G r x)"
  by (simp add: run_gauges_def)

text \<open>The series that an operation may change.\<close>

fun touches :: "gauge_op \<Rightarrow> vec \<Rightarrow> string list \<Rightarrow> bool" where
  "touches (SetGauge v vs x) w ws \<longleftrightarrow> w = v \<and> ws = vs"
| "touches (DeletePartialMatch v labels) w ws \<longleftrightarrow> w = v \<and> partial_match v labels ws"

fun op_value :: "gauge_op \<Rightarrow> int option" where
  "op_value (SetGauge v vs x) = Some x"
| "op_value (DeletePartialMatch v labels) = None"

locale gauge_registry =
  fixes G :: "'r Gauges"
  assumes read_set: "g_Read G (g_Set G v vs x r) w ws =
      (if w = v \<and> ws = vs then Some x else g_Read G r w ws)"
    and read_delete: "g_Read G (g_Delete G v labels r) w ws =
      (if w = v \<and> partial_match v labels ws then None else g_Read G r w ws)"
begin

lemma read_step: "g_Read G (gauge_step G r op) w ws =
    (if touches op w ws then op_value op else g_Read G r w ws)"
  by (cases op) (simp_all add: read_set read_delete)

text \<open>A series has the value of the last operation that touches it.\<close>

lemma read_run: "g_Read G (run_gauges G ops r) w ws =
    (case List.find (\<lambda>op. touches op w ws) (rev ops) of
       None \<Rightarrow> g_Read G r w ws | Some op \<Rightarrow> op_value op)"
proof (induction ops rule: rev_induct)
  case (snoc op ops)
  then show ?case by (simp add: run_gauges_Cons read_step)
qed simp

lemma read_untouched:
  "list_all (\<lambda>op. \<not> touches op w ws) ops \<Longrightarrow> g_Read G (run_gauges G ops r) w ws = g_Read G r w ws"
proof -
  assume "list_all (\<lambda>op. \<not> touches op w ws) ops"
  then have "List.find (\<lambda>op. touches op w ws) (rev ops) = None"
    by (simp add: find_None_iff list_all_iff)
  then show ?thesis by (simp add: read_run)
qed

lemma read_deletes:
  "g_Read G (run_gauges G (map (\<lambda>v. DeletePartialMatch v labels) vs) r) w ws =
    (if w \<in> set vs \<and> partial_match w labels ws then None else g_Read G r w ws)"
  by (induction vs arbitrary: r) (auto simp: run_gauges_Cons read_delete)

end

text \<open>A registry that is a map from series to values.\<close>

definition map_gauges :: "(vec \<times> string list \<rightharpoonup> int) Gauges" where
  "map_gauges = \<lparr>g_Set = (\<lambda>v vs x r. r((v, vs) \<mapsto> x)),
     g_Delete = (\<lambda>v labels r. \<lambda>(w, ws). if w = v \<and> partial_match v labels ws then None else r (w, ws)),
     g_Read = (\<lambda>r v vs. r (v, vs))\<rparr>"

interpretation map_gauges: gauge_registry map_gauges
  by unfold_locales (auto simp: map_gauges_def)

subsection \<open>Properties\<close>

lemma partial_match_disk:
  "w \<noteq> Version_vec \<Longrightarrow> partial_match w (disk_labels node disk) (n # d # ws) \<longleftrightarrow> n = node \<and> d = disk"
  by (cases w) (auto simp: partial_match_def disk_labels_def device_gauge_def)

text \<open>
  The metrics can be registered together: no two have the same name; every label of the
  deletions exists in the vectors they are applied to.
\<close>

theorem metrics_registered:
  "distinct (map metric_name registered) \<and>
   list_all well_labelled (DeleteAllDiskMetrics node disk)"
proof
  show "distinct (map metric_name registered)" by code_simp
  show "list_all well_labelled (DeleteAllDiskMetrics node disk)"
    by (simp add: DeleteAllDiskMetrics_def DeleteDeviceHealthMetrics_def disk_labels_def
        device_gauge_def)
qed

lemma not_kept:
  "v \<in> set [Device_vec, SmartStatus_vec, Temperature_vec, PowerOnSeconds_vec, PowerCycleCount_vec,
     PercentageUsed_vec, AvailableSpare_vec, AvailableSpareThreshold_vec, CriticalWarning_vec,
     MediaErrors_vec, NumErrLogEntries_vec, Attribute_vec, HealthStatus_vec] \<longleftrightarrow>
   v \<noteq> Version_vec \<and> v \<noteq> CollectionSuccess_vec"
  by (cases v) simp_all

context gauge_registry
begin

lemma read_device_deleted:
  "g_Read G (run_gauges G (DeleteDeviceHealthMetrics node disk) r) v (n # d # vs) =
    (if v \<noteq> Version_vec \<and> v \<noteq> CollectionSuccess_vec \<and> n = node \<and> d = disk then None
     else g_Read G r v (n # d # vs))"
  unfolding DeleteDeviceHealthMetrics_def read_deletes not_kept using partial_match_disk by auto

lemma read_all_deleted:
  "g_Read G (run_gauges G (DeleteAllDiskMetrics node disk) r) v (n # d # vs) =
    (if v \<noteq> Version_vec \<and> n = node \<and> d = disk then None else g_Read G r v (n # d # vs))"
  unfolding DeleteAllDiskMetrics_def
  by (auto simp: run_gauges_Cons read_delete read_device_deleted partial_match_disk)

end

text \<open>
  C31: deleting the readings of a disk removes exactly its series, for every device path it had:
  the collection success, the series of other disks and other nodes and the version are kept.
  Deleting all its metrics removes the collection success too.
\<close>

theorem delete_metrics_exact:
  assumes "gauge_registry G"
  shows "g_Read G (run_gauges G (DeleteDeviceHealthMetrics node disk) r) v (n # d # vs) =
      (if v \<noteq> Version_vec \<and> v \<noteq> CollectionSuccess_vec \<and> n = node \<and> d = disk then None
       else g_Read G r v (n # d # vs)) \<and>
    g_Read G (run_gauges G (DeleteAllDiskMetrics node disk) r) v (n # d # vs) =
      (if v \<noteq> Version_vec \<and> n = node \<and> d = disk then None else g_Read G r v (n # d # vs))"
  using gauge_registry.read_device_deleted [OF assms] gauge_registry.read_all_deleted [OF assms]
  by blast

theorem delete_metrics_exact_witness:
  "g_Read map_gauges (run_gauges map_gauges (DeleteDeviceHealthMetrics ''n1'' ''d1'')
      [(SmartStatus_vec, [''n1'', ''d1'', ''/dev/sda'']) \<mapsto> 1,
       (CollectionSuccess_vec, [''n1'', ''d1'', ''/dev/sda'']) \<mapsto> 0])
     SmartStatus_vec [''n1'', ''d1'', ''/dev/sda''] = None"
  using delete_metrics_exact [OF map_gauges.gauge_registry_axioms] by simp

end
