(* ===== verification/Disk_Filter.thy ===== *)
theory Disk_Filter
  imports Api_Types
begin

text \<open>
  Which disks are monitored (\<^verbatim>\<open>pkg/discovery/filter.go\<close>): the exclusion rules of the user with
  their parser and printer, and the built-in filter \<open>ShouldIgnore\<close>.  Go's pointers to the rule's
  fields, which \<^verbatim>\<open>fields\<close> returns next to their keys, are pairs of a selector and an update.
\<close>

subsection \<open>Exclusion rules\<close>

record ExcludeRule =
  r_Node :: string
  r_Name :: string
  r_Vendor :: string
  r_Model :: string
  r_Serial :: string
  r_WWN :: string
  r_Bus :: string

definition zero_rule :: ExcludeRule where
  "zero_rule = \<lparr>r_Node = [], r_Name = [], r_Vendor = [], r_Model = [], r_Serial = [],
     r_WWN = [], r_Bus = []\<rparr>"

definition Empty :: "ExcludeRule \<Rightarrow> bool" where
  "Empty r \<longleftrightarrow> r_Node r = [] \<and> r_Name r = [] \<and> r_Vendor r = [] \<and> r_Model r = [] \<and>
     r_Serial r = [] \<and> r_WWN r = [] \<and> r_Bus r = []"

type_synonym rule_field =
  "string \<times> (ExcludeRule \<Rightarrow> string) \<times> (string \<Rightarrow> ExcludeRule \<Rightarrow> ExcludeRule)"

definition fields :: "rule_field list" where
  "fields =
     [(''node'', r_Node, \<lambda>v r. r\<lparr>r_Node := v\<rparr>), (''name'', r_Name, \<lambda>v r. r\<lparr>r_Name := v\<rparr>),
      (''vendor'', r_Vendor, \<lambda>v r. r\<lparr>r_Vendor := v\<rparr>), (''model'', r_Model, \<lambda>v r. r\<lparr>r_Model := v\<rparr>),
      (''serial'', r_Serial, \<lambda>v r. r\<lparr>r_Serial := v\<rparr>), (''wwn'', r_WWN, \<lambda>v r. r\<lparr>r_WWN := v\<rparr>),
      (''bus'', r_Bus, \<lambda>v r. r\<lparr>r_Bus := v\<rparr>)]"

definition rule_String :: "ExcludeRule \<Rightarrow> string" where
  "rule_String r = join '',''
     (map (\<lambda>(key, get, _). key @ ''='' @ get r) (filter (\<lambda>(_, get, _). get r \<noteq> []) fields))"

definition Matches :: "ExcludeRule \<Rightarrow> string \<Rightarrow> DiskInfo \<Rightarrow> bool" where
  "Matches r nodeName disk \<longleftrightarrow>
     (if Empty r then False
      else (r_Node r = [] \<or> r_Node r = nodeName) \<and>
           (r_Name r = [] \<or> r_Name r = di_Name disk) \<and>
           (r_Vendor r = [] \<or> r_Vendor r = di_Vendor disk) \<and>
           (r_Model r = [] \<or> r_Model r = di_Model disk) \<and>
           (r_Serial r = [] \<or> r_Serial r = di_Serial disk) \<and>
           (r_WWN r = [] \<or> equal_fold (r_WWN r) (di_WWN disk)) \<and>
           (r_Bus r = [] \<or> r_Bus r = di_Bus disk))"

datatype rule_error =
    InvalidExclusion string
  | UnsupportedField string
  | DuplicateField string

definition parse_part :: "string \<Rightarrow> ExcludeRule \<Rightarrow> rule_error + ExcludeRule" where
  "parse_part part rule =
     (case cut (CHR ''='') part of
        None \<Rightarrow> Inl (InvalidExclusion part)
      | Some (key, val) \<Rightarrow>
          (let key = trim_space key; val = trim_space val in
           if key = [] \<or> val = [] then Inl (InvalidExclusion part)
           else case map_of fields key of
               None \<Rightarrow> Inl (UnsupportedField key)
             | Some (get, put) \<Rightarrow>
                 if get rule \<noteq> [] then Inl (DuplicateField key) else Inr (put val rule)))"

fun parse_parts :: "string list \<Rightarrow> ExcludeRule \<Rightarrow> rule_error + ExcludeRule" where
  "parse_parts [] rule = Inr rule"
| "parse_parts (part # parts) rule =
     (case parse_part part rule of Inl e \<Rightarrow> Inl e | Inr rule' \<Rightarrow> parse_parts parts rule')"

definition ParseExcludeRule :: "string \<Rightarrow> rule_error + ExcludeRule" where
  "ParseExcludeRule value = parse_parts (split_on (CHR '','') value) zero_rule"

fun FindMatchingRule :: "string \<Rightarrow> DiskInfo \<Rightarrow> ExcludeRule list \<Rightarrow> ExcludeRule \<times> bool" where
  "FindMatchingRule nodeName disk [] = (zero_rule, False)"
| "FindMatchingRule nodeName disk (rule # rules) =
     (if Matches rule nodeName disk then (rule, True) else FindMatchingRule nodeName disk rules)"

definition IsExcluded :: "string \<Rightarrow> DiskInfo \<Rightarrow> ExcludeRule list \<Rightarrow> bool" where
  "IsExcluded nodeName disk rules = snd (FindMatchingRule nodeName disk rules)"

subsection \<open>The built-in filter\<close>

definition ignoredPrefixes :: "string list" where
  "ignoredPrefixes = [''loop'', ''ram'', ''zram'', ''dm-'', ''md'', ''sr'', ''fd'', ''nbd'', ''rbd'', ''drbd'']"

text \<open>Reading a missing key of a Go map yields the zero value.\<close>

definition get_prop :: "(string \<rightharpoonup> string) \<Rightarrow> string \<Rightarrow> string" where
  "get_prop props key = (case props key of None \<Rightarrow> [] | Some v \<Rightarrow> v)"

definition ShouldIgnore :: "string \<Rightarrow> (string \<rightharpoonup> string) \<Rightarrow> bool" where
  "ShouldIgnore name props \<longleftrightarrow>
     (if list_ex (\<lambda>p. prefix p name) ignoredPrefixes then True
      else if equal_fold (get_prop props ''ID_BUS'') ''iscsi'' then True
      else
        (let busPath = to_lower (get_prop props ''ID_PATH'') in
         if sublist ''-iscsi-'' busPath \<or> sublist ''io.longhorn'' busPath then True
         else
           (let vendor = to_upper (trim_space (get_prop props ''ID_VENDOR''));
                model = to_upper (trim_space (get_prop props ''ID_MODEL''))
            in (vendor = ''IET'' \<or> vendor = ''LIO-ORG'') \<and> model = ''VIRTUAL-DISK'')))"

subsection \<open>Well-formed rules\<close>

definition clean_value :: "string \<Rightarrow> bool" where
  "clean_value v \<longleftrightarrow> trim_space v = v \<and> CHR '','' \<notin> set v"

definition clean_fields :: "ExcludeRule \<Rightarrow> bool" where
  "clean_fields r \<longleftrightarrow> list_all (\<lambda>(_, get, _). clean_value (get r)) fields"

definition wf_rule :: "ExcludeRule \<Rightarrow> bool" where
  "wf_rule r \<longleftrightarrow> \<not> Empty r \<and> clean_fields r"

lemma clean_fields_iff: "clean_fields r \<longleftrightarrow>
    clean_value (r_Node r) \<and> clean_value (r_Name r) \<and> clean_value (r_Vendor r) \<and>
    clean_value (r_Model r) \<and> clean_value (r_Serial r) \<and> clean_value (r_WWN r) \<and>
    clean_value (r_Bus r)"
  by (simp add: clean_fields_def fields_def)

subsubsection \<open>Printing, then parsing\<close>

definition opt_part :: "string \<Rightarrow> string \<Rightarrow> string list" where
  "opt_part key v = (if v = [] then [] else [key @ ''='' @ v])"

definition parts_of :: "ExcludeRule \<Rightarrow> string list" where
  "parts_of r = opt_part ''node'' (r_Node r) @ opt_part ''name'' (r_Name r) @
     opt_part ''vendor'' (r_Vendor r) @ opt_part ''model'' (r_Model r) @
     opt_part ''serial'' (r_Serial r) @ opt_part ''wwn'' (r_WWN r) @ opt_part ''bus'' (r_Bus r)"

lemma map_filter_concat: "map f (filter P xs) = concat (map (\<lambda>x. if P x then [f x] else []) xs)"
  by (induction xs) simp_all

lemma rule_String_parts: "rule_String r = join '','' (parts_of r)"
  by (simp add: rule_String_def map_filter_concat fields_def parts_of_def opt_part_def
      cong: if_cong)

lemma parse_opt_part:
  assumes "map_of fields key = Some (get, put)" and "get rule = []" and "put [] rule = rule"
    and "trim_space key = key" and "key \<noteq> []" and "CHR ''='' \<notin> set key" and "clean_value v"
  shows "parse_parts (opt_part key v @ rest) rule = parse_parts rest (put v rule)"
  using assms by (simp add: opt_part_def parse_part_def cut_append clean_value_def)

lemmas parse_opt_last = parse_opt_part [where rest = "[]", simplified]

lemma trimmed_keys:
  "trim_space ''node'' = ''node''" "trim_space ''name'' = ''name''"
  "trim_space ''vendor'' = ''vendor''" "trim_space ''model'' = ''model''"
  "trim_space ''serial'' = ''serial''" "trim_space ''wwn'' = ''wwn''" "trim_space ''bus'' = ''bus''"
  by code_simp+

lemma parse_parts_of:
  assumes "clean_fields r"
  shows "parse_parts (parts_of r) zero_rule = Inr r"
proof -
  show ?thesis
    using assms unfolding parts_of_def clean_fields_iff
    by (simp add: parse_opt_part parse_opt_last fields_def trimmed_keys zero_rule_def)
qed

lemma parts_no_comma: "clean_fields r \<Longrightarrow> \<forall>p \<in> set (parts_of r). CHR '','' \<notin> set p"
  by (auto simp: clean_fields_iff parts_of_def opt_part_def clean_value_def split: if_splits)

lemma parts_nonempty: "\<not> Empty r \<Longrightarrow> parts_of r \<noteq> []"
  by (auto simp: Empty_def parts_of_def opt_part_def)

lemma parse_String: "wf_rule r \<Longrightarrow> ParseExcludeRule (rule_String r) = Inr r"
  unfolding wf_rule_def ParseExcludeRule_def rule_String_parts
  using split_on_join [OF parts_nonempty parts_no_comma, of r] parse_parts_of [of r] by simp

subsubsection \<open>Parsing gives a well-formed rule\<close>

lemma parse_part_clean:
  assumes "parse_part part rule = Inr rule'" and "CHR '','' \<notin> set part" and "clean_fields rule"
  shows "wf_rule rule'"
proof -
  from assms(1) obtain key val get pt where c: "cut (CHR ''='') part = Some (key, val)"
    and v: "trim_space val \<noteq> []" and f: "map_of fields (trim_space key) = Some (get, pt)"
    and r: "rule' = pt (trim_space val) rule"
    by (auto simp: parse_part_def Let_def split: option.splits if_splits prod.splits)
  have "CHR '','' \<notin> set val" using cut_SomeD [OF c] assms(2) by simp
  then have "clean_value (trim_space val)"
    using trim_space_set [of val] by (auto simp: clean_value_def)
  with v f r assms(3) show ?thesis
    by (auto simp: fields_def wf_rule_def clean_fields_iff Empty_def split: if_splits)
qed

lemma parse_parts_clean:
  "parse_parts parts rule = Inr r \<Longrightarrow> \<forall>p \<in> set parts. CHR '','' \<notin> set p \<Longrightarrow> clean_fields rule \<Longrightarrow>
   parts \<noteq> [] \<Longrightarrow> wf_rule r"
proof (induction parts arbitrary: rule)
  case (Cons p ps)
  then obtain rule' where p: "parse_part p rule = Inr rule'" and ps: "parse_parts ps rule' = Inr r"
    by (auto split: sum.splits)
  from p Cons.prems have wf: "wf_rule rule'" by (auto intro: parse_part_clean)
  show ?case
  proof (cases ps)
    case Nil
    with ps wf show ?thesis by simp
  next
    case (Cons q qs)
    with ps wf Cons.IH [OF ps] Cons.prems show ?thesis by (simp add: wf_rule_def)
  qed
qed simp

lemma clean_zero: "clean_fields zero_rule"
  by (simp add: clean_fields_iff zero_rule_def clean_value_def)

lemma parse_wf: "ParseExcludeRule s = Inr r \<Longrightarrow> wf_rule r"
  unfolding ParseExcludeRule_def
  by (erule parse_parts_clean) (auto simp: clean_zero dest: split_on_parts)

subsection \<open>Matching\<close>

lemma find_first: "FindMatchingRule n d rules =
    (case List.find (\<lambda>r. Matches r n d) rules of None \<Rightarrow> (zero_rule, False) | Some r \<Rightarrow> (r, True))"
  by (induction rules) simp_all

lemma IsExcluded_iff: "IsExcluded n d rules \<longleftrightarrow> (\<exists>r \<in> set rules. Matches r n d)"
  by (induction rules) (simp_all add: IsExcluded_def)

lemma Matches_nonempty: "Matches r n d \<Longrightarrow> \<not> Empty r"
  by (simp add: Matches_def split: if_splits)

subsection \<open>Properties\<close>

definition sample_rule :: ExcludeRule where
  "sample_rule = zero_rule\<lparr>r_Vendor := ''HP'', r_Model := ''LOGICAL_VOLUME''\<rparr>"

text \<open>
  C27: printing and parsing an exclusion rule are inverse: the rules that the parser accepts are
  exactly the well-formed ones (some criterion populated, every value trimmed and without a comma),
  and each of them is read back from its printed form.
\<close>

theorem ParseExcludeRule_roundtrip:
  "(\<exists>s. ParseExcludeRule s = Inr r) \<longleftrightarrow> ParseExcludeRule (rule_String r) = Inr r"
  using parse_wf parse_String by blast

text \<open>
  A rule that was parsed always has a criterion, so it can never match every disk: it is not
  empty, and its fields are trimmed and free of commas.
\<close>

theorem ParseExcludeRule_wf:
  assumes "ParseExcludeRule s = Inr r"
  shows "\<not> Empty r \<and> clean_fields r"
  using parse_wf [OF assms] by (simp add: wf_rule_def)

theorem ParseExcludeRule_wf_witness: "\<not> Empty sample_rule \<and> clean_fields sample_rule"
  by (rule ParseExcludeRule_wf [of "''vendor=HP, model = LOGICAL_VOLUME ''"]) code_simp

text \<open>
  A disk is excluded exactly when some rule matches it, and the rule reported is the first one
  in the configured order.
\<close>

theorem FindMatchingRule_spec:
  "FindMatchingRule n d rules =
     (case filter (\<lambda>r. Matches r n d) rules of [] \<Rightarrow> (zero_rule, False) | r # _ \<Rightarrow> (r, True)) \<and>
   (IsExcluded n d rules \<longleftrightarrow> list_ex (\<lambda>r. Matches r n d) rules)"
proof
  show "FindMatchingRule n d rules =
     (case filter (\<lambda>r. Matches r n d) rules of [] \<Rightarrow> (zero_rule, False) | r # _ \<Rightarrow> (r, True))"
    by (induction rules) simp_all
  show "IsExcluded n d rules \<longleftrightarrow> list_ex (\<lambda>r. Matches r n d) rules"
    by (simp add: IsExcluded_iff list_ex_iff)
qed

end
