(* ===== verification/Disk_Status.thy ===== *)
theory Disk_Status
  imports Assessment Runner Metrics Disk_Filter
begin

text \<open>
  The status of a PhysicalDisk as the controller maintains it: \<open>extractTelemetry\<close>, \<open>setHealth\<close>,
  \<open>applyCollectionFailure\<close>, \<open>applyCollectionSuccess\<close> and \<open>publishHealthMetrics\<close> of
  \<^verbatim>\<open>pkg/controller/physicaldisk_controller.go\<close>.  A method that mutates its disk returns the new disk
  and the effects it had on the outside (gauge operations and recorded events), in order.

  \<^verbatim>\<open>meta.SetStatusCondition\<close> of the Kubernetes libraries is a parameter; the locale
  \<open>status_conditions\<close> states its documented behaviour.  The methods pass conditions without a
  transition time, which the library fills in.
\<close>

subsection \<open>The monitor\<close>

record MonitorOptions =
  mo_NodeName :: string
  mo_SysDir :: string
  mo_UdevDataDir :: string
  mo_PollInterval :: int
  mo_EventDebounce :: int
  mo_ExcludeRules :: "ExcludeRule list"

text \<open>
  The fields of \<^verbatim>\<open>DiskMonitor\<close> that these methods use: the options, whether there is a recorder,
  the library's \<^verbatim>\<open>SetStatusCondition\<close> and the clock.
\<close>

record StatusEnv =
  dm_Options :: MonitorOptions
  dm_Recorder :: bool
  dm_SetStatusCondition :: "Condition list \<Rightarrow> Condition \<Rightarrow> Condition list \<times> bool"
  dm_Now :: int

datatype EventType = NormalEvent | WarningEvent

datatype effect =
    Gauge gauge_op
  | RecordedEvent string EventType string string

abbreviation node_of :: "'a StatusEnv_scheme \<Rightarrow> string" where
  "node_of m \<equiv> mo_NodeName (dm_Options m)"

definition recordEvent ::
  "'a StatusEnv_scheme \<Rightarrow> PhysicalDisk \<Rightarrow> EventType \<Rightarrow> string \<Rightarrow> string \<Rightarrow> effect list" where
  "recordEvent m disk eventType reason message =
     (if dm_Recorder m then [RecordedEvent (pd_Name disk) eventType reason message] else [])"

definition new_condition :: "string \<Rightarrow> ConditionStatus \<Rightarrow> string \<Rightarrow> string \<Rightarrow> Condition" where
  "new_condition t s r msg =
     \<lparr>c_Type = t, c_Status = s, c_Reason = r, c_Message = msg, c_LastTransitionTime = 0\<rparr>"

subsection \<open>Telemetry\<close>

definition scan_telemetry :: "DiskTelemetry \<Rightarrow> AtaAttribute \<Rightarrow> DiskTelemetry" where
  "scan_telemetry t attr =
     (let raw = raw_Value (a_Raw attr); i = a_ID attr in
      if i = 5 then t\<lparr>ReallocatedSectors := Some raw\<rparr>
      else if i = 197 then t\<lparr>PendingSectors := Some raw\<rparr>
      else if i = 194 \<or> i = 190 then
        (if TemperatureCelsius t = None \<and> raw > 0 then t\<lparr>TemperatureCelsius := Some raw\<rparr> else t)
      else if i = 9 then
        (if PowerOnHours t = None \<and> raw > 0 then t\<lparr>PowerOnHours := Some raw\<rparr> else t)
      else if i = 12 then
        (if PowerCycleCount t = None \<and> raw > 0 then t\<lparr>PowerCycleCount := Some raw\<rparr> else t)
      else t)"

definition extractTelemetry :: "SmartctlOutput option \<Rightarrow> DiskTelemetry option" where
  "extractTelemetry smartData =
     (case smartData of None \<Rightarrow> None
      | Some d \<Rightarrow>
        (let t = empty_DiskTelemetry;
             t = (case so_Temperature d of
                    Some x \<Rightarrow> if Current x > 0 then t\<lparr>TemperatureCelsius := Some (Current x)\<rparr>
                      else (case so_NvmeSmart d of
                              Some n \<Rightarrow> if n_Temperature n > 0
                                then t\<lparr>TemperatureCelsius := Some (n_Temperature n)\<rparr> else t
                            | None \<Rightarrow> t)
                  | None \<Rightarrow> (case so_NvmeSmart d of
                      Some n \<Rightarrow> if n_Temperature n > 0
                        then t\<lparr>TemperatureCelsius := Some (n_Temperature n)\<rparr> else t
                    | None \<Rightarrow> t));
             t = (case so_PowerOnTime d of Some p \<Rightarrow> t\<lparr>PowerOnHours := Some (Hours p)\<rparr> | None \<Rightarrow> t);
             t = (case so_PowerCycleCount d of Some c \<Rightarrow> t\<lparr>PowerCycleCount := Some c\<rparr> | None \<Rightarrow> t);
             t = (case so_AtaSmartAttributes d of
                    Some ata \<Rightarrow> foldl scan_telemetry t (Table ata) | None \<Rightarrow> t);
             t = (case so_NvmeSmart d of
                    Some n \<Rightarrow> t\<lparr>PercentageUsed := Some (n_PercentageUsed n),
                      AvailableSpare := Some (n_AvailableSpare n),
                      CriticalWarning := Some (n_CriticalWarning n),
                      MediaErrors := Some (n_MediaErrors n)\<rparr>
                  | None \<Rightarrow> t)
         in Some t))"

subsection \<open>Health\<close>

fun health_condition_status :: "DiskHealthStatus \<Rightarrow> ConditionStatus" where
  "health_condition_status StatusUnknown = ConditionUnknown"
| "health_condition_status StatusGood = ConditionFalse"
| "health_condition_status _ = ConditionTrue"

definition with_condition ::
  "'a StatusEnv_scheme \<Rightarrow> PhysicalDisk \<Rightarrow> Condition \<Rightarrow> PhysicalDisk \<times> bool" where
  "with_condition m disk c =
     (let (cs, changed) = dm_SetStatusCondition m (Conditions (pd_Status disk)) c
      in (disk\<lparr>pd_Status := (pd_Status disk)\<lparr>Conditions := cs\<rparr>\<rparr>, changed))"

definition setHealth ::
  "'a StatusEnv_scheme \<Rightarrow> PhysicalDisk \<Rightarrow> DiskHealthStatus \<Rightarrow> PhysicalDisk \<times> effect list" where
  "setHealth m disk status =
     (let disk = disk\<lparr>pd_Status := (pd_Status disk)\<lparr>Health := status\<rparr>\<rparr>;
          conditionStatus = health_condition_status status;
          (disk, changed) = with_condition m disk
            (new_condition ConditionDegraded conditionStatus (status_string status)
              (''Disk health assessed as '' @ status_string status));
          path = di_Path (Info (pd_Status disk))
      in if \<not> changed then (disk, [])
         else (disk,
           case conditionStatus of
             ConditionTrue \<Rightarrow> recordEvent m disk WarningEvent (status_string status)
               (''Disk '' @ path @ '' is degraded: '' @ status_string status)
           | ConditionFalse \<Rightarrow> recordEvent m disk NormalEvent (status_string status)
               (''Disk '' @ path @ '' is healthy'')
           | ConditionUnknown \<Rightarrow> []))"

subsection \<open>Failed collections\<close>

text \<open>The cases of \<^verbatim>\<open>errors.Is\<close>: the reason and the message of a failed collection.\<close>

fun failure_reason :: "collect_error \<Rightarrow> string \<times> string" where
  "failure_reason DeviceInStandby = (ReasonSkippedStandby,
     ''Disk is in SLEEP or STANDBY mode; collection was skipped to preserve the power state'')"
| "failure_reason (DeviceNotFound rest) = (ReasonDiskMissing,
     ''Device is missing or unreadable: '' @ error_text (DeviceNotFound rest))"
| "failure_reason (SmartUnsupported rest) = (ReasonSmartUnsupported,
     ''SMART is unavailable or disabled on this device'')"
| "failure_reason e = (ReasonFailed, ''smartctl execution failed: '' @ error_text e)"

definition set_collection_success :: "'a StatusEnv_scheme \<Rightarrow> string \<Rightarrow> string \<Rightarrow> int \<Rightarrow> effect" where
  "set_collection_success m disk path x =
     Gauge (SetGauge CollectionSuccess_vec [node_of m, disk, path] x)"

definition applyCollectionFailure ::
  "'a StatusEnv_scheme \<Rightarrow> PhysicalDisk \<Rightarrow> DiskInfo \<Rightarrow> collect_error \<Rightarrow> PhysicalDisk \<times> effect list" where
  "applyCollectionFailure m disk diskInfo collectErr =
     (let log = [set_collection_success m (pd_Name disk) (di_Path diskInfo) 0];
          (reason, message) = failure_reason collectErr;
          (disk, changed) = with_condition m disk
            (new_condition ConditionDataCollected ConditionFalse reason message);
          log = log @ (if changed then recordEvent m disk WarningEvent reason message else [])
      in if Health (pd_Status disk) = StatusUnset
         then (let (disk, log') = setHealth m disk StatusUnknown in (disk, log @ log'))
         else (disk, log))"

subsection \<open>Published metrics\<close>

definition attribute_gauges :: "string list \<Rightarrow> AtaAttribute \<Rightarrow> gauge_op list" where
  "attribute_gauges labels attr =
     (let ls = labels @ [a_Name attr, itoa (a_ID attr)] in
      [SetGauge Attribute_vec (ls @ [''raw'']) (raw_Value (a_Raw attr)),
       SetGauge Attribute_vec (ls @ [''value'']) (a_Value attr),
       SetGauge Attribute_vec (ls @ [''worst'']) (a_Worst attr),
       SetGauge Attribute_vec (ls @ [''thresh'']) (a_Threshold attr)])"

definition nvme_gauges :: "string list \<Rightarrow> NvmeSmartHealth \<Rightarrow> gauge_op list" where
  "nvme_gauges labels n =
     [SetGauge PercentageUsed_vec labels (n_PercentageUsed n),
      SetGauge AvailableSpare_vec labels (n_AvailableSpare n),
      SetGauge AvailableSpareThreshold_vec labels (n_AvailableSpareThreshold n),
      SetGauge CriticalWarning_vec labels (n_CriticalWarning n),
      SetGauge MediaErrors_vec labels (n_MediaErrors n),
      SetGauge NumErrLogEntries_vec labels (n_NumErrLogEntries n)]"

definition opt_gauge :: "('a \<Rightarrow> 'b option) \<Rightarrow> 'a option \<Rightarrow> ('b \<Rightarrow> gauge_op) \<Rightarrow> gauge_op list" where
  "opt_gauge field t g =
     (case t of None \<Rightarrow> [] | Some x \<Rightarrow> (case field x of None \<Rightarrow> [] | Some v \<Rightarrow> [g v]))"

definition publishHealthMetrics ::
  "'a StatusEnv_scheme \<Rightarrow> PhysicalDisk \<Rightarrow> DiskInfo \<Rightarrow> SmartctlOutput \<Rightarrow> DiskHealthStatus \<Rightarrow> gauge_op list"
where
  "publishHealthMetrics m disk diskInfo smartData status =
     (let node = node_of m; diskName = pd_Name disk; devicePath = di_Path diskInfo;
          labels = [node, diskName, devicePath]; telemetry = Telemetry (pd_Status disk)
      in [SetGauge Device_vec [node, diskName, devicePath, dh_Type (so_Device smartData),
            Protocol (so_Device smartData), so_ModelFamily smartData, so_ModelName smartData,
            so_SerialNumber smartData, [], di_FirmwareVersion diskInfo, [], [], [], [], [], [], []] 1,
          SetGauge Version_vec
            [node, ''1'', SmartctlVersion (Version (so_Smartctl smartData)), [], []] 1,
          SetGauge SmartStatus_vec labels (if Passed (so_SmartStatus smartData) then 1 else 0)] @
         map (\<lambda>candidate. SetGauge HealthStatus_vec (labels @ [status_string candidate])
            (if candidate = status then 1 else 0)) AllDiskHealthStatuses @
         opt_gauge TemperatureCelsius telemetry
           (\<lambda>v. SetGauge Temperature_vec (labels @ [''current'']) v) @
         opt_gauge PowerOnHours telemetry (\<lambda>v. SetGauge PowerOnSeconds_vec labels (wrap64 (v * 3600))) @
         opt_gauge PowerCycleCount telemetry (\<lambda>v. SetGauge PowerCycleCount_vec labels v) @
         (case so_NvmeSmart smartData of None \<Rightarrow> [] | Some n \<Rightarrow> nvme_gauges labels n) @
         (case so_AtaSmartAttributes smartData of None \<Rightarrow> []
          | Some ata \<Rightarrow> concat (map (attribute_gauges labels) (Table ata))))"

subsection \<open>Successful collections\<close>

definition applyCollectionSuccess ::
  "'a StatusEnv_scheme \<Rightarrow> PhysicalDisk \<Rightarrow> DiskInfo \<Rightarrow> SmartctlOutput \<Rightarrow> PhysicalDisk \<times> effect list" where
  "applyCollectionSuccess m disk diskInfo smartData =
     (let log = [set_collection_success m (pd_Name disk) (di_Path diskInfo) 1];
          disk = disk\<lparr>pd_Status := (pd_Status disk)
            \<lparr>LastDataCollectedTime := Some (dm_Now m), Telemetry := extractTelemetry (Some smartData)\<rparr>\<rparr>;
          (disk, _) = with_condition m disk (new_condition ConditionDataCollected ConditionTrue
            ReasonSucceeded ''SMART data collected successfully'');
          assessmentResult = Evaluate (Some smartData);
          disk = disk\<lparr>pd_Status := (pd_Status disk)\<lparr>Findings := ar_Findings assessmentResult\<rparr>\<rparr>;
          (disk, log') = setHealth m disk (ar_Status assessmentResult)
      in (disk, log @ log' @
            map Gauge (publishHealthMetrics m disk diskInfo smartData (ar_Status assessmentResult))))"

subsection \<open>The condition list\<close>

text \<open>
  The documented behaviour of \<^verbatim>\<open>SetStatusCondition\<close>: the condition of the type gets the new status,
  reason and message, other conditions stay, and the result says whether something changed.
\<close>

definition same_content :: "Condition \<Rightarrow> Condition \<Rightarrow> bool" where
  "same_content c d \<longleftrightarrow> c_Type c = c_Type d \<and> c_Status c = c_Status d \<and>
     c_Reason c = c_Reason d \<and> c_Message c = c_Message d"

locale status_conditions =
  fixes setc :: "Condition list \<Rightarrow> Condition \<Rightarrow> Condition list \<times> bool"
  assumes set_content: "\<exists>d. find_condition (c_Type c) (fst (setc cs c)) = Some d \<and> same_content d c"
    and set_other: "t \<noteq> c_Type c \<Longrightarrow> find_condition t (fst (setc cs c)) = find_condition t cs"
    and set_changed: "snd (setc cs c) \<longleftrightarrow>
      (case find_condition (c_Type c) cs of None \<Rightarrow> True | Some d \<Rightarrow> \<not> same_content d c)"

text \<open>The update as a function of the list, with the time of the transition.\<close>

fun replace_condition :: "int \<Rightarrow> Condition list \<Rightarrow> Condition \<Rightarrow> Condition list" where
  "replace_condition now [] c = [c\<lparr>c_LastTransitionTime := now\<rparr>]"
| "replace_condition now (d # ds) c =
     (if c_Type d = c_Type c
      then c\<lparr>c_LastTransitionTime :=
          (if c_Status d = c_Status c then c_LastTransitionTime d else now)\<rparr> # ds
      else d # replace_condition now ds c)"

definition list_setc :: "int \<Rightarrow> Condition list \<Rightarrow> Condition \<Rightarrow> Condition list \<times> bool" where
  "list_setc now cs c = (replace_condition now cs c,
     case find_condition (c_Type c) cs of None \<Rightarrow> True | Some d \<Rightarrow> \<not> same_content d c)"

lemma find_replace:
  "find_condition t (replace_condition now cs c) =
    (if t = c_Type c then Some (c\<lparr>c_LastTransitionTime :=
       (case find_condition t cs of None \<Rightarrow> now
        | Some d \<Rightarrow> if c_Status d = c_Status c then c_LastTransitionTime d else now)\<rparr>)
     else find_condition t cs)"
  by (induction cs) (auto simp: find_condition_def)

interpretation list_conditions: status_conditions "list_setc now" for now
  by unfold_locales (auto simp: list_setc_def find_replace same_content_def)

subsection \<open>The health and its condition\<close>

definition degraded_condition :: "DiskHealthStatus \<Rightarrow> Condition" where
  "degraded_condition h = new_condition ConditionDegraded (health_condition_status h)
     (status_string h) (''Disk health assessed as '' @ status_string h)"

text \<open>
  The health determines the whole condition \<^verbatim>\<open>Degraded\<close>: the invariant of the API (\<open>health_in_sync\<close>)
  and in addition its status and message.
\<close>

definition degraded_in_sync :: "PhysicalDiskStatus \<Rightarrow> bool" where
  "degraded_in_sync st =
     (case find_condition ConditionDegraded (Conditions st) of
        None \<Rightarrow> Health st = StatusUnset
      | Some c \<Rightarrow> Health st \<noteq> StatusUnset \<and> same_content c (degraded_condition (Health st)))"

lemma degraded_health_in_sync: "degraded_in_sync st \<Longrightarrow> health_in_sync st"
  by (auto simp: degraded_in_sync_def health_in_sync_def same_content_def degraded_condition_def
      new_condition_def split: option.splits)

text \<open>The event that announces a new health.\<close>

definition health_event :: "'a StatusEnv_scheme \<Rightarrow> PhysicalDisk \<Rightarrow> DiskHealthStatus \<Rightarrow> effect list" where
  "health_event m disk s =
     (let path = di_Path (Info (pd_Status disk)) in
      case s of
        StatusUnknown \<Rightarrow> []
      | StatusGood \<Rightarrow> recordEvent m disk NormalEvent (status_string s) (''Disk '' @ path @ '' is healthy'')
      | _ \<Rightarrow> recordEvent m disk WarningEvent (status_string s)
          (''Disk '' @ path @ '' is degraded: '' @ status_string s))"

lemma new_condition_type [simp]: "c_Type (new_condition t s r msg) = t"
  by (simp add: new_condition_def)

lemma degraded_condition_type [simp]: "c_Type (degraded_condition h) = ConditionDegraded"
  by (simp add: degraded_condition_def)

lemma same_content_type: "same_content c d \<Longrightarrow> c_Type c = c_Type d"
  by (simp add: same_content_def)

lemma same_content_degraded: "same_content c (degraded_condition h) \<Longrightarrow>
    same_content c (degraded_condition s) \<longleftrightarrow> s = h"
  by (auto simp: same_content_def degraded_condition_def new_condition_def status_string_inj)

lemma with_condition_eq:
  "with_condition m disk c =
    (disk\<lparr>pd_Status := (pd_Status disk)
       \<lparr>Conditions := fst (dm_SetStatusCondition m (Conditions (pd_Status disk)) c)\<rparr>\<rparr>,
     snd (dm_SetStatusCondition m (Conditions (pd_Status disk)) c))"
  by (simp add: with_condition_def split: prod.split)

lemma recordEvent_cong: "pd_Name d = pd_Name e \<Longrightarrow> recordEvent m d = recordEvent m e"
  by (simp add: recordEvent_def fun_eq_iff)

lemma setHealth_fst:
  "fst (setHealth m disk s) = disk\<lparr>pd_Status := (pd_Status disk)\<lparr>Health := s, Conditions :=
     fst (dm_SetStatusCondition m (Conditions (pd_Status disk)) (degraded_condition s))\<rparr>\<rparr>"
  by (simp add: setHealth_def with_condition_eq degraded_condition_def Let_def)

lemma setHealth_snd:
  "snd (setHealth m disk s) =
    (if snd (dm_SetStatusCondition m (Conditions (pd_Status disk)) (degraded_condition s))
     then health_event m disk s else [])"
  by (cases s)
    (simp_all add: setHealth_def with_condition_eq degraded_condition_def Let_def health_event_def
      recordEvent_def)

definition data_condition :: "collect_error \<Rightarrow> Condition" where
  "data_condition e =
     new_condition ConditionDataCollected ConditionFalse (fst (failure_reason e)) (snd (failure_reason e))"

definition success_condition :: Condition where
  "success_condition = new_condition ConditionDataCollected ConditionTrue ReasonSucceeded
     ''SMART data collected successfully''"

lemma condition_types [simp]:
  "c_Type (data_condition e) = ConditionDataCollected"
  "c_Type success_condition = ConditionDataCollected"
  by (simp_all add: data_condition_def success_condition_def)

definition failed_disk :: "'a StatusEnv_scheme \<Rightarrow> PhysicalDisk \<Rightarrow> collect_error \<Rightarrow> PhysicalDisk" where
  "failed_disk m disk e = disk\<lparr>pd_Status := (pd_Status disk)
     \<lparr>Conditions := fst (dm_SetStatusCondition m (Conditions (pd_Status disk)) (data_condition e))\<rparr>\<rparr>"

lemma failure_fst:
  "fst (applyCollectionFailure m disk info e) =
    (if Health (pd_Status disk) = StatusUnset then fst (setHealth m (failed_disk m disk e) StatusUnknown)
     else failed_disk m disk e)"
  by (simp add: applyCollectionFailure_def with_condition_eq Let_def data_condition_def failed_disk_def
      split: prod.split)

definition assessed_disk :: "'a StatusEnv_scheme \<Rightarrow> PhysicalDisk \<Rightarrow> SmartctlOutput \<Rightarrow> PhysicalDisk" where
  "assessed_disk m disk out = disk\<lparr>pd_Status := (pd_Status disk)
     \<lparr>LastDataCollectedTime := Some (dm_Now m), Telemetry := extractTelemetry (Some out),
      Conditions := fst (dm_SetStatusCondition m (Conditions (pd_Status disk)) success_condition),
      Findings := ar_Findings (Evaluate (Some out))\<rparr>\<rparr>"

lemma success_fst:
  "fst (applyCollectionSuccess m disk info out) =
    fst (setHealth m (assessed_disk m disk out) (ar_Status (Evaluate (Some out))))"
  by (simp add: applyCollectionSuccess_def with_condition_eq Let_def success_condition_def
      assessed_disk_def split: prod.split)

lemma success_snd:
  "snd (applyCollectionSuccess m disk info out) =
    (let status = ar_Status (Evaluate (Some out));
         d = setHealth m (assessed_disk m disk out) status
     in [set_collection_success m (pd_Name disk) (di_Path info) 1] @ snd d @
        map Gauge (publishHealthMetrics m (fst d) info out status))"
  by (simp add: applyCollectionSuccess_def with_condition_eq Let_def success_condition_def
      assessed_disk_def split: prod.split)

lemma Evaluate_status: "StatusGood \<le> ar_Status (Evaluate (Some d))"
proof -
  have "ar_Status (Evaluate (Some d)) = Max (indications d)"
    by (cases "uses_ata_cascade d") (simp_all add: status_ata status_not_ata)
  moreover have "StatusGood \<in> indications d" by (simp add: indications_def)
  ultimately show ?thesis by (simp add: Max_ge)
qed

lemma Evaluate_assessed [simp]:
  "ar_Status (Evaluate (Some d)) \<noteq> StatusUnset" "ar_Status (Evaluate (Some d)) \<noteq> StatusUnknown"
  using Evaluate_status [of d] by (auto simp: status_order)

subsection \<open>A monitor with the library's conditions\<close>

locale status_monitor =
  fixes m :: "'a StatusEnv_scheme"
  assumes conditions: "status_conditions (dm_SetStatusCondition m)"

sublocale status_monitor \<subseteq> status_conditions "dm_SetStatusCondition m"
  by (rule conditions)

context status_monitor
begin

lemma setHealth_in_sync:
  "s \<noteq> StatusUnset \<Longrightarrow> degraded_in_sync (pd_Status (fst (setHealth m disk s)))"
  using set_content [of "degraded_condition s" "Conditions (pd_Status disk)"]
  by (auto simp: setHealth_fst degraded_in_sync_def)

lemma other_condition_in_sync:
  "c_Type c \<noteq> ConditionDegraded \<Longrightarrow>
   degraded_in_sync (st\<lparr>Conditions := fst (dm_SetStatusCondition m (Conditions st) c)\<rparr>) =
     degraded_in_sync st"
  using set_other [of ConditionDegraded c "Conditions st"]
  by (simp add: degraded_in_sync_def cong: option.case_cong)

lemma failed_disk_in_sync:
  "degraded_in_sync (pd_Status (failed_disk m disk e)) = degraded_in_sync (pd_Status disk)"
  by (simp add: failed_disk_def other_condition_in_sync)

lemma failure_in_sync:
  "degraded_in_sync (pd_Status disk) \<Longrightarrow>
   degraded_in_sync (pd_Status (fst (applyCollectionFailure m disk info e)))"
  by (simp add: failure_fst setHealth_in_sync failed_disk_in_sync)

lemma failure_health_in_sync:
  assumes "health_in_sync (pd_Status disk)"
  shows "health_in_sync (pd_Status (fst (applyCollectionFailure m disk info e)))"
proof (cases "Health (pd_Status disk) = StatusUnset")
  case True
  then show ?thesis by (simp add: failure_fst setHealth_in_sync degraded_health_in_sync)
next
  case False
  then show ?thesis
    using assms set_other [of ConditionDegraded "data_condition e" "Conditions (pd_Status disk)"]
    by (simp add: failure_fst failed_disk_def health_in_sync_def cong: option.case_cong)
qed

lemma success_in_sync:
  "degraded_in_sync (pd_Status (fst (applyCollectionSuccess m disk info out)))"
  by (simp add: success_fst setHealth_in_sync)

lemma data_collected_failure:
  "\<exists>c. find_condition ConditionDataCollected
       (Conditions (pd_Status (fst (applyCollectionFailure m disk info e)))) = Some c \<and>
     same_content c (data_condition e)"
  using set_content [of "data_condition e" "Conditions (pd_Status disk)"]
  by (simp add: failure_fst setHealth_fst failed_disk_def set_other)

lemma data_collected_success:
  "\<exists>c. find_condition ConditionDataCollected
       (Conditions (pd_Status (fst (applyCollectionSuccess m disk info out)))) = Some c \<and>
     same_content c success_condition"
  using set_content [of success_condition "Conditions (pd_Status disk)"]
  by (simp add: success_fst setHealth_fst assessed_disk_def set_other)

end

text \<open>A monitor whose condition list is \<open>list_setc\<close>.\<close>

definition list_env :: "MonitorOptions \<Rightarrow> bool \<Rightarrow> int \<Rightarrow> StatusEnv" where
  "list_env opts recorder now = \<lparr>dm_Options = opts, dm_Recorder = recorder,
     dm_SetStatusCondition = list_setc now, dm_Now = now\<rparr>"

interpretation list_env: status_monitor "list_env opts recorder now" for opts recorder now
  by (rule status_monitor.intro) (simp add: list_env_def list_conditions.status_conditions_axioms)

subsection \<open>The series of a publication\<close>

lemma publish_labelled: "list_all well_labelled (publishHealthMetrics m disk info out status)"
proof -
  have ata: "list_all well_labelled (concat (map (attribute_gauges [a, b, c]) as))" for a b c as
    by (induction as) (simp_all add: attribute_gauges_def Let_def device_gauge_def)
  show ?thesis
    using ata
    by (auto simp: publishHealthMetrics_def Let_def nvme_gauges_def device_gauge_def list_all_iff
        opt_gauge_def split: option.splits)
qed

subsection \<open>Telemetry without the loop\<close>

definition positive :: "int \<Rightarrow> int option" where
  "positive x = (if x > 0 then Some x else None)"

definition or_else :: "'a option \<Rightarrow> 'a option \<Rightarrow> 'a option" where
  "or_else x y = (case x of None \<Rightarrow> y | Some v \<Rightarrow> Some v)"

text \<open>The raw values of the attributes with an id among \<open>ids\<close>, in table order.\<close>

definition raws :: "int list \<Rightarrow> AtaAttribute list \<Rightarrow> int list" where
  "raws ids as = map (\<lambda>a. raw_Value (a_Raw a)) (filter (\<lambda>a. List.member ids (a_ID a)) as)"

fun first_positive :: "int list \<Rightarrow> int option" where
  "first_positive [] = None"
| "first_positive (x # xs) = (if x > 0 then Some x else first_positive xs)"

fun last_value :: "int list \<Rightarrow> int option" where
  "last_value [] = None"
| "last_value (x # xs) = or_else (last_value xs) (Some x)"

lemma or_else_simps [simp]:
  "or_else None y = y" "or_else (Some v) y = Some v" "or_else x None = x"
  by (simp_all add: or_else_def split: option.split)

lemma or_else_assoc: "or_else (or_else x y) z = or_else x (or_else y z)"
  by (simp add: or_else_def split: option.split)

lemma scan_telemetry_fold:
  "foldl scan_telemetry t as = t\<lparr>
     TemperatureCelsius := or_else (TemperatureCelsius t) (first_positive (raws [194, 190] as)),
     PowerOnHours := or_else (PowerOnHours t) (first_positive (raws [9] as)),
     PowerCycleCount := or_else (PowerCycleCount t) (first_positive (raws [12] as)),
     ReallocatedSectors := or_else (last_value (raws [5] as)) (ReallocatedSectors t),
     PendingSectors := or_else (last_value (raws [197] as)) (PendingSectors t)\<rparr>"
proof (induction as arbitrary: t)
  case Nil
  show ?case by (simp add: raws_def)
next
  case (Cons a as)
  show ?case
    unfolding foldl_Cons Cons.IH
    by (cases "TemperatureCelsius t"; cases "PowerOnHours t"; cases "PowerCycleCount t")
      (simp_all add: scan_telemetry_def raws_def Let_def or_else_assoc)
qed

text \<open>The attributes that the telemetry falls back to.\<close>

definition fallback :: "SmartctlOutput \<Rightarrow> int list \<Rightarrow> int list" where
  "fallback d ids = (case so_AtaSmartAttributes d of None \<Rightarrow> [] | Some ata \<Rightarrow> raws ids (Table ata))"

definition telemetry_of :: "SmartctlOutput \<Rightarrow> DiskTelemetry" where
  "telemetry_of d =
     (let nvme = (\<lambda>f. map_option f (so_NvmeSmart d)) in
      \<lparr>TemperatureCelsius =
         or_else (Option.bind (so_Temperature d) (\<lambda>x. positive (Current x)))
           (or_else (Option.bind (so_NvmeSmart d) (\<lambda>n. positive (n_Temperature n)))
             (first_positive (fallback d [194, 190]))),
       PowerOnHours =
         or_else (map_option Hours (so_PowerOnTime d)) (first_positive (fallback d [9])),
       PowerCycleCount = or_else (so_PowerCycleCount d) (first_positive (fallback d [12])),
       ReallocatedSectors = last_value (fallback d [5]),
       PendingSectors = last_value (fallback d [197]),
       PercentageUsed = nvme n_PercentageUsed,
       AvailableSpare = nvme n_AvailableSpare,
       CriticalWarning = nvme n_CriticalWarning,
       MediaErrors = nvme n_MediaErrors\<rparr>)"

subsection \<open>Events and published series\<close>

fun is_event :: "effect \<Rightarrow> bool" where
  "is_event (RecordedEvent _ _ _ _) = True"
| "is_event (Gauge _) = False"

fun gauge_ops :: "effect list \<Rightarrow> gauge_op list" where
  "gauge_ops [] = []"
| "gauge_ops (Gauge op # log) = op # gauge_ops log"
| "gauge_ops (RecordedEvent _ _ _ _ # log) = gauge_ops log"

definition recorded_events :: "effect list \<Rightarrow> effect list" where
  "recorded_events log = filter is_event log"

lemma gauge_ops_append [simp]: "gauge_ops (xs @ ys) = gauge_ops xs @ gauge_ops ys"
  by (induction xs rule: gauge_ops.induct) simp_all

lemma gauge_ops_map [simp]: "gauge_ops (map Gauge ops) = ops"
  by (induction ops) simp_all

lemma recorded_events_simps [simp]:
  "recorded_events [] = []"
  "recorded_events (xs @ ys) = recorded_events xs @ recorded_events ys"
  "recorded_events (map Gauge ops) = []"
  "recorded_events (set_collection_success m d path x # xs) = recorded_events xs"
  by (simp_all add: recorded_events_def filter_empty_conv set_collection_success_def)

lemma recordEvent_effects [simp]:
  "recorded_events (recordEvent m d t r msg) = recordEvent m d t r msg"
  "gauge_ops (recordEvent m d t r msg) = []"
  by (simp_all add: recordEvent_def recorded_events_def)

lemma health_event_effects [simp]:
  "recorded_events (health_event m d s) = health_event m d s"
  "gauge_ops (health_event m d s) = []"
  by (simp_all add: health_event_def Let_def split: DiskHealthStatus.split)

lemma health_event_cong:
  "pd_Name d = pd_Name e \<Longrightarrow> Info (pd_Status d) = Info (pd_Status e) \<Longrightarrow>
   health_event m d s = health_event m e s"
  by (cases s) (simp_all add: health_event_def recordEvent_def)

definition data_condition_changes :: "'a StatusEnv_scheme \<Rightarrow> PhysicalDisk \<Rightarrow> collect_error \<Rightarrow> bool" where
  "data_condition_changes m disk e =
     (case find_condition ConditionDataCollected (Conditions (pd_Status disk)) of
        None \<Rightarrow> True | Some c \<Rightarrow> \<not> same_content c (data_condition e))"

lemma failure_snd:
  "snd (applyCollectionFailure m disk info e) =
    [set_collection_success m (pd_Name disk) (di_Path info) 0] @
    (if snd (dm_SetStatusCondition m (Conditions (pd_Status disk)) (data_condition e))
     then recordEvent m disk WarningEvent (fst (failure_reason e)) (snd (failure_reason e)) else [])"
  by (auto simp: applyCollectionFailure_def with_condition_eq Let_def data_condition_def
      setHealth_snd health_event_def recordEvent_def split: prod.split)
    (auto simp: setHealth_def with_condition_eq Let_def split: if_splits)

text \<open>Whether the stored condition Degraded is already the one of a health.\<close>

definition announced :: "PhysicalDiskStatus \<Rightarrow> DiskHealthStatus \<Rightarrow> bool" where
  "announced st s \<longleftrightarrow>
     (\<exists>c. find_condition ConditionDegraded (Conditions st) = Some c \<and> same_content c (degraded_condition s))"

lemma announced_in_sync: "degraded_in_sync st \<Longrightarrow> s \<noteq> StatusUnset \<Longrightarrow> announced st s \<longleftrightarrow> s = Health st"
  by (auto simp: announced_def degraded_in_sync_def same_content_degraded split: option.splits)

context status_monitor
begin

lemma set_announces:
  "snd (dm_SetStatusCondition m cs (degraded_condition s)) \<longleftrightarrow>
   \<not> (\<exists>c. find_condition ConditionDegraded cs = Some c \<and> same_content c (degraded_condition s))"
  by (auto simp: set_changed split: option.splits)

lemma success_events:
  "recorded_events (snd (applyCollectionSuccess m disk info out)) =
    (let s = ar_Status (Evaluate (Some out)) in
     if announced (pd_Status disk) s then [] else health_event m disk s)"
proof -
  have "find_condition ConditionDegraded (Conditions (pd_Status (assessed_disk m disk out))) =
      find_condition ConditionDegraded (Conditions (pd_Status disk))"
    by (simp add: assessed_disk_def set_other)
  then have "snd (setHealth m (assessed_disk m disk out) s) =
      (if announced (pd_Status disk) s then [] else health_event m (assessed_disk m disk out) s)" for s
    by (simp only: setHealth_snd set_announces announced_def if_not_P if_P not_not split: if_split) blast
  moreover have "health_event m (assessed_disk m disk out) s = health_event m disk s" for s
    by (rule health_event_cong) (simp_all add: assessed_disk_def)
  ultimately show ?thesis by (simp add: success_snd Let_def)
qed

lemma failure_events:
  "recorded_events (snd (applyCollectionFailure m disk info e)) =
    (if data_condition_changes m disk e
     then recordEvent m disk WarningEvent (fst (failure_reason e)) (snd (failure_reason e)) else [])"
  by (simp add: failure_snd set_changed data_condition_changes_def)

end

subsection \<open>The active health series\<close>

text \<open>What is published before and after the health series.\<close>

definition publish_head ::
  "'a StatusEnv_scheme \<Rightarrow> PhysicalDisk \<Rightarrow> DiskInfo \<Rightarrow> SmartctlOutput \<Rightarrow> gauge_op list" where
  "publish_head m disk info out = take 3 (publishHealthMetrics m disk info out StatusUnset)"

definition publish_tail ::
  "'a StatusEnv_scheme \<Rightarrow> PhysicalDisk \<Rightarrow> DiskInfo \<Rightarrow> SmartctlOutput \<Rightarrow> gauge_op list" where
  "publish_tail m disk info out = drop 10 (publishHealthMetrics m disk info out StatusUnset)"

lemma publish_tail_untouched:
  "list_all (\<lambda>op. \<not> touches op HealthStatus_vec ws) (publish_tail m disk info out)"
proof -
  have "list_all (\<lambda>op. \<not> touches op HealthStatus_vec ws) (concat (map (attribute_gauges ls) as))" for ls as
    by (induction as) (simp_all add: attribute_gauges_def Let_def)
  then show ?thesis
    by (auto simp: publish_tail_def publishHealthMetrics_def Let_def AllDiskHealthStatuses_def
        nvme_gauges_def opt_gauge_def split: option.split)
qed

context gauge_registry
begin

lemma read_set_list:
  "distinct (map key xs) \<Longrightarrow> y \<in> set xs \<Longrightarrow>
   g_Read G (run_gauges G (map (\<lambda>x. SetGauge v (key x) (val x)) xs) r) v (key y) = Some (val y)"
proof (induction xs arbitrary: r)
  case (Cons x xs)
  show ?case
  proof (cases "y \<in> set xs")
    case True
    with Cons show ?thesis by (simp add: run_gauges_Cons)
  next
    case False
    with Cons.prems have "y = x" by simp
    moreover from this Cons.prems have
      "list_all (\<lambda>op. \<not> touches op v (key y)) (map (\<lambda>x. SetGauge v (key x) (val x)) xs)"
      by (auto simp: list_all_iff)
    ultimately show ?thesis by (simp add: run_gauges_Cons read_untouched read_set)
  qed
qed simp

lemma read_published:
  assumes "s \<noteq> StatusUnset"
  shows "g_Read G (run_gauges G (publishHealthMetrics m disk info out status) r) HealthStatus_vec
      [node_of m, pd_Name disk, di_Path info, status_string s] = Some (if s = status then 1 else 0)"
proof -
  let ?ls = "[node_of m, pd_Name disk, di_Path info]"
  let ?key = "\<lambda>c. ?ls @ [status_string c]" and ?val = "\<lambda>c. (if c = status then 1 else 0) :: int"
  let ?health = "map (\<lambda>c. SetGauge HealthStatus_vec (?key c) (?val c)) AllDiskHealthStatuses"
  obtain pre post where split: "publishHealthMetrics m disk info out status = pre @ ?health @ post"
    and post: "list_all (\<lambda>op. \<not> touches op HealthStatus_vec (?key s)) post"
  proof
    show "publishHealthMetrics m disk info out status =
      publish_head m disk info out @ ?health @ publish_tail m disk info out"
      by (simp add: publishHealthMetrics_def publish_head_def publish_tail_def Let_def
          AllDiskHealthStatuses_def)
    show "list_all (\<lambda>op. \<not> touches op HealthStatus_vec (?key s)) (publish_tail m disk info out)"
      by (rule publish_tail_untouched)
  qed
  have "distinct (map ?key AllDiskHealthStatuses)"
    by (simp add: AllDiskHealthStatuses_def)
  moreover have "s \<in> set AllDiskHealthStatuses" using assms by (simp add: all_statuses_complete)
  ultimately have "g_Read G (run_gauges G ?health (run_gauges G pre r)) HealthStatus_vec (?key s) =
      Some (?val s)"
    by (rule read_set_list)
  then show ?thesis using split post by (simp add: read_untouched)
qed

end

subsection \<open>Properties\<close>

text \<open>
  C21: the invariant that the API states, that the health is the reason of the condition Degraded,
  holds after every successful collection, whatever the status was before, and every failed one
  keeps it; so does the stronger invariant on the status and the message of the condition.
\<close>

theorem collection_keeps_health_in_sync:
  assumes "status_monitor m"
  shows "degraded_in_sync (pd_Status (fst (applyCollectionSuccess m disk info out))) \<and>
    health_in_sync (pd_Status (fst (applyCollectionSuccess m disk info out))) \<and>
    (degraded_in_sync (pd_Status disk) \<longrightarrow>
      degraded_in_sync (pd_Status (fst (applyCollectionFailure m disk info e)))) \<and>
    (health_in_sync (pd_Status disk) \<longrightarrow>
      health_in_sync (pd_Status (fst (applyCollectionFailure m disk info e))))"
  using status_monitor.success_in_sync [OF assms] status_monitor.failure_in_sync [OF assms]
    status_monitor.failure_health_in_sync [OF assms]
  by (simp add: degraded_health_in_sync)

definition sample_options :: MonitorOptions where
  "sample_options = \<lparr>mo_NodeName = ''node1'', mo_SysDir = [], mo_UdevDataDir = [],
     mo_PollInterval = 10 * Minute, mo_EventDebounce = Second, mo_ExcludeRules = []\<rparr>"

definition sample_env :: StatusEnv where
  "sample_env = list_env sample_options True 100"

definition new_disk :: PhysicalDisk where
  "new_disk = \<lparr>pd_Name = ''node1-0x5000'', pd_Labels = Map.empty, pd_OwnerReferences = [],
     pd_Generation = 1, pd_ResourceVersion = [],
     pd_Spec = \<lparr>NodeName = ''node1'', Smartmontools = None\<rparr>, pd_Status = empty_PhysicalDiskStatus\<rparr>"

definition sample_info :: DiskInfo where
  "sample_info = empty_DiskInfo\<lparr>di_Path := ''/dev/disk/by-id/wwn-0x5000'', di_Name := ''sda''\<rparr>"

definition healthy_output :: SmartctlOutput where
  "healthy_output = \<lparr>so_Smartctl = \<lparr>Version = [7, 4], ExitStatus = 0, Messages = []\<rparr>,
     so_Device = \<lparr>dh_Name = ''/dev/sda'', dh_InfoName = [], dh_Type = ''sat'', Protocol = ''ATA''\<rparr>,
     so_ModelFamily = [], so_ModelName = ''MODEL'', so_SerialNumber = ''S1'', so_FirmwareVersion = ''FW1'',
     so_SmartStatus = \<lparr>Passed = True\<rparr>, so_SmartSupport = None,
     so_Temperature = Some \<lparr>Current = 35\<rparr>, so_PowerOnTime = Some \<lparr>Hours = 1000\<rparr>,
     so_PowerCycleCount = Some 7, so_RotationRate = 7200,
     so_AtaSmartAttributes = Some \<lparr>Revision = 1, Table = []\<rparr>, so_NvmeSmart = None,
     so_ScsiErrorLog = None\<rparr>"

lemma sample_monitor: "status_monitor sample_env"
  unfolding sample_env_def by (rule list_env.status_monitor_axioms)

lemma new_disk_in_sync: "degraded_in_sync (pd_Status new_disk)"
  by (simp add: degraded_in_sync_def new_disk_def empty_PhysicalDiskStatus_def)

theorem collection_keeps_health_in_sync_witness:
  "health_in_sync (pd_Status (fst (applyCollectionFailure sample_env new_disk sample_info DeviceInStandby)))"
  using collection_keeps_health_in_sync [OF sample_monitor] degraded_health_in_sync [OF new_disk_in_sync] by blast

text \<open>
  C19: a health transition is announced exactly once: a successful collection records an event (if the
  monitor has a recorder) if and only if the stored condition Degraded is not yet the one of the
  assessed status, and that event is the one of the new status; when the stored health agrees with
  the stored condition, this is so if and only if the assessed status differs from the stored
  health.  A failed collection never announces a health, only a change of the condition
  DataCollected.
\<close>

theorem health_transition_events:
  assumes "status_monitor m"
  shows "let s = ar_Status (Evaluate (Some out)) in
    recorded_events (snd (applyCollectionSuccess m disk info out)) =
      (if announced (pd_Status disk) s then [] else health_event m disk s) \<and>
    (degraded_in_sync (pd_Status disk) \<longrightarrow>
      recorded_events (snd (applyCollectionSuccess m disk info out)) =
        (if s = Health (pd_Status disk) then [] else health_event m disk s)) \<and>
    recorded_events (snd (applyCollectionFailure m disk info e)) =
      (if data_condition_changes m disk e
       then recordEvent m disk WarningEvent (fst (failure_reason e)) (snd (failure_reason e)) else [])"
  using status_monitor.success_events [OF assms] status_monitor.failure_events [OF assms]
  by (simp add: Let_def announced_in_sync)

theorem health_transition_events_witness:
  "recorded_events (snd (applyCollectionSuccess sample_env new_disk sample_info healthy_output)) =
    [RecordedEvent ''node1-0x5000'' NormalEvent ''Good'' ''Disk  is healthy'']"
proof -
  have good: "ar_Status (Evaluate (Some healthy_output)) = StatusGood" by code_simp
  show ?thesis
    using health_transition_events [OF sample_monitor, of healthy_output new_disk sample_info,
        unfolded Let_def, THEN conjunct2, THEN conjunct1, THEN mp, OF new_disk_in_sync]
    by (simp add: good)
      (simp add: health_event_def recordEvent_def sample_env_def list_env_def new_disk_def
        empty_PhysicalDiskStatus_def empty_DiskInfo_def)
qed

text \<open>
  C20: a failed collection says nothing about the hardware: findings, telemetry, inventory data and
  the time of the last collection stay, and so does the health unless the disk was never assessed,
  which makes it Unknown.  The condition DataCollected becomes false with the reason of the error.
\<close>

theorem failure_preserves_assessment:
  assumes "status_monitor m"
  shows "let st = pd_Status disk; st' = pd_Status (fst (applyCollectionFailure m disk info e)) in
    Findings st' = Findings st \<and> Telemetry st' = Telemetry st \<and> Info st' = Info st \<and>
    LastDataCollectedTime st' = LastDataCollectedTime st \<and>
    Health st' = (if Health st = StatusUnset then StatusUnknown else Health st) \<and>
    map_option (\<lambda>c. (c_Status c, c_Reason c)) (find_condition ConditionDataCollected (Conditions st')) =
      Some (ConditionFalse, fst (failure_reason e))"
proof -
  obtain c where "find_condition ConditionDataCollected
      (Conditions (pd_Status (fst (applyCollectionFailure m disk info e)))) = Some c"
    and "same_content c (data_condition e)"
    using status_monitor.data_collected_failure [OF assms] by blast
  then show ?thesis
    by (simp add: Let_def same_content_def data_condition_def new_condition_def)
      (simp add: failure_fst failed_disk_def setHealth_fst)
qed

theorem failure_preserves_assessment_witness:
  "Health (pd_Status (fst (applyCollectionFailure sample_env new_disk sample_info DeviceInStandby))) =
    StatusUnknown"
  using failure_preserves_assessment [OF sample_monitor, of new_disk sample_info DeviceInStandby]
  by (simp add: Let_def new_disk_def empty_PhysicalDiskStatus_def)

text \<open>
  A successful collection replaces health, findings and telemetry by those of the output, sets
  the time, and makes the condition DataCollected true.
\<close>

theorem success_updates_status:
  assumes "status_monitor m"
  shows "let st' = pd_Status (fst (applyCollectionSuccess m disk info out)) in
    Health st' = ar_Status (Evaluate (Some out)) \<and> Findings st' = ar_Findings (Evaluate (Some out)) \<and>
    Telemetry st' = extractTelemetry (Some out) \<and> LastDataCollectedTime st' = Some (dm_Now m) \<and>
    Info st' = Info (pd_Status disk) \<and>
    map_option (\<lambda>c. (c_Status c, c_Reason c)) (find_condition ConditionDataCollected (Conditions st')) =
      Some (ConditionTrue, ReasonSucceeded)"
proof -
  obtain c where "find_condition ConditionDataCollected
      (Conditions (pd_Status (fst (applyCollectionSuccess m disk info out)))) = Some c"
    and "same_content c success_condition"
    using status_monitor.data_collected_success [OF assms] by blast
  then show ?thesis
    by (simp add: Let_def same_content_def success_condition_def new_condition_def)
      (simp add: success_fst assessed_disk_def setHealth_fst)
qed

theorem success_updates_status_witness:
  "LastDataCollectedTime (pd_Status (fst (applyCollectionSuccess sample_env new_disk sample_info
    healthy_output))) = Some 100"
  using success_updates_status [OF sample_monitor, of new_disk sample_info healthy_output]
  by (simp add: Let_def sample_env_def list_env_def)

text \<open>
  C23: the telemetry, computed by a loop over the attribute table, is the preferred source that is
  present: the normalized value first, then NVMe, then the first positive raw value of the
  attribute; sector counts are the last raw values of attributes 5 and 197.
\<close>

theorem extractTelemetry_spec: "extractTelemetry (Some d) = Some (telemetry_of d)"
  by (cases "so_Temperature d"; cases "so_NvmeSmart d"; cases "so_AtaSmartAttributes d";
      cases "so_PowerOnTime d"; cases "so_PowerCycleCount d")
    (simp_all add: extractTelemetry_def telemetry_of_def Let_def scan_telemetry_fold fallback_def
      empty_DiskTelemetry_def positive_def map_option_case)

text \<open>
  C22: every gauge operation of a publication supplies as many label values as its vector has
  labels, so none panics, and afterwards exactly the health series of the reported status is 1
  and those of all other statuses are 0.
\<close>

theorem publish_one_active_health:
  assumes "gauge_registry G" and "s \<noteq> StatusUnset"
  shows "list_all well_labelled (publishHealthMetrics m disk info out status) \<and>
    g_Read G (run_gauges G (publishHealthMetrics m disk info out status) r) HealthStatus_vec
      [node_of m, pd_Name disk, di_Path info, status_string s] = Some (if s = status then 1 else 0)"
  using publish_labelled gauge_registry.read_published [OF assms] by blast

theorem publish_one_active_health_witness:
  "g_Read map_gauges (run_gauges map_gauges (publishHealthMetrics sample_env new_disk sample_info
      healthy_output StatusGood) Map.empty) HealthStatus_vec
      [node_of sample_env, pd_Name new_disk, di_Path sample_info, status_string StatusSectorErrors] =
    Some (if StatusSectorErrors = StatusGood then 1 else 0)"
  by (rule conjunct2 [OF publish_one_active_health [OF map_gauges.gauge_registry_axioms]]) simp

end
