(* ===== verification/Labels.thy ===== *)
theory Labels
  imports Prelude "HOL-Library.Word"
begin

text \<open>
  \<^verbatim>\<open>MustFormatValue\<close> (\<^verbatim>\<open>pkg/utils/labels.go\<close>) and the constants of \<^verbatim>\<open>pkg/utils/constants.go\<close>.
  FNV-1a (\<^verbatim>\<open>hash/fnv\<close>) works on 32-bit words, \<^verbatim>\<open>encoding/base64\<close> on groups of three bytes.  The
  validation of label values belongs to Kubernetes: it is the parameter \<open>IsValidLabelValue\<close> of
  the locale \<open>label_validation\<close>, whose law is the documented syntax of label values.
\<close>

subsection \<open>The code\<close>

definition label_prefix :: string where
  "label_prefix = ''node-disk-sentinel.org''"

definition AppName :: string where
  "AppName = ''node-disk-sentinel''"

definition LabelNodeName :: string where
  "LabelNodeName = label_prefix @ ''/node-name''"

definition fnv32a :: "string \<Rightarrow> 32 word" where
  "fnv32a s = fold (\<lambda>c h. (h XOR word_of_nat (byte c)) * 16777619) s 2166136261"

definition sum_bytes :: "32 word \<Rightarrow> nat list" where
  "sum_bytes h = map (\<lambda>i. unat (drop_bit (8 * i) h AND 255)) [3, 2, 1, 0]"

text \<open>The digit of the URL alphabet.\<close>

definition base64_digit :: "nat \<Rightarrow> char" where
  "base64_digit d = (if d < 26 then char_of (65 + d) else if d < 52 then char_of (97 + (d - 26))
     else if d < 62 then char_of (48 + (d - 52)) else if d = 62 then CHR ''-'' else CHR ''_'')"

fun base64_url :: "nat list \<Rightarrow> string" where
  "base64_url [] = []"
| "base64_url [a] = [base64_digit (a div 4), base64_digit (a mod 4 * 16)]"
| "base64_url [a, b] = [base64_digit (a div 4), base64_digit (a mod 4 * 16 + b div 16),
     base64_digit (b mod 16 * 4)]"
| "base64_url (a # b # c # rest) = [base64_digit (a div 4), base64_digit (a mod 4 * 16 + b div 16),
     base64_digit (b mod 16 * 4 + c div 64), base64_digit (c mod 64)] @ base64_url rest"

definition MustFormatValue :: "(string \<Rightarrow> string list) \<Rightarrow> string \<Rightarrow> string" where
  "MustFormatValue IsValidLabelValue str =
     (if length (IsValidLabelValue str) = 0 then str
      else ''hash_'' @ base64_url (sum_bytes (fnv32a str)) @ ''_z'')"

subsection \<open>The syntax of label values\<close>

definition label_char :: "char \<Rightarrow> bool" where
  "label_char c \<longleftrightarrow> is_alnum c \<or> c = CHR ''-'' \<or> c = CHR ''_'' \<or> c = CHR ''.''"

definition label_value_syntax :: "string \<Rightarrow> bool" where
  "label_value_syntax s \<longleftrightarrow> length s \<le> 63 \<and>
     (s = [] \<or> (is_alnum (hd s) \<and> is_alnum (last s) \<and> list_all label_char s))"

lemma base64_digit_label: "d < 64 \<Longrightarrow> label_char (base64_digit d)"
  by (auto simp: label_char_def base64_digit_def is_alnum_def is_lower_alnum_def)

lemma fnv_label_chars: "list_all label_char (base64_url (sum_bytes h))"
  and fnv_label_length: "length (base64_url (sum_bytes h)) = 6"
proof -
  have byte: "unat (w AND 255) < 256" for w :: "32 word"
  proof -
    have "unat (w AND 255) \<le> unat (255 :: 32 word)"
      by (rule word_and_le1 [THEN word_le_nat_alt [THEN iffD1]])
    then show ?thesis by simp
  qed
  have d: "a div 4 < 64" if "a < (256::nat)" for a using that by linarith
  have e: "a mod 4 * 16 + b div 16 < 64" if "b < (256::nat)" for a b
    using that mod_less_divisor [of 4 a] by linarith
  have f: "b mod 16 * 4 + c div 64 < 64" if "c < (256::nat)" for b c
    using that mod_less_divisor [of 16 b] by linarith
  have g: "a mod 4 * 16 < (64::nat)" for a using mod_less_divisor [of 4 a] by linarith
  show "list_all label_char (base64_url (sum_bytes h))"
    by (simp add: sum_bytes_def base64_digit_label byte d e f g)
  show "length (base64_url (sum_bytes h)) = 6"
    by (simp add: sum_bytes_def)
qed

lemma hashed_value_syntax:
  "label_value_syntax (''hash_'' @ base64_url (sum_bytes h) @ ''_z'')"
  by (simp add: label_value_syntax_def fnv_label_chars fnv_label_length label_char_def is_alnum_def
      is_lower_alnum_def)

locale label_validation =
  fixes IsValidLabelValue :: "string \<Rightarrow> string list"
  assumes accepts: "label_value_syntax s \<Longrightarrow> IsValidLabelValue s = []"
begin

lemma formatted_valid: "IsValidLabelValue (MustFormatValue IsValidLabelValue s) = []"
  unfolding MustFormatValue_def using accepts [OF hashed_value_syntax, of "fnv32a s"] by simp

lemma formatted_fixed: "MustFormatValue IsValidLabelValue
    (MustFormatValue IsValidLabelValue s) = MustFormatValue IsValidLabelValue s"
  using formatted_valid [of s] by (simp add: MustFormatValue_def [of _ "MustFormatValue _ _"])

end

text \<open>The documented rule as a function: the instance for which the law is proved.\<close>

definition label_value_errors :: "string \<Rightarrow> string list" where
  "label_value_errors s = (if label_value_syntax s then [] else [''invalid label value''])"

interpretation label_rule: label_validation label_value_errors
  by unfold_locales (simp add: label_value_errors_def)

subsection \<open>Properties\<close>

text \<open>
  C38: the formatted value of every string, however long, is accepted as a label value, a valid
  value is returned unchanged, and formatting twice is formatting once.
\<close>

theorem MustFormatValue_valid:
  assumes "label_validation V"
  shows "V (MustFormatValue V s) = [] \<and>
    MustFormatValue V s = (if V s = [] then s else MustFormatValue (\<lambda>_. [''invalid'']) s) \<and>
    MustFormatValue V (MustFormatValue V s) = MustFormatValue V s"
  using label_validation.formatted_valid [OF assms] label_validation.formatted_fixed [OF assms]
  by (auto simp: MustFormatValue_def)

theorem MustFormatValue_valid_witness:
  "label_value_errors (MustFormatValue label_value_errors (replicate 100 (CHR ''a''))) = [] \<and>
   MustFormatValue label_value_errors
       (MustFormatValue label_value_errors (replicate 100 (CHR ''a''))) =
     MustFormatValue label_value_errors (replicate 100 (CHR ''a''))"
  using MustFormatValue_valid [OF label_rule.label_validation_axioms,
      of "replicate 100 (CHR ''a'')"] by blast

end
