(* ===== verification/Sha256.thy ===== *)
theory Sha256
  imports Prelude "HOL-Library.Word"
begin

text \<open>
  SHA-256 (\<^verbatim>\<open>crypto/sha256\<close>), of which \<^verbatim>\<open>GenerateCRName\<close> uses the first eight hexadecimal digits.
  Words are 32 bits wide and addition wraps.
\<close>

type_synonym word32 = "32 word"

definition rotr :: "nat \<Rightarrow> word32 \<Rightarrow> word32" where
  "rotr n x = drop_bit n x OR push_bit (32 - n) x"

text \<open>
  The constants of the standard: the first 32 bits of the fractional parts of the cube roots and
  of the square roots of the first primes, that is, integer roots of the primes shifted left.
\<close>

definition small_primes :: "int list" where
  "small_primes = filter (\<lambda>n. list_all (\<lambda>d. n mod d \<noteq> 0) [2..n - 1]) [2..311]"

definition int_root :: "nat \<Rightarrow> int \<Rightarrow> int" where
  "int_root k n = fold (\<lambda>i r. if (r + 2 ^ i) ^ k \<le> n then r + 2 ^ i else r) (rev [0..<38]) 0"

definition round_constants :: "word32 list" where
  "round_constants = map (\<lambda>p. word_of_int (int_root 3 (p * 2 ^ 96))) small_primes"

type_synonym hash_state =
  "word32 \<times> word32 \<times> word32 \<times> word32 \<times> word32 \<times> word32 \<times> word32 \<times> word32"

definition square_root_bits :: "int \<Rightarrow> word32" where
  "square_root_bits p = word_of_int (int_root 2 (p * 2 ^ 64))"

definition initial_state :: hash_state where
  "initial_state =
     (square_root_bits 2, square_root_bits 3, square_root_bits 5, square_root_bits 7,
      square_root_bits 11, square_root_bits 13, square_root_bits 17, square_root_bits 19)"

text \<open>The message schedule, newest word first: 48 words are added to the 16 of the block.\<close>

fun schedule :: "nat \<Rightarrow> word32 list \<Rightarrow> word32 list" where
  "schedule 0 ws = ws"
| "schedule (Suc n) ws =
     (let s0 = (let x = ws ! 14 in rotr 7 x XOR rotr 18 x XOR drop_bit 3 x);
          s1 = (let x = ws ! 1 in rotr 17 x XOR rotr 19 x XOR drop_bit 10 x)
      in schedule n ((s1 + ws ! 6 + s0 + ws ! 15) # ws))"

fun hash_round :: "word32 \<times> word32 \<Rightarrow> hash_state \<Rightarrow> hash_state" where
  "hash_round (k, w) (a, b, c, d, e, f, g, h) =
     (let t1 = h + (rotr 6 e XOR rotr 11 e XOR rotr 25 e) + ((e AND f) XOR (NOT e AND g)) + k + w;
          t2 = (rotr 2 a XOR rotr 13 a XOR rotr 22 a) + ((a AND b) XOR (a AND c) XOR (b AND c))
      in (t1 + t2, a, b, c, d + t1, e, f, g))"

fun add_state :: "hash_state \<Rightarrow> hash_state \<Rightarrow> hash_state" where
  "add_state (a, b, c, d, e, f, g, h) (a', b', c', d', e', f', g', h') =
     (a + a', b + b', c + c', d + d', e + e', f + f', g + g', h + h')"

definition hash_block :: "word32 list \<Rightarrow> hash_state \<Rightarrow> hash_state" where
  "hash_block ws st = add_state st
     (fold hash_round (zip round_constants (rev (schedule 48 (rev ws)))) st)"

fun be_words :: "nat list \<Rightarrow> word32 list" where
  "be_words (a # b # c # d # rest) =
     (push_bit 24 (word_of_nat a) OR push_bit 16 (word_of_nat b) OR push_bit 8 (word_of_nat c) OR
      word_of_nat d) # be_words rest"
| "be_words _ = []"

text \<open>
  The padded message: a one bit, zeros, and the length in bits as eight bytes of a 64-bit word.
\<close>

definition pad :: "nat list \<Rightarrow> nat list" where
  "pad bs = (let n = length bs in
     bs @ [128] @ replicate ((119 - n mod 64) mod 64) 0 @
     map (\<lambda>i. unat (drop_bit (8 * i) (push_bit 3 (word_of_nat n :: 64 word)) AND 255))
       [7, 6, 5, 4, 3, 2, 1, 0])"

function hash_blocks :: "word32 list \<Rightarrow> hash_state \<Rightarrow> hash_state" where
  "hash_blocks ws st =
     (if ws = [] then st else hash_blocks (drop 16 ws) (hash_block (take 16 ws) st))"
  by pat_completeness auto
termination
  by (relation "measure (\<lambda>(ws, st). length ws)") (auto simp: neq_Nil_conv)

declare hash_blocks.simps [simp del]

definition sha256 :: "string \<Rightarrow> hash_state" where
  "sha256 s = hash_blocks (be_words (pad (map byte s))) initial_state"

text \<open>A word as eight hexadecimal digits.\<close>

definition hex_word :: "word32 \<Rightarrow> string" where
  "hex_word w = map (\<lambda>i. hex_digit (unat (drop_bit (4 * i) w AND 15))) [7, 6, 5, 4, 3, 2, 1, 0]"

definition sha256_hex8 :: "string \<Rightarrow> string" where
  "sha256_hex8 s = hex_word (fst (sha256 s))"

lemma hex_digit_alnum: "d < 16 \<Longrightarrow> is_lower_alnum (hex_digit d)"
  by (simp add: hex_digit_def is_lower_alnum_def)

lemma unat_and_15: "unat (w AND (15 :: word32)) < 16"
proof -
  have "unat (w AND 15) \<le> unat (15 :: word32)"
    by (rule word_and_le1 [THEN word_le_nat_alt [THEN iffD1]])
  then show ?thesis by simp
qed

lemma sha256_hex8_length [simp]: "length (sha256_hex8 s) = 8"
  by (simp add: sha256_hex8_def hex_word_def)

lemma sha256_hex8_alnum: "list_all is_lower_alnum (sha256_hex8 s)"
  by (simp add: sha256_hex8_def hex_word_def hex_digit_alnum unat_and_15)

end
