(* ===== verification/Naming.thy ===== *)
theory Naming
  imports Api_Types Sha256
begin

text \<open>
  Stable device paths and resource names (\<^verbatim>\<open>pkg/discovery/naming.go\<close>).  The regular expression
  \<^verbatim>\<open>[^a-z0-9.]+\<close> with the replacement \<^verbatim>\<open>-\<close> is \<open>collapse\<close>: it works on bytes, which is the same,
  because every byte of a non-ASCII rune is outside the class.
\<close>

subsection \<open>The code\<close>

definition predictablePathPrefixes :: "string list" where
  "predictablePathPrefixes =
     [''/dev/disk/by-id/wwn-'', ''/dev/disk/by-id/nvme-eui.'', ''/dev/disk/by-id/ata-'',
      ''/dev/disk/by-id/nvme-'', ''/dev/disk/by-id/scsi-'', ''/dev/disk/by-path/'']"

definition link_path :: "string \<Rightarrow> string" where
  "link_path link = ''/dev/'' @ trim_prefix ''/'' (trim_prefix ''/dev/'' link)"

fun first_link :: "string \<Rightarrow> string list \<Rightarrow> string option" where
  "first_link pre [] = None"
| "first_link pre (link # links) =
     (if prefix pre (link_path link) then Some (link_path link) else first_link pre links)"

fun first_prefix :: "string list \<Rightarrow> string list \<Rightarrow> string option" where
  "first_prefix [] links = None"
| "first_prefix (pre # pres) links =
     (case first_link pre links of Some path \<Rightarrow> Some path | None \<Rightarrow> first_prefix pres links)"

definition ResolvePredictablePath :: "string \<Rightarrow> string list \<Rightarrow> string" where
  "ResolvePredictablePath devName links =
     (case first_prefix predictablePathPrefixes links of
        Some path \<Rightarrow> path
      | None \<Rightarrow> if devName \<noteq> [] then ''/dev/'' @ trim_prefix ''/dev/'' devName else [])"

definition name_char :: "char \<Rightarrow> bool" where
  "name_char c \<longleftrightarrow> is_lower_alnum c \<or> c = CHR ''.''"

function collapse :: "string \<Rightarrow> string" where
  "collapse [] = []"
| "collapse (c # s) =
     (if name_char c then c # collapse s
      else CHR ''-'' # collapse (dropWhile (\<lambda>x. \<not> name_char x) s))"
  by pat_completeness auto
termination
  by (relation "measure length") (auto simp: le_imp_less_Suc length_dropWhile_le)

definition trim_char :: "char \<Rightarrow> bool" where
  "trim_char c \<longleftrightarrow> c = CHR ''-'' \<or> c = CHR ''.''"

definition trim_right_dots :: "string \<Rightarrow> string" where
  "trim_right_dots s = rev (dropWhile trim_char (rev s))"

definition trim_dots :: "string \<Rightarrow> string" where
  "trim_dots s = trim_right_dots (dropWhile trim_char s)"

definition SanitizeRFC1123Subdomain :: "string \<Rightarrow> string" where
  "SanitizeRFC1123Subdomain s = trim_dots (collapse (to_lower s))"

definition raw_id :: "DiskInfo \<Rightarrow> string" where
  "raw_id d =
     (if di_WWN d \<noteq> [] then di_WWN d
      else if di_SerialShort d \<noteq> [] then di_SerialShort d
      else if di_Serial d \<noteq> [] then di_Serial d
      else if di_Path d \<noteq> [] then last (split_on (CHR ''/'') (di_Path d))
      else di_Name d)"

definition maxLen :: nat where
  "maxLen = 253"

definition GenerateCRName :: "string \<Rightarrow> DiskInfo \<Rightarrow> string" where
  "GenerateCRName nodeName diskInfo =
     (let cleanNode = SanitizeRFC1123Subdomain nodeName;
          cleanNode = (if cleanNode = [] then ''node'' else cleanNode);
          cleanID = SanitizeRFC1123Subdomain (raw_id diskInfo);
          cleanID = (if cleanID = [] then ''disk'' else cleanID);
          name = cleanNode @ ''-'' @ cleanID
      in if length name \<le> maxLen then name
         else (let hashSuffix = ''-'' @ sha256_hex8 name;
                   cutPoint = maxLen - length hashSuffix;
                   truncated = trim_right_dots (take cutPoint name)
               in truncated @ hashSuffix))"

subsection \<open>Path resolution\<close>

text \<open>The symlinks in the order of preference: by family, then in udev's order.\<close>

definition stable_paths :: "string list \<Rightarrow> string list" where
  "stable_paths links =
     concat (map (\<lambda>pre. filter (prefix pre) (map link_path links)) predictablePathPrefixes)"

definition head_option :: "'a list \<Rightarrow> 'a option" where
  "head_option xs = (case xs of [] \<Rightarrow> None | x # _ \<Rightarrow> Some x)"

lemma head_option_append: "head_option (xs @ ys) =
    (case head_option xs of None \<Rightarrow> head_option ys | Some x \<Rightarrow> Some x)"
  by (simp add: head_option_def split: list.split)

lemma first_link_head: "first_link pre links = head_option (filter (prefix pre) (map link_path links))"
  by (induction links) (simp_all add: head_option_def)

lemma first_prefix_head: "first_prefix pres links =
    head_option (concat (map (\<lambda>pre. filter (prefix pre) (map link_path links)) pres))"
proof (induction pres)
  case (Cons pre pres)
  show ?case
    by (simp only: first_prefix.simps list.map concat.simps head_option_append
        first_link_head Cons.IH)
qed (simp add: head_option_def)

subsection \<open>Sanitized names\<close>

definition dash_free :: "char \<Rightarrow> char \<Rightarrow> bool" where
  "dash_free a b \<longleftrightarrow> a \<noteq> CHR ''-'' \<or> b \<noteq> CHR ''-''"

definition tidy :: "string \<Rightarrow> bool" where
  "tidy s \<longleftrightarrow> list_all (\<lambda>c. name_char c \<or> c = CHR ''-'') s \<and> successively dash_free s"

lemma dash_not_name [simp]: "\<not> name_char (CHR ''-'')"
  by (simp add: name_char_def is_lower_alnum_def)

lemma name_not_dash: "name_char c \<Longrightarrow> c \<noteq> CHR ''-''"
  by (auto simp: name_char_def is_lower_alnum_def)

lemma collapse_hd: "collapse s \<noteq> [] \<Longrightarrow> name_char (hd s) \<Longrightarrow> name_char (hd (collapse s))"
  by (cases s) auto

lemma tidy_Cons: "tidy (c # s) \<longleftrightarrow> (name_char c \<or> c = CHR ''-'') \<and> tidy s \<and>
    (s = [] \<or> dash_free c (hd s))"
  by (cases s) (auto simp: tidy_def)

lemma tidy_collapse: "tidy (collapse s)"
proof (induction s rule: collapse.induct)
  case (2 c s)
  let ?rest = "dropWhile (\<lambda>x. \<not> name_char x) s"
  show ?case
  proof (cases "name_char c")
    case True
    with 2 show ?thesis by (auto simp: tidy_Cons dash_free_def dest: name_not_dash)
  next
    case False
    have "name_char (hd (collapse ?rest))" if "collapse ?rest \<noteq> []"
    proof (rule collapse_hd [OF that])
      have "?rest \<noteq> []" using that by (metis collapse.simps(1))
      then show "name_char (hd ?rest)" using hd_dropWhile by blast
    qed
    with False 2 show ?thesis by (auto simp: tidy_Cons dash_free_def dest: name_not_dash)
  qed
qed (simp add: tidy_def)

lemma collapse_tidy: "tidy s \<Longrightarrow> collapse s = s"
proof (induction s rule: collapse.induct)
  case (2 c s)
  show ?case
  proof (cases "name_char c")
    case True
    with 2 show ?thesis by (simp add: tidy_Cons)
  next
    case False
    with "2.prems" have c: "c = CHR ''-''" and s: "tidy s" "s = [] \<or> hd s \<noteq> CHR ''-''"
      by (auto simp: tidy_Cons dash_free_def)
    have "dropWhile (\<lambda>x. \<not> name_char x) s = s"
      using s by (cases s) (auto simp: tidy_Cons)
    with False c s 2 show ?thesis by simp
  qed
qed simp

lemma tidy_append: "tidy (s @ t) \<Longrightarrow> tidy s \<and> tidy t"
  by (auto simp: tidy_def successively_append_iff)

lemma tidy_dropWhile: "tidy s \<Longrightarrow> tidy (dropWhile P s)"
  using tidy_append [of "takeWhile P s" "dropWhile P s"] by simp

lemma trim_right_dots_prefix: "\<exists>t. s = trim_right_dots s @ t"
proof -
  have "s = rev (takeWhile trim_char (rev s) @ dropWhile trim_char (rev s))" by simp
  then have "s = trim_right_dots s @ rev (takeWhile trim_char (rev s))"
    unfolding trim_right_dots_def by (simp only: rev_append)
  then show ?thesis by blast
qed

lemma tidy_trim_right: "tidy s \<Longrightarrow> tidy (trim_right_dots s)"
  using trim_right_dots_prefix [of s] tidy_append by metis

lemma tidy_trim: "tidy s \<Longrightarrow> tidy (trim_dots s)"
  unfolding trim_dots_def by (intro tidy_trim_right tidy_dropWhile)

lemma trim_right_dots_last: "trim_right_dots s \<noteq> [] \<Longrightarrow> \<not> trim_char (last (trim_right_dots s))"
  using hd_dropWhile [of trim_char "rev s"]
  by (simp add: trim_right_dots_def last_rev del: dropWhile_eq_Nil_conv)

lemma trim_right_dots_hd:
  assumes "trim_right_dots s \<noteq> []"
  shows "hd (trim_right_dots s) = hd s"
proof -
  obtain t where t: "s = trim_right_dots s @ t" using trim_right_dots_prefix by blast
  show ?thesis using arg_cong [OF t, of hd] by (simp only: hd_append2 [OF assms])
qed

lemma trim_dots_ends:
  assumes "trim_dots s \<noteq> []"
  shows "\<not> trim_char (hd (trim_dots s)) \<and> \<not> trim_char (last (trim_dots s))"
proof -
  have ne: "dropWhile trim_char s \<noteq> []"
    using assms unfolding trim_dots_def by (metis dropWhile.simps(1) rev.simps(1) trim_right_dots_def)
  have "hd (trim_dots s) = hd (dropWhile trim_char s)"
    using assms unfolding trim_dots_def by (rule trim_right_dots_hd)
  then have "\<not> trim_char (hd (trim_dots s))" using hd_dropWhile [OF ne] by simp
  moreover have "\<not> trim_char (last (trim_dots s))"
    using assms unfolding trim_dots_def by (rule trim_right_dots_last)
  ultimately show ?thesis by blast
qed

lemma trim_dots_fix:
  assumes "s = [] \<or> (\<not> trim_char (hd s) \<and> \<not> trim_char (last s))"
  shows "trim_dots s = s"
proof (cases "s = []")
  case False
  with assms have "dropWhile trim_char s = s" by (cases s) simp_all
  moreover have "dropWhile trim_char (rev s) = rev s"
    using assms False by (cases "rev s") (auto simp: last_conv_nth hd_rev [symmetric])
  ultimately show ?thesis by (simp add: trim_dots_def trim_right_dots_def)
qed (simp add: trim_dots_def trim_right_dots_def)

lemma tidy_lower: "tidy s \<Longrightarrow> to_lower s = s"
proof -
  assume s: "tidy s"
  have c: "byte c < 128 \<and> ascii_lower c = c" if "name_char c \<or> c = CHR ''-''" for c
    using that by (auto simp: name_char_def is_lower_alnum_def ascii_lower_def)
  have "is_ascii s" and "map ascii_lower s = s"
    using s c by (auto simp: tidy_def is_ascii_def list_all_iff map_idI)
  then show "to_lower s = s" by (simp add: to_lower_ascii)
qed

lemma tidy_sanitized: "tidy (SanitizeRFC1123Subdomain s)"
  unfolding SanitizeRFC1123Subdomain_def by (intro tidy_trim tidy_collapse)

lemma sanitized_ends:
  "SanitizeRFC1123Subdomain s \<noteq> [] \<Longrightarrow>
     is_lower_alnum (hd (SanitizeRFC1123Subdomain s)) \<and>
     is_lower_alnum (last (SanitizeRFC1123Subdomain s))"
  using tidy_sanitized [of s] trim_dots_ends [of "collapse (to_lower s)"]
  by (auto simp: SanitizeRFC1123Subdomain_def tidy_def list_all_iff trim_char_def name_char_def)

lemma sanitized_fix: "SanitizeRFC1123Subdomain (SanitizeRFC1123Subdomain s) =
    SanitizeRFC1123Subdomain s"
proof -
  let ?t = "SanitizeRFC1123Subdomain s"
  have "trim_dots ?t = ?t"
    using trim_dots_ends unfolding SanitizeRFC1123Subdomain_def by (intro trim_dots_fix) blast
  then show ?thesis
    using tidy_sanitized [of s]
    by (simp add: SanitizeRFC1123Subdomain_def [of ?t] tidy_lower collapse_tidy)
qed

subsection \<open>Resource names\<close>

definition cr_char :: "char \<Rightarrow> bool" where
  "cr_char c \<longleftrightarrow> is_lower_alnum c \<or> c = CHR ''.'' \<or> c = CHR ''-''"

definition cr_name :: "string \<Rightarrow> bool" where
  "cr_name s \<longleftrightarrow> s \<noteq> [] \<and> list_all cr_char s \<and> is_lower_alnum (hd s) \<and> is_lower_alnum (last s)"

lemma tidy_cr: "tidy s \<Longrightarrow> list_all cr_char s"
  by (auto simp: tidy_def cr_char_def name_char_def list_all_iff)

lemma cr_name_join: "cr_name a \<Longrightarrow> cr_name b \<Longrightarrow> cr_name (a @ ''-'' @ b)"
  by (auto simp: cr_name_def cr_char_def)

lemma cr_name_default:
  "cr_name d \<Longrightarrow> cr_name (if SanitizeRFC1123Subdomain s = [] then d else SanitizeRFC1123Subdomain s)"
  using sanitized_ends [of s] tidy_cr [OF tidy_sanitized, of s] by (simp add: cr_name_def)

lemma cr_name_truncate:
  assumes "cr_name s" and "0 < n"
  shows "cr_name (trim_right_dots (take n s) @ ''-'' @ sha256_hex8 h)"
proof -
  have hx: "cr_name (sha256_hex8 h)"
  proof -
    have "sha256_hex8 h \<noteq> []" using sha256_hex8_length [of h] by fastforce
    then show ?thesis
      using sha256_hex8_alnum [of h] by (auto simp: cr_name_def cr_char_def list_all_iff)
  qed
  obtain c s' where s: "s = c # s'" and c: "is_lower_alnum c"
    using assms(1) by (cases s) (auto simp: cr_name_def)
  obtain n' where n: "n = Suc n'" using assms(2) by (cases n) auto
  have nt: "\<not> trim_char c" using c by (auto simp: trim_char_def is_lower_alnum_def)
  have ne: "trim_right_dots (take n s) \<noteq> []"
    using nt unfolding trim_right_dots_def by (simp add: s n)
  have all: "list_all cr_char (trim_right_dots (take n s))"
  proof -
    obtain t where "take n s = trim_right_dots (take n s) @ t"
      using trim_right_dots_prefix by blast
    then have "set (trim_right_dots (take n s)) \<subseteq> set s" by (metis Un_upper1 set_append set_take_subset subset_trans)
    then show ?thesis using assms(1) by (auto simp: cr_name_def list_all_iff)
  qed
  have "hd (trim_right_dots (take n s)) = c" using trim_right_dots_hd [OF ne] by (simp add: s n)
  with ne all hx c show ?thesis by (auto simp: cr_name_def cr_char_def)
qed

text \<open>Names that sanitizing leaves alone; two of them can be joined by a hyphen.\<close>

definition clean :: "string \<Rightarrow> bool" where
  "clean s \<longleftrightarrow> s \<noteq> [] \<and> SanitizeRFC1123Subdomain s = s"

lemma clean_iff: "clean s \<longleftrightarrow> s \<noteq> [] \<and> tidy s \<and> \<not> trim_char (hd s) \<and> \<not> trim_char (last s)"
proof
  assume s: "clean s"
  then have "is_lower_alnum (hd s)" "is_lower_alnum (last s)" "tidy s"
    using sanitized_ends [of s] tidy_sanitized [of s] by (auto simp: clean_def)
  with s show "s \<noteq> [] \<and> tidy s \<and> \<not> trim_char (hd s) \<and> \<not> trim_char (last s)"
    by (auto simp: clean_def trim_char_def is_lower_alnum_def)
next
  assume "s \<noteq> [] \<and> tidy s \<and> \<not> trim_char (hd s) \<and> \<not> trim_char (last s)"
  then show "clean s"
    by (simp add: clean_def SanitizeRFC1123Subdomain_def tidy_lower collapse_tidy trim_dots_fix)
qed

lemma clean_join: "clean a \<Longrightarrow> clean b \<Longrightarrow> clean (a @ ''-'' @ b)"
  by (cases b) (auto simp: clean_iff tidy_def successively_append_iff dash_free_def trim_char_def)

lemma shared_name:
  assumes "clean n" "clean a" "clean b" and "raw_id i = a @ ''-'' @ b" and "raw_id j = b"
  shows "GenerateCRName n i = GenerateCRName (n @ ''-'' @ a) j"
proof -
  have "clean (n @ ''-'' @ a)" "clean (a @ ''-'' @ b)" using assms(1-3) clean_join by blast+
  then have "SanitizeRFC1123Subdomain (n @ ''-'' @ a) = n @ ''-'' @ a"
    and "SanitizeRFC1123Subdomain (a @ ''-'' @ b) = a @ ''-'' @ b"
    and "SanitizeRFC1123Subdomain n = n" "SanitizeRFC1123Subdomain b = b" "n \<noteq> []" "b \<noteq> []"
    using assms(1,3) by (simp_all add: clean_def)
  then show ?thesis by (simp add: GenerateCRName_def assms(4,5) add.assoc)
qed

subsection \<open>Properties\<close>

text \<open>
  C25: every generated resource name is non-empty, at most 253 bytes long, consists of lower-case
  letters, digits, periods and hyphens, and starts and ends with a letter or digit.
\<close>

theorem GenerateCRName_valid:
  "cr_name (GenerateCRName nodeName diskInfo) \<and> length (GenerateCRName nodeName diskInfo) \<le> 253"
proof -
  let ?node = "if SanitizeRFC1123Subdomain nodeName = [] then ''node''
    else SanitizeRFC1123Subdomain nodeName"
  let ?id = "if SanitizeRFC1123Subdomain (raw_id diskInfo) = [] then ''disk''
    else SanitizeRFC1123Subdomain (raw_id diskInfo)"
  let ?name = "?node @ ''-'' @ ?id"
  have name: "cr_name ?name"
    by (intro cr_name_join cr_name_default) (simp_all add: cr_name_def cr_char_def is_lower_alnum_def)
  have eq: "GenerateCRName nodeName diskInfo =
      (if length ?name \<le> 253 then ?name
       else trim_right_dots (take 244 ?name) @ ''-'' @ sha256_hex8 ?name)"
    unfolding GenerateCRName_def Let_def maxLen_def by simp
  have "length (trim_right_dots (take 244 ?name)) \<le> 244"
    using length_dropWhile_le [of trim_char "rev (take 244 ?name)"] by (simp add: trim_right_dots_def)
  then show ?thesis
    unfolding eq using name cr_name_truncate [OF name, of 244 ?name] by simp
qed

text \<open>
  Sanitizing is idempotent, and its result has no two adjacent hyphens and neither starts nor
  ends with a hyphen or a period.
\<close>

theorem Sanitize_normal_form:
  "SanitizeRFC1123Subdomain (SanitizeRFC1123Subdomain s) = SanitizeRFC1123Subdomain s \<and>
   tidy (SanitizeRFC1123Subdomain s) \<and>
   (SanitizeRFC1123Subdomain s = [] \<or>
    (is_lower_alnum (hd (SanitizeRFC1123Subdomain s)) \<and>
     is_lower_alnum (last (SanitizeRFC1123Subdomain s))))"
  using sanitized_fix tidy_sanitized sanitized_ends by blast

text \<open>
  The resolved path is the first symlink of the most stable family that the device has, and
  the kernel path only if the device has no symlink of any family.
\<close>

theorem ResolvePredictablePath_most_stable:
  "ResolvePredictablePath devName links =
     (case stable_paths links of
        path # _ \<Rightarrow> path
      | [] \<Rightarrow> if devName = [] then [] else ''/dev/'' @ trim_prefix ''/dev/'' devName)"
  unfolding ResolvePredictablePath_def first_prefix_head stable_paths_def [symmetric]
  by (cases "stable_paths links") (simp_all add: head_option_def)

end
