(* ===== verification/Udev.thy ===== *)
theory Udev
  imports Naming Disk_Filter
begin

text \<open>
  The inventory of physical disks (\<^verbatim>\<open>pkg/discovery/udev.go\<close>).  The operating system is a parameter:
  a \<open>FileSystem\<close> says what reading a directory, a file, a symlink or the attributes of a path
  returns.  A scan reads every path at most once, so one function from paths to outcomes also
  covers files that vanish while the scan runs.  The parts of Go's library that the code uses
  (\<^verbatim>\<open>filepath.Join\<close>, \<^verbatim>\<open>fmt.Sscanf\<close> with \<^verbatim>\<open>%d:%d\<close>, \<^verbatim>\<open>strconv.ParseInt\<close>, \<^verbatim>\<open>bufio.Scanner\<close>) are
  definitions of this theory.
\<close>

subsection \<open>The operating system\<close>

record FileSystem =
  fs_ReadDir :: "string \<Rightarrow> string + string list"
  fs_ReadFile :: "string \<Rightarrow> string + string"
  fs_Stat :: "string \<Rightarrow> bool"
  fs_Readlink :: "string \<Rightarrow> string + string"

subsection \<open>Paths\<close>

definition clean_step :: "bool \<Rightarrow> string list \<Rightarrow> string \<Rightarrow> string list" where
  "clean_step rooted stack part =
     (if part = [] \<or> part = ''.'' then stack
      else if part = ''..'' then
        (case stack of [] \<Rightarrow> if rooted then [] else [''..'']
         | d # rest \<Rightarrow> if d = ''..'' then ''..'' # stack else rest)
      else part # stack)"

definition clean_path :: "string \<Rightarrow> string" where
  "clean_path p =
     (if p = [] then ''.''
      else (let rooted = (hd p = CHR ''/'');
                stack = foldl (clean_step rooted) [] (split_on (CHR ''/'') p);
                body = join ''/'' (rev stack)
            in if rooted then CHR ''/'' # body else if body = [] then ''.'' else body))"

definition path_join :: "string list \<Rightarrow> string" where
  "path_join elems =
     (case dropWhile (\<lambda>e. e = []) elems of [] \<Rightarrow> [] | es \<Rightarrow> clean_path (join ''/'' es))"

subsection \<open>Numbers\<close>

text \<open>An optional sign and as many digits as there are; no digit or a value out of range fails.\<close>

definition scan_number :: "string \<Rightarrow> (int \<times> string) option" where
  "scan_number s =
     (let neg = (s \<noteq> [] \<and> hd s = CHR ''-'');
          u = (if s \<noteq> [] \<and> (hd s = CHR ''-'' \<or> hd s = CHR ''+'') then tl s else s);
          ds = takeWhile is_digit u;
          v = (if neg then - int (digits_value ds) else int (digits_value ds))
      in if ds = [] \<or> \<not> int64_range v then None else Some (v, dropWhile is_digit u))"

definition ParseInt :: "string \<Rightarrow> int option" where
  "ParseInt s = (case scan_number s of Some (v, []) \<Rightarrow> Some v | _ \<Rightarrow> None)"

text \<open>\<^verbatim>\<open>%d\<close> skips spaces, but a newline is an error.\<close>

definition scan_d :: "string \<Rightarrow> (int \<times> string) option" where
  "scan_d s =
     (let t = strip_left (filter (\<lambda>e. e \<noteq> [CHR 0x0A]) space_encodings) s in scan_number t)"

definition scan_devnum :: "string \<Rightarrow> (int \<times> int) option" where
  "scan_devnum s =
     (case scan_d s of None \<Rightarrow> None
      | Some (major, rest) \<Rightarrow>
          if rest = [] \<or> hd rest \<noteq> CHR '':'' then None
          else (case scan_d (tl rest) of None \<Rightarrow> None | Some (minor, _) \<Rightarrow> Some (major, minor)))"

subsection \<open>The udev record\<close>

record UdevRecord =
  Properties :: "string \<rightharpoonup> string"
  Symlinks :: "string list"

definition max_token :: nat where
  "max_token = 65536"

definition drop_cr :: "string \<Rightarrow> string" where
  "drop_cr l = (if l \<noteq> [] \<and> last l = CHR 0x0D then butlast l else l)"

definition scan_lines :: "string \<Rightarrow> string + string list" where
  "scan_lines s =
     (let parts = split_on (CHR 0x0A) s; ls = (if last parts = [] then butlast parts else parts)
      in if list_ex (\<lambda>l. max_token \<le> length l) ls then Inl ''bufio.Scanner: token too long''
         else Inr (map drop_cr ls))"

definition add_record_line :: "UdevRecord \<Rightarrow> string \<Rightarrow> UdevRecord" where
  "add_record_line r raw =
     (let line = trim_space raw in
      if prefix ''S:'' line then r\<lparr>Symlinks := Symlinks r @ [drop 2 line]\<rparr>
      else if prefix ''E:'' line then
        (case cut (CHR ''='') (drop 2 line) of
           Some (k, v) \<Rightarrow> if k \<noteq> [] then r\<lparr>Properties := (Properties r)(k \<mapsto> v)\<rparr> else r
         | None \<Rightarrow> r)
      else r)"

definition ParseUdevDataFile :: "FileSystem \<Rightarrow> string \<Rightarrow> string + UdevRecord" where
  "ParseUdevDataFile fs path =
     (case fs_ReadFile fs path of Inl e \<Rightarrow> Inl e
      | Inr data \<Rightarrow>
          (case scan_lines data of Inl e \<Rightarrow> Inl e
           | Inr ls \<Rightarrow> Inr (foldl add_record_line \<lparr>Properties = Map.empty, Symlinks = []\<rparr> ls)))"

subsection \<open>Attributes of a disk\<close>

definition sysDevicePath :: "FileSystem \<Rightarrow> string \<Rightarrow> string" where
  "sysDevicePath fs blockEntry =
     (case fs_Readlink fs blockEntry of Inl _ \<Rightarrow> [] | Inr target \<Rightarrow> path_join [''/block'', target])"

definition capacityBytes :: "FileSystem \<Rightarrow> string \<Rightarrow> int" where
  "capacityBytes fs blockEntry =
     (case fs_ReadFile fs (path_join [blockEntry, ''size'']) of Inl _ \<Rightarrow> 0
      | Inr data \<Rightarrow>
          (case ParseInt (trim_space data) of None \<Rightarrow> 0 | Some sectors \<Rightarrow> wrap64 (sectors * 512)))"

definition rotational :: "FileSystem \<Rightarrow> string \<Rightarrow> bool option" where
  "rotational fs blockEntry =
     (case fs_ReadFile fs (path_join [blockEntry, ''queue'', ''rotational'']) of Inl _ \<Rightarrow> None
      | Inr data \<Rightarrow>
          if trim_space data = ''1'' then Some True
          else if trim_space data = ''0'' then Some False
          else None)"

subsection \<open>The scan\<close>

datatype discover_error =
    ListFailed string
  | UdevUnavailable nat string "string option"

record scan_state =
  st_disks :: "DiskInfo list"
  st_whole :: nat
  st_recorded :: nat
  st_recordErr :: "string option"

definition scan_init :: scan_state where
  "scan_init = \<lparr>st_disks = [], st_whole = 0, st_recorded = 0, st_recordErr = None\<rparr>"

definition record_path :: "string \<Rightarrow> int \<Rightarrow> int \<Rightarrow> string" where
  "record_path udevDir major minor =
     path_join [udevDir, ''b'' @ itoa major @ '':'' @ itoa minor]"

definition make_disk :: "FileSystem \<Rightarrow> string \<Rightarrow> string \<Rightarrow> int \<Rightarrow> int \<Rightarrow> UdevRecord \<Rightarrow> DiskInfo" where
  "make_disk fs sysPath name major minor rec =
     (let devName = map (\<lambda>c. if c = CHR ''!'' then CHR ''/'' else c) name;
          props = get_prop (Properties rec)
      in \<lparr>di_Path = ResolvePredictablePath devName (Symlinks rec),
          di_CanonicalPath = ''/dev/'' @ devName,
          di_Name = name,
          di_SysPath = sysDevicePath fs sysPath,
          di_Links = Symlinks rec,
          di_Major = major,
          di_Minor = minor,
          di_Type = ''disk'',
          di_Bus = props ''ID_BUS'',
          di_Model = props ''ID_MODEL'',
          di_Vendor = props ''ID_VENDOR'',
          di_Serial = props ''ID_SERIAL'',
          di_SerialShort = props ''ID_SERIAL_SHORT'',
          di_WWN = props ''ID_WWN'',
          di_BusPath = props ''ID_PATH'',
          di_Capacity = capacityBytes fs sysPath,
          di_Rotational = rotational fs sysPath,
          di_FirmwareVersion = props ''ID_REVISION''\<rparr>)"

definition scan_entry ::
  "FileSystem \<Rightarrow> string \<Rightarrow> string \<Rightarrow> string \<Rightarrow> ExcludeRule list \<Rightarrow> scan_state \<Rightarrow> string \<Rightarrow> scan_state" where
  "scan_entry fs blockDir udevDir nodeName rules st name =
     (let sysPath = path_join [blockDir, name] in
      case fs_ReadFile fs (path_join [sysPath, ''dev'']) of Inl _ \<Rightarrow> st
      | Inr devNum \<Rightarrow>
          (case scan_devnum devNum of None \<Rightarrow> st
           | Some (major, minor) \<Rightarrow>
               if fs_Stat fs (path_join [sysPath, ''partition'']) then st
               else
                 (let st = st\<lparr>st_whole := st_whole st + 1\<rparr> in
                  case ParseUdevDataFile fs (record_path udevDir major minor) of
                    Inl e \<Rightarrow> (if st_recordErr st = None then st\<lparr>st_recordErr := Some e\<rparr> else st)
                  | Inr rec \<Rightarrow>
                      (let st = st\<lparr>st_recorded := st_recorded st + 1\<rparr> in
                       if ShouldIgnore name (Properties rec) then st
                       else (let disk = make_disk fs sysPath name major minor rec in
                         if \<not> IsExcluded nodeName disk rules
                         then st\<lparr>st_disks := st_disks st @ [disk]\<rparr> else st)))))"

definition defaultSysDir :: string where
  "defaultSysDir = ''/sys''"

definition defaultUdevDir :: string where
  "defaultUdevDir = ''/run/udev/data''"

definition DiscoverDisks ::
  "FileSystem \<Rightarrow> string \<Rightarrow> string \<Rightarrow> string \<Rightarrow> ExcludeRule list \<Rightarrow> discover_error + DiskInfo list" where
  "DiscoverDisks fs sysDir udevDir nodeName rules =
     (let sysDir = (if sysDir = [] then defaultSysDir else sysDir);
          udevDir = (if udevDir = [] then defaultUdevDir else udevDir);
          blockDir = path_join [sysDir, ''block'']
      in case fs_ReadDir fs blockDir of
           Inl e \<Rightarrow> Inl (ListFailed e)
         | Inr entries \<Rightarrow>
             (let st = foldl (scan_entry fs blockDir udevDir nodeName rules) scan_init entries in
              if 0 < st_whole st \<and> st_recorded st = 0
              then Inl (UdevUnavailable (st_whole st) udevDir (st_recordErr st))
              else Inr (st_disks st)))"

subsection \<open>The scan without its loop\<close>

text \<open>The device number of an entry that is a whole disk.\<close>

definition whole_disk :: "FileSystem \<Rightarrow> string \<Rightarrow> string \<Rightarrow> (int \<times> int) option" where
  "whole_disk fs blockDir name =
     (let sysPath = path_join [blockDir, name] in
      case fs_ReadFile fs (path_join [sysPath, ''dev'']) of Inl _ \<Rightarrow> None
      | Inr devNum \<Rightarrow>
          if fs_Stat fs (path_join [sysPath, ''partition'']) then None else scan_devnum devNum)"

text \<open>The whole disks of a listing, each with what reading its udev record gave.\<close>

fun lookups :: "FileSystem \<Rightarrow> string \<Rightarrow> string \<Rightarrow> string list \<Rightarrow>
    (string \<times> int \<times> int \<times> (string + UdevRecord)) list" where
  "lookups fs blockDir udevDir [] = []"
| "lookups fs blockDir udevDir (name # names) =
     (case whole_disk fs blockDir name of None \<Rightarrow> lookups fs blockDir udevDir names
      | Some (major, minor) \<Rightarrow>
          (name, major, minor, ParseUdevDataFile fs (record_path udevDir major minor)) #
          lookups fs blockDir udevDir names)"

fun recorded_disks :: "(string \<times> int \<times> int \<times> (string + UdevRecord)) list \<Rightarrow>
    (string \<times> int \<times> int \<times> UdevRecord) list" where
  "recorded_disks [] = []"
| "recorded_disks ((name, major, minor, Inl e) # ls) = recorded_disks ls"
| "recorded_disks ((name, major, minor, Inr r) # ls) = (name, major, minor, r) # recorded_disks ls"

fun first_error :: "(string \<times> int \<times> int \<times> (string + UdevRecord)) list \<Rightarrow> string option" where
  "first_error [] = None"
| "first_error ((name, major, minor, Inl e) # ls) = Some e"
| "first_error ((name, major, minor, Inr r) # ls) = first_error ls"

definition considered :: "string \<times> int \<times> int \<times> UdevRecord \<Rightarrow> bool" where
  "considered = (\<lambda>(name, major, minor, r). \<not> ShouldIgnore name (Properties r))"

definition disk_of :: "FileSystem \<Rightarrow> string \<Rightarrow> string \<times> int \<times> int \<times> UdevRecord \<Rightarrow> DiskInfo" where
  "disk_of fs blockDir =
     (\<lambda>(name, major, minor, r). make_disk fs (path_join [blockDir, name]) name major minor r)"

definition inventory :: "FileSystem \<Rightarrow> string \<Rightarrow>
    (string \<times> int \<times> int \<times> (string + UdevRecord)) list \<Rightarrow> DiskInfo list" where
  "inventory fs blockDir ls = map (disk_of fs blockDir) (filter considered (recorded_disks ls))"

lemmas inventory_defs = inventory_def disk_of_def considered_def

lemma scan_entry_spec:
  "scan_entry fs blockDir udevDir node rules st name =
     (let ls = lookups fs blockDir udevDir [name] in
      \<lparr>st_disks = st_disks st @
         filter (\<lambda>d. \<not> IsExcluded node d rules) (inventory fs blockDir ls),
       st_whole = st_whole st + length ls,
       st_recorded = st_recorded st + length (recorded_disks ls),
       st_recordErr = (case st_recordErr st of None \<Rightarrow> first_error ls | Some e \<Rightarrow> Some e)\<rparr>)"
  by (cases st)
    (simp add: scan_entry_def whole_disk_def inventory_defs Let_def
      split: sum.split option.split prod.split)

lemma lookups_Cons:
  "lookups fs b u (name # names) = lookups fs b u [name] @ lookups fs b u names"
  by (simp split: option.split)

lemma recorded_disks_append [simp]: "recorded_disks (xs @ ys) = recorded_disks xs @ recorded_disks ys"
  by (induction xs rule: recorded_disks.induct) simp_all

lemma first_error_append: "first_error (xs @ ys) =
    (case first_error xs of None \<Rightarrow> first_error ys | Some e \<Rightarrow> Some e)"
  by (induction xs rule: first_error.induct) simp_all

lemma scan_spec:
  "foldl (scan_entry fs blockDir udevDir node rules) st names =
     (let ls = lookups fs blockDir udevDir names in
      \<lparr>st_disks = st_disks st @
         filter (\<lambda>d. \<not> IsExcluded node d rules) (inventory fs blockDir ls),
       st_whole = st_whole st + length ls,
       st_recorded = st_recorded st + length (recorded_disks ls),
       st_recordErr = (case st_recordErr st of None \<Rightarrow> first_error ls | Some e \<Rightarrow> Some e)\<rparr>)"
proof (induction names arbitrary: st)
  case Nil
  show ?case by (cases st) (simp add: inventory_def split: option.split)
next
  case (Cons name names)
  show ?case
    unfolding foldl_Cons Cons.IH lookups_Cons [of _ _ _ name names]
    by (simp add: scan_entry_spec Let_def inventory_def first_error_append
        del: lookups.simps split: option.split)
qed

lemma first_error_exists: "ls \<noteq> [] \<Longrightarrow> recorded_disks ls = [] \<Longrightarrow> first_error ls \<noteq> None"
  by (induction ls rule: first_error.induct) simp_all

subsection \<open>Reading numbers back\<close>

lemma takeWhile_digits:
  "rest = [] \<or> \<not> is_digit (hd rest) \<Longrightarrow>
   takeWhile is_digit (nat_digits n @ rest) = nat_digits n \<and>
   dropWhile is_digit (nat_digits n @ rest) = rest"
  using nat_digits_all [of _ n] by (cases rest) (auto simp: takeWhile_append dropWhile_append)

lemma nat_digits_hd: "is_digit (hd (nat_digits n))"
  using nat_digits_all nat_digits_nonempty by (meson hd_in_set)

lemma scan_number_itoa:
  assumes "int64_range i" and "rest = [] \<or> \<not> is_digit (hd rest)"
  shows "scan_number (itoa i @ rest) = Some (i, rest)"
proof -
  have hd: "hd (nat_digits n @ rest) \<noteq> CHR ''-''" "hd (nat_digits n @ rest) \<noteq> CHR ''+''" for n
    using nat_digits_hd [of n] by (auto simp: is_digit_def)
  show ?thesis
    using assms takeWhile_digits [of rest] hd
    by (simp add: scan_number_def itoa_def Let_def digits_value_nat_digits)
qed

lemma scan_d_itoa:
  assumes "int64_range i" and "rest = [] \<or> \<not> is_digit (hd rest)"
  shows "scan_d (itoa i @ rest) = Some (i, rest)"
proof -
  have "strip_left (filter (\<lambda>e. e \<noteq> [CHR 0x0A]) space_encodings) (itoa i @ rest) = itoa i @ rest"
    using itoa_plain [of i] space_hd by (intro strip_left_plain) auto
  then show ?thesis using scan_number_itoa [OF assms] by (simp add: scan_d_def)
qed

lemma ParseInt_itoa: "int64_range i \<Longrightarrow> ParseInt (itoa i) = Some i"
  using scan_number_itoa [of i "[]"] by (simp add: ParseInt_def)

subsection \<open>Reading records back\<close>

text \<open>The lines of a record, and the text udev writes for them.\<close>

datatype record_line = SymlinkLine string | PropertyLine string string | OtherLine string

fun line_text :: "record_line \<Rightarrow> string" where
  "line_text (SymlinkLine l) = ''S:'' @ l"
| "line_text (PropertyLine k v) = ''E:'' @ k @ ''='' @ v"
| "line_text (OtherLine l) = l"

definition record_text :: "record_line list \<Rightarrow> string" where
  "record_text ls = concat (map (\<lambda>l. line_text l @ [CHR 0x0A]) ls)"

fun wf_line :: "record_line \<Rightarrow> bool" where
  "wf_line (SymlinkLine l) \<longleftrightarrow> True"
| "wf_line (PropertyLine k v) \<longleftrightarrow> k \<noteq> [] \<and> CHR ''='' \<notin> set k"
| "wf_line (OtherLine l) \<longleftrightarrow> \<not> prefix ''S:'' l \<and> \<not> prefix ''E:'' l"

definition readable_line :: "record_line \<Rightarrow> bool" where
  "readable_line l \<longleftrightarrow> wf_line l \<and> CHR 0x0A \<notin> set (line_text l) \<and>
     trim_space (line_text l) = line_text l \<and> length (line_text l) < max_token"

fun line_link :: "record_line \<Rightarrow> string list" where
  "line_link (SymlinkLine l) = [l]"
| "line_link _ = []"

fun line_property :: "record_line \<Rightarrow> (string \<times> string) list" where
  "line_property (PropertyLine k v) = [(k, v)]"
| "line_property _ = []"

definition record_links :: "record_line list \<Rightarrow> string list" where
  "record_links ls = concat (map line_link ls)"

text \<open>A property that occurs twice has its last value.\<close>

definition record_properties :: "record_line list \<Rightarrow> (string \<rightharpoonup> string)" where
  "record_properties ls = map_of (rev (concat (map line_property ls)))"

lemma trimmed_no_cr: "trim_space l = l \<Longrightarrow> drop_cr l = l"
proof -
  assume trim: "trim_space l = l"
  have "rev l = strip_left (map rev space_encodings) (rev (trim_left l))"
    using trim by (simp add: trim_space_def trim_right_def rev_swap)
  then have "leading (map rev space_encodings) (rev l) = None"
    using strip_left_leading by metis
  then have "\<not> prefix [CHR 0x0D] (rev l)"
    by (auto simp: leading_None space_encodings_def)
  then show ?thesis
    by (cases l rule: rev_cases) (auto simp: drop_cr_def)
qed

lemma scan_record_text:
  "list_all readable_line ls \<Longrightarrow> scan_lines (record_text ls) = Inr (map line_text ls)"
proof -
  assume wf: "list_all readable_line ls"
  have "split_on (CHR 0x0A) (record_text ls) = map line_text ls @ [[]]"
    using wf by (induction ls)
      (simp_all add: record_text_def readable_line_def split_on_append)
  moreover have "\<not> list_ex (\<lambda>l. max_token \<le> length l) (map line_text ls)"
    using wf by (auto simp: list_ex_iff list_all_iff readable_line_def)
  moreover have "map drop_cr (map line_text ls) = map line_text ls"
    using wf trimmed_no_cr by (simp add: list_all_iff readable_line_def)
  ultimately show ?thesis by (simp add: scan_lines_def Let_def)
qed

lemma add_record_line:
  "readable_line l \<Longrightarrow> add_record_line r (line_text l) =
    \<lparr>Properties = Properties r ++ record_properties [l], Symlinks = Symlinks r @ line_link l\<rparr>"
  by (cases l; cases r)
    (auto simp: readable_line_def add_record_line_def Let_def cut_append record_properties_def)

lemma add_record_lines:
  "list_all readable_line ls \<Longrightarrow> foldl add_record_line r (map line_text ls) =
    \<lparr>Properties = Properties r ++ record_properties ls, Symlinks = Symlinks r @ record_links ls\<rparr>"
proof (induction ls arbitrary: r)
  case Nil
  show ?case by (cases r) (simp add: record_properties_def record_links_def)
next
  case (Cons l ls)
  then show ?case
    by (simp add: add_record_line record_links_def record_properties_def)
qed

text \<open>There are whole disks, and no udev record of any of them can be read.\<close>

definition database_unavailable :: "FileSystem \<Rightarrow> string \<Rightarrow> string \<Rightarrow> bool" where
  "database_unavailable fs sysDir udevDir =
     (let blockDir = path_join [if sysDir = [] then defaultSysDir else sysDir, ''block''];
          dataDir = (if udevDir = [] then defaultUdevDir else udevDir)
      in case fs_ReadDir fs blockDir of
           Inl _ \<Rightarrow> False
         | Inr names \<Rightarrow> (let ls = lookups fs blockDir dataDir names in
             ls \<noteq> [] \<and> recorded_disks ls = []))"

lemma unavailable_discover:
  "database_unavailable fs sysDir udevDir \<Longrightarrow>
   \<exists>n dir e. DiscoverDisks fs sysDir udevDir node rules = Inl (UdevUnavailable n dir (Some e))"
proof -
  assume u: "database_unavailable fs sysDir udevDir"
  define b where "b = path_join [if sysDir = [] then defaultSysDir else sysDir, ''block'']"
  define dd where "dd = (if udevDir = [] then defaultUdevDir else udevDir)"
  obtain names where names: "fs_ReadDir fs b = Inr names"
    and ls: "lookups fs b dd names \<noteq> []" and rs: "recorded_disks (lookups fs b dd names) = []"
    using u unfolding database_unavailable_def Let_def b_def [symmetric] dd_def [symmetric]
    by (cases "fs_ReadDir fs b") simp_all
  obtain e where e: "first_error (lookups fs b dd names) = Some e"
    using first_error_exists [OF ls rs] by blast
  show ?thesis
    unfolding DiscoverDisks_def Let_def b_def [symmetric] dd_def [symmetric] names sum.case scan_spec
    using ls rs e by (simp add: scan_init_def)
qed

subsection \<open>Properties\<close>

definition or_default :: "string \<Rightarrow> string \<Rightarrow> string" where
  "or_default d s = (if s = [] then d else s)"

text \<open>
  C14: the scan returns, in the order of the listing, the disks that have a udev record and that
  neither the built-in filter nor a rule drops; it fails exactly when the listing fails or when
  there are whole disks and none of them has a record.
\<close>

theorem DiscoverDisks_spec:
  "DiscoverDisks fs sysDir udevDir node rules =
     (let blockDir = path_join [or_default defaultSysDir sysDir, ''block''];
          dataDir = or_default defaultUdevDir udevDir
      in case fs_ReadDir fs blockDir of
           Inl e \<Rightarrow> Inl (ListFailed e)
         | Inr names \<Rightarrow>
             (let ls = lookups fs blockDir dataDir names in
              if ls \<noteq> [] \<and> recorded_disks ls = []
              then Inl (UdevUnavailable (length ls) dataDir (first_error ls))
              else Inr (filter (\<lambda>d. \<not> IsExcluded node d rules) (inventory fs blockDir ls))))"
  by (simp add: DiscoverDisks_def or_default_def scan_spec scan_init_def Let_def
      del: lookups.simps split: sum.split)

text \<open>
  C40: the exclusion rules only filter the inventory: they never cause or hide an error and never
  change or reorder the remaining disks.
\<close>

theorem DiscoverDisks_rules_filter:
  "DiscoverDisks fs sysDir udevDir node rules =
     map_sum id (filter (\<lambda>d. \<not> IsExcluded node d rules)) (DiscoverDisks fs sysDir udevDir node [])"
  by (simp add: DiscoverDisks_def scan_spec scan_init_def Let_def IsExcluded_def
      del: lookups.simps split: sum.split)

text \<open>
  An unavailable database is reported with the number of whole disks, which is positive, and
  with the error of the first record that could not be read, which always exists.
\<close>

theorem DiscoverDisks_unavailable:
  "case DiscoverDisks fs sysDir udevDir node rules of
     Inl (UdevUnavailable n dir e) \<Rightarrow> 0 < n \<and> e \<noteq> None \<and> dir \<noteq> []
   | _ \<Rightarrow> True"
  using first_error_exists
  by (auto simp: DiscoverDisks_def scan_spec scan_init_def Let_def defaultUdevDir_def
      simp del: lookups.simps split: sum.split)

text \<open>The device numbers that the kernel writes to \<^verbatim>\<open>dev\<close> are read back unchanged.\<close>

theorem scan_devnum_roundtrip:
  assumes "int64_range major" and "int64_range minor"
  shows "scan_devnum (itoa major @ '':'' @ itoa minor @ [CHR 0x0A]) = Some (major, minor)"
proof -
  have "scan_d (itoa major @ '':'' @ itoa minor @ [CHR 0x0A]) =
      Some (major, '':'' @ itoa minor @ [CHR 0x0A])"
    by (rule scan_d_itoa [OF assms(1)]) (simp add: is_digit_def)
  moreover have "scan_d (itoa minor @ [CHR 0x0A]) = Some (minor, [CHR 0x0A])"
    by (rule scan_d_itoa [OF assms(2)]) (simp add: is_digit_def)
  ultimately show ?thesis by (simp add: scan_devnum_def)
qed

theorem scan_devnum_roundtrip_witness:
  "scan_devnum (itoa 259 @ '':'' @ itoa 12 @ [CHR 0x0A]) = Some (259, 12)"
  by (rule scan_devnum_roundtrip) (simp_all add: int64_range_def)

text \<open>
  C30: a udev record is read back: the symlinks in order, every property with its last value, and
  nothing from the lines with other tags.
\<close>

theorem ParseUdevDataFile_roundtrip:
  assumes "fs_ReadFile fs path = Inr (record_text ls)" and "list_all readable_line ls"
  shows "ParseUdevDataFile fs path =
    Inr \<lparr>Properties = record_properties ls, Symlinks = record_links ls\<rparr>"
  using assms by (simp add: ParseUdevDataFile_def scan_record_text add_record_lines)

definition sample_lines :: "record_line list" where
  "sample_lines = [SymlinkLine ''disk/by-id/wwn-0x5000'', OtherLine ''I:123'',
     PropertyLine ''ID_WWN'' ''0x5000'', PropertyLine ''ID_MODEL'' ''A=B'']"

definition sample_fs :: FileSystem where
  "sample_fs = \<lparr>fs_ReadDir = (\<lambda>_. Inr [''sda'']), fs_ReadFile = (\<lambda>path.
       if path = ''/run/udev/data/b8:0'' then Inr (record_text sample_lines)
       else if path = ''/sys/block/sda/dev'' then Inr (''8:0'' @ [CHR 0x0A])
       else if path = ''/sys/block/sda/size'' then Inr (itoa 1953525168 @ [CHR 0x0A])
       else Inl ''no such file''),
     fs_Stat = (\<lambda>_. False), fs_Readlink = (\<lambda>_. Inr ''../devices/pci0/block/sda'')\<rparr>"

lemma sample_lines_readable: "list_all readable_line sample_lines"
proof -
  have "list_all (\<lambda>l. trim_space (line_text l) = line_text l) sample_lines" by code_simp
  then show ?thesis by (simp add: sample_lines_def readable_line_def max_token_def)
qed

lemma sample_record_properties:
  "record_properties sample_lines = [''ID_MODEL'' \<mapsto> ''A=B'', ''ID_WWN'' \<mapsto> ''0x5000'']"
  by (auto simp: sample_lines_def record_properties_def fun_eq_iff)

definition sample_disk :: DiskInfo where
  "sample_disk = make_disk sample_fs ''/sys/block/sda'' ''sda'' 8 0
     \<lparr>Properties = [''ID_MODEL'' \<mapsto> ''A=B'', ''ID_WWN'' \<mapsto> ''0x5000''],
      Symlinks = record_links sample_lines\<rparr>"

lemma sample_inventory:
  "DiscoverDisks sample_fs [] [] node rules =
     Inr (filter (\<lambda>d. \<not> IsExcluded node d rules) [sample_disk])"
proof -
  have paths: "path_join [defaultSysDir, ''block''] = ''/sys/block''"
    "path_join [''/sys/block'', ''sda''] = ''/sys/block/sda''"
    "path_join [''/sys/block/sda'', ''dev''] = ''/sys/block/sda/dev''"
    "record_path defaultUdevDir 8 0 = ''/run/udev/data/b8:0''"
    "scan_devnum (''8:0'' @ [CHR 0x0A]) = Some (8, 0)"
    by code_simp+
  have "ParseUdevDataFile sample_fs ''/run/udev/data/b8:0'' =
    Inr \<lparr>Properties = [''ID_MODEL'' \<mapsto> ''A=B'', ''ID_WWN'' \<mapsto> ''0x5000''],
       Symlinks = record_links sample_lines\<rparr>"
    by (simp add: ParseUdevDataFile_def sample_fs_def scan_record_text [OF sample_lines_readable]
        add_record_lines [OF sample_lines_readable] sample_record_properties)
  moreover have "fs_ReadFile sample_fs ''/sys/block/sda/dev'' = Inr (''8:0'' @ [CHR 0x0A])"
    "fs_ReadDir sample_fs d = Inr [''sda'']" "fs_Stat sample_fs d = False" for d
    by (simp_all add: sample_fs_def)
  moreover have "\<not> ShouldIgnore ''sda'' [''ID_MODEL'' \<mapsto> ''A=B'', ''ID_WWN'' \<mapsto> ''0x5000'']"
    by code_simp
  ultimately show ?thesis
    by (simp add: DiscoverDisks_def Let_def paths scan_entry_def scan_init_def sample_disk_def
        del: append.simps)
qed

theorem ParseUdevDataFile_roundtrip_witness:
  "ParseUdevDataFile sample_fs ''/run/udev/data/b8:0'' =
    Inr \<lparr>Properties = [''ID_MODEL'' \<mapsto> ''A=B'', ''ID_WWN'' \<mapsto> ''0x5000''],
         Symlinks = [''disk/by-id/wwn-0x5000'']\<rparr>"
proof -
  have "ParseUdevDataFile sample_fs ''/run/udev/data/b8:0'' =
      Inr \<lparr>Properties = record_properties sample_lines, Symlinks = record_links sample_lines\<rparr>"
    using sample_lines_readable by (intro ParseUdevDataFile_roundtrip) (simp_all add: sample_fs_def)
  then show ?thesis by (simp add: sample_record_properties) (simp add: sample_lines_def record_links_def)
qed

text \<open>
  The capacity is 512 bytes for every sector that the kernel reports, without overflow up to
  2^54 sectors (8 EiB).
\<close>

theorem capacityBytes_sectors:
  assumes "fs_ReadFile fs (path_join [entry, ''size'']) = Inr (itoa n @ [CHR 0x0A])"
    and "0 \<le> n" and "n < 2 ^ 54"
  shows "capacityBytes fs entry = 512 * n"
proof -
  have "trim_space (itoa n @ [CHR 0x0A]) = itoa n"
    using itoa_plain [of n] by (intro trim_space_line)
  moreover have "ParseInt (itoa n) = Some n"
    using assms(2,3) by (intro ParseInt_itoa) (simp add: int64_range_def)
  moreover have "wrap64 (n * 512) = n * 512"
    using assms(2,3) by (intro wrap64_id) (simp add: int64_range_def)
  ultimately show ?thesis using assms(1) by (simp add: capacityBytes_def)
qed

theorem capacityBytes_sectors_witness: "capacityBytes sample_fs ''/sys/block/sda'' = 512 * 1953525168"
proof (rule capacityBytes_sectors)
  have "path_join [''/sys/block/sda'', ''size''] = ''/sys/block/sda/size''" by code_simp
  then show "fs_ReadFile sample_fs (path_join [''/sys/block/sda'', ''size'']) =
      Inr (itoa 1953525168 @ [CHR 0x0A])"
    by (simp add: sample_fs_def)
qed simp_all

end
