(* ===== verification/Controller.thy ===== *)
theory Controller
  imports Disk_Status Labels Udev
begin

text \<open>
  The reconciler of \<^verbatim>\<open>pkg/controller/physicaldisk_controller.go\<close>: \<open>markDiskMissing\<close>,
  \<open>deleteIfExcluded\<close>, \<open>markAbsentDisks\<close>, \<open>reconcileDisk\<close>, \<open>ReconcileAll\<close> and \<open>Reconcile\<close>, with
  explicit passing of a world: the state of the API server, of any type, and the trace of what the
  monitor did (API calls, gauge operations, recorded events, in order).

  Parameters are the fields of \<open>DiskMonitor\<close>: the Kubernetes client, the smartctl runner, the file
  system, the conflict retry of client-go and the label validation.  A client call may fail at any
  time and may change the state of the server, so other writers are covered.  Logging is left out.
\<close>

subsection \<open>The world\<close>

datatype api_error = ApiNotFound string | ApiConflict string | ApiOther string

datatype api_call =
    GetDisk string
  | ListDisks "string \<times> string"
  | CreateDisk PhysicalDisk
  | DeleteDisk PhysicalDisk
  | PatchDisk PhysicalDisk PhysicalDisk
  | UpdateDiskStatus PhysicalDisk
  | PatchDiskStatus PhysicalDisk PhysicalDisk

datatype act = Api api_call | Effect effect

record 's World =
  w_api :: 's
  w_trace :: "act list"

text \<open>
  The client.  Get and List read, Create and the patches return the object that the server
  answers with; the patches take the base they are computed from.
\<close>

record 's Client =
  cl_Get :: "string \<Rightarrow> 's \<Rightarrow> (api_error + PhysicalDisk) \<times> 's"
  cl_List :: "string \<times> string \<Rightarrow> 's \<Rightarrow> (api_error + PhysicalDisk list) \<times> 's"
  cl_Create :: "PhysicalDisk \<Rightarrow> 's \<Rightarrow> (api_error + PhysicalDisk) \<times> 's"
  cl_Delete :: "PhysicalDisk \<Rightarrow> 's \<Rightarrow> api_error option \<times> 's"
  cl_Patch :: "PhysicalDisk \<Rightarrow> PhysicalDisk \<Rightarrow> 's \<Rightarrow> (api_error + PhysicalDisk) \<times> 's"
  cl_StatusUpdate :: "PhysicalDisk \<Rightarrow> 's \<Rightarrow> api_error option \<times> 's"
  cl_StatusPatch :: "PhysicalDisk \<Rightarrow> PhysicalDisk \<Rightarrow> 's \<Rightarrow> (api_error + PhysicalDisk) \<times> 's"

record NodeRef =
  nr_Name :: string
  nr_UID :: string

record 's DiskMonitor = StatusEnv +
  dm_Client :: "'s Client"
  dm_Collect :: "string \<Rightarrow> string \<Rightarrow> collect_error + SmartctlOutput"
  dm_Fs :: FileSystem
  dm_NodeRef :: "NodeRef option"
  dm_RetryOnConflict ::
    "('s World \<Rightarrow> api_error option \<times> 's World) \<Rightarrow> 's World \<Rightarrow> api_error option \<times> 's World"
  dm_IsValidLabelValue :: "string \<Rightarrow> string list"

definition call :: "api_call \<Rightarrow> ('s \<Rightarrow> 'r \<times> 's) \<Rightarrow> 's World \<Rightarrow> 'r \<times> 's World" where
  "call c f w = (let (r, s) = f (w_api w) in (r, \<lparr>w_api = s, w_trace = w_trace w @ [Api c]\<rparr>))"

definition emit :: "effect list \<Rightarrow> 's World \<Rightarrow> 's World" where
  "emit effs w = w\<lparr>w_trace := w_trace w @ map Effect effs\<rparr>"

definition api_Get :: "'s DiskMonitor \<Rightarrow> string \<Rightarrow> 's World \<Rightarrow> (api_error + PhysicalDisk) \<times> 's World" where
  "api_Get m name = call (GetDisk name) (cl_Get (dm_Client m) name)"

definition api_List ::
  "'s DiskMonitor \<Rightarrow> string \<times> string \<Rightarrow> 's World \<Rightarrow> (api_error + PhysicalDisk list) \<times> 's World" where
  "api_List m sel = call (ListDisks sel) (cl_List (dm_Client m) sel)"

definition api_Create ::
  "'s DiskMonitor \<Rightarrow> PhysicalDisk \<Rightarrow> 's World \<Rightarrow> (api_error + PhysicalDisk) \<times> 's World" where
  "api_Create m d = call (CreateDisk d) (cl_Create (dm_Client m) d)"

definition api_Delete ::
  "'s DiskMonitor \<Rightarrow> PhysicalDisk \<Rightarrow> 's World \<Rightarrow> api_error option \<times> 's World" where
  "api_Delete m d = call (DeleteDisk d) (cl_Delete (dm_Client m) d)"

definition api_Patch ::
  "'s DiskMonitor \<Rightarrow> PhysicalDisk \<Rightarrow> PhysicalDisk \<Rightarrow> 's World \<Rightarrow> (api_error + PhysicalDisk) \<times> 's World"
where
  "api_Patch m base d = call (PatchDisk base d) (cl_Patch (dm_Client m) base d)"

definition api_StatusUpdate ::
  "'s DiskMonitor \<Rightarrow> PhysicalDisk \<Rightarrow> 's World \<Rightarrow> api_error option \<times> 's World" where
  "api_StatusUpdate m d = call (UpdateDiskStatus d) (cl_StatusUpdate (dm_Client m) d)"

definition api_StatusPatch ::
  "'s DiskMonitor \<Rightarrow> PhysicalDisk \<Rightarrow> PhysicalDisk \<Rightarrow> 's World \<Rightarrow> (api_error + PhysicalDisk) \<times> 's World"
where
  "api_StatusPatch m base d = call (PatchDiskStatus base d) (cl_StatusPatch (dm_Client m) base d)"

lemmas api_defs = api_Get_def api_List_def api_Create_def api_Delete_def api_Patch_def
  api_StatusUpdate_def api_StatusPatch_def

datatype reconcile_error =
    GetError api_error
  | GetDiskFailed string api_error
  | CreateDiskFailed string api_error
  | DeleteDiskFailed string api_error
  | UpdateStatusFailed string api_error
  | MarkMissingFailed string api_error
  | ListFailedError api_error
  | DiscoverFailed discover_error

subsection \<open>Disks that are gone\<close>

definition missing_condition :: "string \<Rightarrow> Condition" where
  "missing_condition message =
     new_condition ConditionDataCollected ConditionFalse ReasonDiskMissing message"

text \<open>The function that is retried on a conflict.\<close>

definition mark_latest ::
  "'s DiskMonitor \<Rightarrow> string \<Rightarrow> string \<Rightarrow> 's World \<Rightarrow> api_error option \<times> 's World" where
  "mark_latest m name message w =
     (case api_Get m name w of
        (Inl e, w) \<Rightarrow> (Some e, w)
      | (Inr latestDisk, w) \<Rightarrow>
          (let (latestDisk, changed) = with_condition m latestDisk (missing_condition message) in
           if \<not> changed then (None, w)
           else api_StatusUpdate m latestDisk
             (emit (recordEvent m latestDisk WarningEvent ReasonDiskMissing message) w)))"

definition markDiskMissing ::
  "'s DiskMonitor \<Rightarrow> PhysicalDisk \<Rightarrow> string \<Rightarrow> 's World \<Rightarrow> reconcile_error option \<times> 's World" where
  "markDiskMissing m disk message w =
     (let w = emit (map Gauge (DeleteDeviceHealthMetrics (node_of m) (pd_Name disk)) @
            [set_collection_success m (pd_Name disk) (di_Path (Info (pd_Status disk))) 0]) w
      in case dm_RetryOnConflict m (mark_latest m (pd_Name disk) message) w of
           (Some e, w) \<Rightarrow> (Some (MarkMissingFailed (pd_Name disk) e), w)
         | (None, w) \<Rightarrow> (None, w))"

definition deleteIfExcluded ::
  "'s DiskMonitor \<Rightarrow> PhysicalDisk \<Rightarrow> 's World \<Rightarrow> (reconcile_error + bool) \<times> 's World" where
  "deleteIfExcluded m disk w =
     (let (rule, excluded) = FindMatchingRule (node_of m) (Info (pd_Status disk))
            (mo_ExcludeRules (dm_Options m))
      in if \<not> excluded then (Inr False, w)
         else (let (err, w) = api_Delete m disk w;
                   w' = emit (map Gauge (DeleteAllDiskMetrics (node_of m) (pd_Name disk))) w
               in case err of
                    None \<Rightarrow> (Inr True, w')
                  | Some (ApiNotFound _) \<Rightarrow> (Inr True, w')
                  | Some e \<Rightarrow> (Inl (DeleteDiskFailed (pd_Name disk) e), w)))"

fun absent_loop ::
  "'s DiskMonitor \<Rightarrow> string set \<Rightarrow> PhysicalDisk list \<Rightarrow> 's World \<Rightarrow> reconcile_error list \<times> 's World"
where
  "absent_loop m discovered [] w = ([], w)"
| "absent_loop m discovered (disk # disks) w =
     (if NodeName (pd_Spec disk) \<noteq> node_of m then absent_loop m discovered disks w
      else case deleteIfExcluded m disk w of
        (Inl e, w) \<Rightarrow>
          (let (errs, w) = absent_loop m discovered disks w in (e # errs, w))
      | (Inr deleted, w) \<Rightarrow>
          if \<not> deleted \<and> pd_Name disk \<notin> discovered then
            (case markDiskMissing m disk ''Hardware device not found during inventory scan'' w of
               (Some e, w) \<Rightarrow>
                 (let (errs, w) = absent_loop m discovered disks w in (e # errs, w))
             | (None, w) \<Rightarrow> absent_loop m discovered disks w)
          else absent_loop m discovered disks w)"

definition node_label :: "'s DiskMonitor \<Rightarrow> string" where
  "node_label m = MustFormatValue (dm_IsValidLabelValue m) (node_of m)"

definition markAbsentDisks ::
  "'s DiskMonitor \<Rightarrow> DiskInfo list \<Rightarrow> 's World \<Rightarrow> reconcile_error list \<times> 's World" where
  "markAbsentDisks m diskInfos w =
     (case api_List m (LabelNodeName, node_label m) w of
        (Inl e, w) \<Rightarrow> ([ListFailedError e], w)
      | (Inr items, w) \<Rightarrow>
          absent_loop m (set (map (GenerateCRName (node_of m)) diskInfos)) items w)"

subsection \<open>Disks that are present\<close>

definition ownerReferences :: "'s DiskMonitor \<Rightarrow> OwnerReference list" where
  "ownerReferences m =
     (case dm_NodeRef m of None \<Rightarrow> []
      | Some node \<Rightarrow> [\<lparr>or_APIVersion = ''v1'', or_Kind = ''Node'', or_Name = nr_Name node,
          or_UID = nr_UID node, or_Controller = Some False\<rparr>])"

definition new_resource :: "'s DiskMonitor \<Rightarrow> string \<Rightarrow> PhysicalDisk" where
  "new_resource m name =
     \<lparr>pd_Name = name, pd_Labels = [LabelNodeName \<mapsto> node_label m],
      pd_OwnerReferences = ownerReferences m, pd_Generation = 0, pd_ResourceVersion = [],
      pd_Spec = \<lparr>NodeName = node_of m, Smartmontools = None\<rparr>,
      pd_Status = empty_PhysicalDiskStatus\<rparr>"

definition get_or_create ::
  "'s DiskMonitor \<Rightarrow> string \<Rightarrow> 's World \<Rightarrow> (reconcile_error + PhysicalDisk) \<times> 's World" where
  "get_or_create m name w =
     (case api_Get m name w of
        (Inr disk, w) \<Rightarrow> (Inr disk, w)
      | (Inl (ApiNotFound _), w) \<Rightarrow>
          (case api_Create m (new_resource m name) w of
             (Inl e, w) \<Rightarrow> (Inl (CreateDiskFailed name e), w)
           | (Inr disk, w) \<Rightarrow> (Inr disk, w))
      | (Inl e, w) \<Rightarrow> (Inl (GetDiskFailed name e), w))"

text \<open>A patch that fails is only logged; the label stays set in the local copy.\<close>

definition ensure_label :: "'s DiskMonitor \<Rightarrow> PhysicalDisk \<Rightarrow> 's World \<Rightarrow> PhysicalDisk \<times> 's World" where
  "ensure_label m disk w =
     (if get_prop (pd_Labels disk) LabelNodeName \<noteq> node_label m then
        (let labelled = disk\<lparr>pd_Labels := (pd_Labels disk)(LabelNodeName \<mapsto> node_label m)\<rparr> in
         case api_Patch m disk labelled w of
           (Inl _, w) \<Rightarrow> (labelled, w)
         | (Inr patched, w) \<Rightarrow> (patched, w))
      else (disk, w))"

definition extra_args :: "PhysicalDisk \<Rightarrow> string" where
  "extra_args disk =
     (case Smartmontools (pd_Spec disk) of None \<Rightarrow> []
      | Some s \<Rightarrow> (case Smartctl s of None \<Rightarrow> [] | Some c \<Rightarrow> ExtraCmdArgs c))"

text \<open>The new status of a disk after a run of smartctl, and what the monitor publishes.\<close>

definition collect_status ::
  "'s DiskMonitor \<Rightarrow> PhysicalDisk \<Rightarrow> DiskInfo \<Rightarrow> PhysicalDisk \<times> effect list" where
  "collect_status m disk diskInfo =
     (let disk = disk\<lparr>pd_Status := (pd_Status disk)\<lparr>Info := diskInfo\<rparr>\<rparr> in
      case dm_Collect m (di_Path diskInfo) (extra_args disk) of
        Inl collectErr \<Rightarrow> applyCollectionFailure m disk diskInfo collectErr
      | Inr smartData \<Rightarrow>
          (let fw = so_FirmwareVersion smartData;
               diskInfo = (if fw \<noteq> [] then diskInfo\<lparr>di_FirmwareVersion := fw\<rparr> else diskInfo);
               disk = (if fw \<noteq> [] then disk\<lparr>pd_Status := (pd_Status disk)
                   \<lparr>Info := (Info (pd_Status disk))\<lparr>di_FirmwareVersion := fw\<rparr>\<rparr>\<rparr> else disk)
           in applyCollectionSuccess m disk diskInfo smartData))"

definition reconcileDisk ::
  "'s DiskMonitor \<Rightarrow> DiskInfo \<Rightarrow> 's World \<Rightarrow> reconcile_error option \<times> 's World" where
  "reconcileDisk m diskInfo w =
     (let name = GenerateCRName (node_of m) diskInfo in
      case get_or_create m name w of
        (Inl e, w) \<Rightarrow> (Some e, w)
      | (Inr disk, w) \<Rightarrow>
          (let (base, w) = ensure_label m disk w;
               (disk, effs) = collect_status m base diskInfo
           in case api_StatusPatch m base disk (emit effs w) of
                (Inl e, w) \<Rightarrow> (Some (UpdateStatusFailed name e), w)
              | (Inr _, w) \<Rightarrow> (None, w)))"

subsection \<open>Scans and requests\<close>

definition discover :: "'s DiskMonitor \<Rightarrow> discover_error + DiskInfo list" where
  "discover m = (let o' = dm_Options m in
     DiscoverDisks (dm_Fs m) (mo_SysDir o') (mo_UdevDataDir o') (mo_NodeName o') (mo_ExcludeRules o'))"

fun reconcile_disks ::
  "'s DiskMonitor \<Rightarrow> DiskInfo list \<Rightarrow> 's World \<Rightarrow> reconcile_error list \<times> 's World" where
  "reconcile_disks m [] w = ([], w)"
| "reconcile_disks m (info # infos) w =
     (let (err, w) = reconcileDisk m info w; (errs, w) = reconcile_disks m infos w
      in (case err of None \<Rightarrow> errs | Some e \<Rightarrow> e # errs, w))"

text \<open>The joined errors are a list, empty when there is none.\<close>

definition ReconcileAll :: "'s DiskMonitor \<Rightarrow> 's World \<Rightarrow> reconcile_error list \<times> 's World" where
  "ReconcileAll m w =
     (case discover m of
        Inl e \<Rightarrow> ([DiscoverFailed e], w)
      | Inr diskInfos \<Rightarrow>
          (let (absent_errs, w) = markAbsentDisks m diskInfos w;
               (errs, w) = reconcile_disks m diskInfos w
           in (absent_errs @ errs, w)))"

definition Reconcile :: "'s DiskMonitor \<Rightarrow> string \<Rightarrow> 's World \<Rightarrow> reconcile_error option \<times> 's World" where
  "Reconcile m name w =
     (case api_Get m name w of
        (Inl (ApiNotFound _), w) \<Rightarrow> (None, w)
      | (Inl e, w) \<Rightarrow> (Some (GetError e), w)
      | (Inr disk, w) \<Rightarrow>
          if NodeName (pd_Spec disk) \<noteq> node_of m then (None, w)
          else (case discover m of
            Inl e \<Rightarrow> (Some (DiscoverFailed e), w)
          | Inr diskInfos \<Rightarrow>
              (case List.find (\<lambda>i. GenerateCRName (node_of m) i = pd_Name disk) diskInfos of
                 Some diskInfo \<Rightarrow> reconcileDisk m diskInfo w
               | None \<Rightarrow>
                   (case deleteIfExcluded m disk w of
                      (Inl e, w) \<Rightarrow> (Some e, w)
                    | (Inr True, w) \<Rightarrow> (None, w)
                    | (Inr False, w) \<Rightarrow>
                        markDiskMissing m disk ''Hardware device not found during reconcile'' w))))"

subsection \<open>The interface to the libraries\<close>

text \<open>
  \<^verbatim>\<open>retry.RetryOnConflict\<close> runs the function, and again as long as it returns a conflict and
  attempts are left; the last result is returned.
\<close>

fun attempts :: "nat \<Rightarrow> ('w \<Rightarrow> api_error option \<times> 'w) \<Rightarrow> 'w \<Rightarrow> api_error option \<times> 'w" where
  "attempts 0 f w = f w"
| "attempts (Suc n) f w =
     (case f w of (Some (ApiConflict e), w') \<Rightarrow> attempts n f w' | r \<Rightarrow> r)"

locale conflict_retry =
  fixes retry :: "('w \<Rightarrow> api_error option \<times> 'w) \<Rightarrow> 'w \<Rightarrow> api_error option \<times> 'w"
  assumes retry_attempts: "\<exists>n. retry f w = attempts n f w"
begin

lemma attempts_keep:
  assumes "\<And>w. I w \<Longrightarrow> I (snd (f w))"
  shows "I w \<Longrightarrow> I (snd (attempts n f w))"
proof (induction n arbitrary: w)
  case (Suc n)
  then show ?case using assms [OF Suc.prems]
    by (cases "f w") (auto split: option.split api_error.split)
qed (simp add: assms)

lemma retry_keeps:
  assumes "\<And>w. I w \<Longrightarrow> I (snd (f w))" and "I w"
  shows "I (snd (retry f w))"
  using retry_attempts [of f w] attempts_keep [of I f w, OF assms] by auto

end

locale disk_monitor =
  fixes m :: "'s DiskMonitor"
  assumes monitor: "status_monitor m"
    and retries: "conflict_retry (dm_RetryOnConflict m)"

sublocale disk_monitor \<subseteq> status_monitor m
  by (rule monitor)

sublocale disk_monitor \<subseteq> conflict_retry "dm_RetryOnConflict m"
  by (rule retries)

subsection \<open>Invariants of a pass\<close>

fun own_gauge :: "string \<Rightarrow> gauge_op \<Rightarrow> bool" where
  "own_gauge node (SetGauge v vs x) \<longleftrightarrow> vs \<noteq> [] \<and> hd vs = node"
| "own_gauge node (DeletePartialMatch v labels) \<longleftrightarrow> map_of labels ''node'' = Some node"

definition own_effects :: "'s DiskMonitor \<Rightarrow> effect list \<Rightarrow> bool" where
  "own_effects m effs \<longleftrightarrow> list_all (own_gauge (node_of m)) (gauge_ops effs)"

definition labelled :: "'s DiskMonitor \<Rightarrow> PhysicalDisk \<Rightarrow> PhysicalDisk" where
  "labelled m d = d\<lparr>pd_Labels := (pd_Labels d)(LabelNodeName \<mapsto> node_label m)\<rparr>"

definition marked :: "'s DiskMonitor \<Rightarrow> string \<Rightarrow> PhysicalDisk \<Rightarrow> PhysicalDisk" where
  "marked m message d = fst (with_condition m d (missing_condition message))"

lemma own_effects_append [simp]:
  "own_effects m (xs @ ys) \<longleftrightarrow> own_effects m xs \<and> own_effects m ys"
  by (simp add: own_effects_def)

lemma own_event [simp]: "own_effects m (recordEvent m d t r msg)"
  by (simp add: own_effects_def)

lemma own_health_event: "own_effects m (snd (setHealth m d s))"
  by (simp add: own_effects_def setHealth_snd)

lemma own_success_gauge: "own_effects m (set_collection_success m d path x # effs) = own_effects m effs"
  by (simp add: own_effects_def set_collection_success_def)

lemma own_deletes: "own_effects m (map Gauge (DeleteDeviceHealthMetrics (node_of m) d))"
    "own_effects m (map Gauge (DeleteAllDiskMetrics (node_of m) d))"
  by (simp_all add: own_effects_def DeleteAllDiskMetrics_def DeleteDeviceHealthMetrics_def
      disk_labels_def)

lemma publish_own: "list_all (own_gauge (node_of m)) (publishHealthMetrics m disk info out status)"
proof -
  have "list_all (own_gauge n) (concat (map (attribute_gauges [n, b, c]) as))" for n b c as
    by (induction as) (simp_all add: attribute_gauges_def Let_def)
  then show ?thesis
    by (auto simp: publishHealthMetrics_def Let_def nvme_gauges_def list_all_iff opt_gauge_def
        split: option.splits)
qed

lemma own_publish: "own_effects m (map Gauge (publishHealthMetrics m disk info out status))"
  using publish_own by (simp add: own_effects_def)

lemma own_success: "own_effects m (snd (applyCollectionSuccess m disk info out))"
  by (simp add: success_snd Let_def own_success_gauge own_health_event own_publish)

lemma own_failure: "own_effects m (snd (applyCollectionFailure m disk info e))"
  by (simp add: failure_snd own_success_gauge) (simp add: own_effects_def)

lemma own_collect: "own_effects m (snd (collect_status m disk info))"
  by (simp add: collect_status_def Let_def own_success own_failure split: sum.split)

text \<open>
  A property of worlds that every single action of the monitor keeps.  The actions are restricted in
  the way the handlers restrict them: they read and create resources with names that are \<open>own\<close>
  (those generated for the disks of the node and those of resources of the node), and write only
  resources that are \<open>good\<close> in the world of the write, as those are that such reads return.  The
  property is then kept by the handlers.
\<close>

locale world_invariant = disk_monitor m for m :: "'s DiskMonitor" +
  fixes I :: "'s World \<Rightarrow> bool" and own :: "string \<Rightarrow> bool" and good :: "'s World \<Rightarrow> PhysicalDisk \<Rightarrow> bool"
  assumes generated_own: "own (GenerateCRName (node_of m) info)"
    and get: "I w \<Longrightarrow> api_Get m name w = (r, w') \<Longrightarrow>
      I w' \<and> (\<forall>d. r = Inr d \<longrightarrow> own name \<longrightarrow> good w' d) \<and>
      (\<forall>d. r = Inr d \<longrightarrow> NodeName (pd_Spec d) = node_of m \<longrightarrow> own (pd_Name d))"
    and list: "I w \<Longrightarrow> api_List m (LabelNodeName, node_label m) w = (rs, w') \<Longrightarrow>
      I w' \<and> (\<forall>ds d. rs = Inr ds \<longrightarrow> d \<in> set ds \<longrightarrow> NodeName (pd_Spec d) = node_of m \<longrightarrow> own (pd_Name d))"
    and create: "I w \<Longrightarrow> own name \<Longrightarrow> api_Create m (new_resource m name) w = (r, w') \<Longrightarrow>
      I w' \<and> (\<forall>d. r = Inr d \<longrightarrow> good w' d)"
    and delete: "I w \<Longrightarrow> NodeName (pd_Spec d) = node_of m \<Longrightarrow>
      IsExcluded (node_of m) (Info (pd_Status d)) (mo_ExcludeRules (dm_Options m)) \<Longrightarrow>
      I (snd (api_Delete m d w))"
    and patch: "I w \<Longrightarrow> good w d \<Longrightarrow> api_Patch m d (labelled m d) w = (r, w') \<Longrightarrow>
      I w' \<and> good w' (case r of Inl e \<Rightarrow> labelled m d | Inr d' \<Rightarrow> d')"
    and update: "I w \<Longrightarrow> good w d \<Longrightarrow> I (snd (api_StatusUpdate m (marked m message d) w))"
    and status_patch: "I w \<Longrightarrow> good w d \<Longrightarrow>
      I (snd (api_StatusPatch m d (fst (collect_status m d info)) w))"
    and emits: "I w \<Longrightarrow> own_effects m effs \<Longrightarrow> I (emit effs w)"
    and emits_good: "good w d \<Longrightarrow> good (emit effs w) d"
begin

lemma mark_latest_keeps: "I w \<Longrightarrow> own name \<Longrightarrow> I (snd (mark_latest m name message w))"
proof -
  assume w: "I w" and own: "own name"
  obtain r w1 where g: "api_Get m name w = (r, w1)" by fastforce
  note w1 = get [OF w g]
  show ?thesis
  proof (cases r)
    case (Inl e)
    with g w1 show ?thesis by (simp add: mark_latest_def)
  next
    case (Inr d)
    then have "good w1 d" using w1 own by simp
    moreover have "I (emit (recordEvent m (marked m message d) WarningEvent ReasonDiskMissing message) w1)"
      using w1 by (intro emits own_event) simp
    ultimately show ?thesis
      using g Inr w1 update emits_good unfolding mark_latest_def marked_def
      by (simp add: Let_def split_beta)
  qed
qed

lemma markDiskMissing_keeps: "I w \<Longrightarrow> own (pd_Name disk) \<Longrightarrow> I (snd (markDiskMissing m disk message w))"
proof -
  assume w: "I w" and own: "own (pd_Name disk)"
  let ?effs = "map Gauge (DeleteDeviceHealthMetrics (node_of m) (pd_Name disk)) @
    [set_collection_success m (pd_Name disk) (di_Path (Info (pd_Status disk))) 0]"
  have "own_effects m ?effs"
    using own_deletes(1) [of m "pd_Name disk"]
    by (simp add: own_success_gauge) (simp add: own_effects_def)
  with w have "I (emit ?effs w)" by (rule emits)
  then have "I (snd (dm_RetryOnConflict m (mark_latest m (pd_Name disk) message) (emit ?effs w)))"
    by (rule retry_keeps [rotated]) (rule mark_latest_keeps [OF _ own])
  then show ?thesis
    unfolding markDiskMissing_def Let_def
    by (cases "dm_RetryOnConflict m (mark_latest m (pd_Name disk) message) (emit ?effs w)";
        cases "fst (dm_RetryOnConflict m (mark_latest m (pd_Name disk) message) (emit ?effs w))")
      simp_all
qed

lemma deleteIfExcluded_keeps:
  "I w \<Longrightarrow> NodeName (pd_Spec disk) = node_of m \<Longrightarrow> I (snd (deleteIfExcluded m disk w))"
proof -
  assume w: "I w" and node: "NodeName (pd_Spec disk) = node_of m"
  have own: "own_effects m (map Gauge (DeleteAllDiskMetrics (node_of m) (pd_Name disk)))"
    by (rule own_deletes)
  show ?thesis
  proof (cases "IsExcluded (node_of m) (Info (pd_Status disk)) (mo_ExcludeRules (dm_Options m))")
    case True
    obtain r w1 where del: "api_Delete m disk w = (r, w1)" by fastforce
    have "I w1" using delete [OF w node True] del by simp
    moreover from this have
      "I (emit (map Gauge (DeleteAllDiskMetrics (node_of m) (pd_Name disk))) w1)"
      using own by (rule emits)
    ultimately show ?thesis
      using True del unfolding deleteIfExcluded_def IsExcluded_def
      by (simp add: split_beta Let_def split: option.split api_error.split)
  next
    case False
    with w show ?thesis
      unfolding deleteIfExcluded_def IsExcluded_def by (simp add: split_beta)
  qed
qed

lemma absent_loop_keeps:
  "I w \<Longrightarrow> (\<And>d. d \<in> set disks \<Longrightarrow> NodeName (pd_Spec d) = node_of m \<Longrightarrow> own (pd_Name d)) \<Longrightarrow>
   I (snd (absent_loop m discovered disks w))"
proof (induction disks arbitrary: w)
  case (Cons disk disks)
  show ?case
  proof (cases "NodeName (pd_Spec disk) = node_of m")
    case True
    obtain r w1 where del: "deleteIfExcluded m disk w = (r, w1)" by fastforce
    have w1: "I w1" using deleteIfExcluded_keeps [OF Cons.prems(1) True] del by simp
    obtain e w2 where
      mark: "markDiskMissing m disk ''Hardware device not found during inventory scan'' w1 = (e, w2)"
      by fastforce
    have "I w2"
      using markDiskMissing_keeps [OF w1, of disk "''Hardware device not found during inventory scan''"]
        mark Cons.prems(2) True by simp
    then show ?thesis
      using True del mark Cons.IH [of w1] Cons.IH [of w2] w1 Cons.prems(2)
      by (auto split: sum.split prod.split option.split)
  qed (simp add: Cons)
qed simp

lemma markAbsentDisks_keeps: "I w \<Longrightarrow> I (snd (markAbsentDisks m infos w))"
  using list [of w] absent_loop_keeps
  by (auto simp: markAbsentDisks_def split: prod.split sum.split)

lemma get_or_create_keeps:
  "I w \<Longrightarrow> own name \<Longrightarrow> get_or_create m name w = (r, w') \<Longrightarrow> I w' \<and> (\<forall>d. r = Inr d \<longrightarrow> good w' d)"
proof -
  assume w: "I w" and own: "own name" and r: "get_or_create m name w = (r, w')"
  obtain g w1 where g: "api_Get m name w = (g, w1)" by fastforce
  note w1 = get [OF w g]
  obtain c w2 where c: "api_Create m (new_resource m name) w1 = (c, w2)" by fastforce
  have "I w2 \<and> (\<forall>d. c = Inr d \<longrightarrow> good w2 d)" using create [OF _ own c] w1 by simp
  with r g c w1 own show ?thesis
    by (auto simp: get_or_create_def split: sum.splits api_error.splits)
qed

lemma ensure_label_keeps:
  "I w \<Longrightarrow> good w d \<Longrightarrow> ensure_label m d w = (d', w') \<Longrightarrow> I w' \<and> good w' d'"
  using patch [of w d]
  by (auto simp: ensure_label_def Let_def labelled_def split: if_splits prod.splits sum.splits)

lemma reconcileDisk_keeps: "I w \<Longrightarrow> I (snd (reconcileDisk m info w))"
proof -
  assume w: "I w"
  obtain r w1 where get1: "get_or_create m (GenerateCRName (node_of m) info) w = (r, w1)" by fastforce
  note w1 = get_or_create_keeps [OF w generated_own get1]
  show ?thesis
  proof (cases r)
    case (Inl e)
    with get1 w1 show ?thesis by (simp add: reconcileDisk_def)
  next
    case (Inr disk)
    obtain base w2 where lab: "ensure_label m disk w1 = (base, w2)" by fastforce
    have base: "I w2" "good w2 base" using ensure_label_keeps [OF _ _ lab] w1 Inr by auto
    obtain d effs where coll: "collect_status m base info = (d, effs)" by fastforce
    have "I (emit effs w2)"
      using own_collect [of m base info] coll by (intro emits base) simp
    then have "I (snd (api_StatusPatch m base d (emit effs w2)))"
      using status_patch [of "emit effs w2" base info] emits_good [OF base(2)] coll by simp
    then show ?thesis
      using get1 Inr lab coll
      by (simp add: reconcileDisk_def split_beta split: sum.split)
  qed
qed

lemma reconcile_disks_keeps: "I w \<Longrightarrow> I (snd (reconcile_disks m infos w))"
proof (induction infos arbitrary: w)
  case (Cons info infos)
  show ?case using Cons.IH [OF reconcileDisk_keeps [OF Cons.prems, of info]]
    by (simp add: split_beta Let_def)
qed simp

lemma ReconcileAll_keeps: "I w \<Longrightarrow> I (snd (ReconcileAll m w))"
  using markAbsentDisks_keeps reconcile_disks_keeps
  by (simp add: ReconcileAll_def split_beta Let_def split: sum.split)

lemma Reconcile_keeps: "I w \<Longrightarrow> I (snd (Reconcile m name w))"
proof -
  assume w: "I w"
  obtain r w1 where g: "api_Get m name w = (r, w1)" by fastforce
  have w1: "I w1" and own: "\<And>d. r = Inr d \<Longrightarrow> NodeName (pd_Spec d) = node_of m \<Longrightarrow> own (pd_Name d)"
    using get [OF w g] by auto
  show ?thesis
  proof (cases r)
    case (Inl e)
    with g w1 show ?thesis by (simp add: Reconcile_def split: api_error.split)
  next
    case (Inr disk)
    show ?thesis
    proof (cases "NodeName (pd_Spec disk) = node_of m")
      case False
      with g Inr w1 show ?thesis by (simp add: Reconcile_def)
    next
      case True
      obtain x w2 where del: "deleteIfExcluded m disk w1 = (x, w2)" by fastforce
      have "I w2" using deleteIfExcluded_keeps [OF w1 True] del by simp
      then show ?thesis
        using g Inr True w1 del own
        by (simp add: Reconcile_def reconcileDisk_keeps markDiskMissing_keeps
            split: sum.split option.split bool.split)
    qed
  qed
qed

end

subsection \<open>Everything a pass does concerns its own node\<close>

text \<open>
  The actions that a monitor may take: it deletes only resources of its node that a rule excludes,
  creates resources with its node, label and owner, patches nothing but the label and the status,
  marks disks as missing, and touches only the metrics of its node.
\<close>

fun own_call :: "'s DiskMonitor \<Rightarrow> api_call \<Rightarrow> bool" where
  "own_call m (DeleteDisk d) \<longleftrightarrow> NodeName (pd_Spec d) = node_of m \<and>
     IsExcluded (node_of m) (Info (pd_Status d)) (mo_ExcludeRules (dm_Options m))"
| "own_call m (CreateDisk d) \<longleftrightarrow> d = new_resource m (pd_Name d)"
| "own_call m (PatchDisk base d) \<longleftrightarrow> d = labelled m base"
| "own_call m (PatchDiskStatus base d) \<longleftrightarrow> d = base\<lparr>pd_Status := pd_Status d\<rparr>"
| "own_call m (UpdateDiskStatus d) \<longleftrightarrow>
     map_option (\<lambda>c. (c_Status c, c_Reason c))
       (find_condition ConditionDataCollected (Conditions (pd_Status d))) =
     Some (ConditionFalse, ReasonDiskMissing)"
| "own_call m (GetDisk _) \<longleftrightarrow> True"
| "own_call m (ListDisks sel) \<longleftrightarrow> sel = (LabelNodeName, node_label m)"

fun own_act :: "'s DiskMonitor \<Rightarrow> act \<Rightarrow> bool" where
  "own_act m (Api c) \<longleftrightarrow> own_call m c"
| "own_act m (Effect (Gauge op)) \<longleftrightarrow> own_gauge (node_of m) op"
| "own_act m (Effect (RecordedEvent _ _ _ _)) \<longleftrightarrow> True"

definition traced :: "(act \<Rightarrow> bool) \<Rightarrow> 's World \<Rightarrow> 's World \<Rightarrow> bool" where
  "traced P w0 w \<longleftrightarrow> (\<exists>new. w_trace w = w_trace w0 @ new \<and> list_all P new)"

lemma traced_refl [simp]: "traced P w w"
  by (simp add: traced_def)

lemma call_trace [simp]: "w_trace (snd (call c f w)) = w_trace w @ [Api c]"
  by (simp add: call_def split: prod.split)

lemma emit_trace [simp]: "w_trace (emit effs w) = w_trace w @ map Effect effs"
  by (simp add: emit_def)

lemma traced_call: "traced P w0 w \<Longrightarrow> P (Api c) \<Longrightarrow> traced P w0 (snd (call c f w))"
  by (auto simp: traced_def)

lemma traced_called:
  "call c f w = (r, w') \<Longrightarrow> traced P w0 w \<Longrightarrow> P (Api c) \<Longrightarrow> traced P w0 w'"
  using traced_call [of P w0 w c f] by simp

lemma traced_emit: "traced P w0 w \<Longrightarrow> list_all P (map Effect effs) \<Longrightarrow> traced P w0 (emit effs w)"
  by (auto simp: traced_def)

lemma own_effects_acts: "own_effects m effs \<Longrightarrow> list_all (own_act m) (map Effect effs)"
  unfolding own_effects_def by (induction effs rule: gauge_ops.induct) simp_all

lemma new_resource_name [simp]: "pd_Name (new_resource m name) = name"
  by (simp add: new_resource_def)

lemma collect_status_frame:
  "fst (collect_status m d info) = d\<lparr>pd_Status := pd_Status (fst (collect_status m d info))\<rparr>"
  by (simp add: collect_status_def Let_def success_fst failure_fst setHealth_fst assessed_disk_def
      failed_disk_def split: sum.split)

lemma missing_condition_type [simp]: "c_Type (missing_condition msg) = ConditionDataCollected"
  by (simp add: missing_condition_def)

context disk_monitor
begin

lemma marked_missing: "own_call m (UpdateDiskStatus (marked m message d))"
proof -
  obtain c where "find_condition ConditionDataCollected
      (fst (dm_SetStatusCondition m (Conditions (pd_Status d)) (missing_condition message))) = Some c"
    and "same_content c (missing_condition message)"
    using set_content [of "missing_condition message"] by auto
  then show ?thesis
    by (simp add: marked_def with_condition_eq same_content_def missing_condition_def new_condition_def)
qed

end

sublocale disk_monitor \<subseteq> own: world_invariant m "traced (own_act m) w0" "\<lambda>_. True" "\<lambda>_ _. True" for w0
proof unfold_locales
  fix w message and d :: PhysicalDisk
  show "traced (own_act m) w0 w \<Longrightarrow> traced (own_act m) w0 (snd (api_StatusUpdate m (marked m message d) w))"
    unfolding api_defs using marked_missing by (intro traced_call) simp_all
next
  fix w info and d :: PhysicalDisk
  show "traced (own_act m) w0 w \<Longrightarrow>
      traced (own_act m) w0 (snd (api_StatusPatch m d (fst (collect_status m d info)) w))"
    unfolding api_defs using collect_status_frame by (intro traced_call) simp_all
qed (auto simp: api_defs traced_emit traced_call own_effects_acts dest: traced_called)

context disk_monitor
begin

lemma own_handlers:
  "traced (own_act m) w0 w \<Longrightarrow> traced (own_act m) w0 (snd (ReconcileAll m w))"
  "traced (own_act m) w0 w \<Longrightarrow> traced (own_act m) w0 (snd (Reconcile m name w))"
  by (rule own.ReconcileAll_keeps own.Reconcile_keeps, assumption)+

end

lemma call_api [simp]: "w_api (snd (call c f w)) = snd (f (w_api w))" "fst (call c f w) = fst (f (w_api w))"
  by (simp_all add: call_def split: prod.split)

lemma called_api: "call c f w = (r, w') \<Longrightarrow> f (w_api w) = (r, w_api w')"
  by (metis call_api fst_conv snd_conv surjective_pairing)

lemma emit_api [simp]: "w_api (emit effs w) = w_api w"
  by (simp add: emit_def)

subsection \<open>The nodes of the resources that a pass writes\<close>

text \<open>The resource that a call writes.\<close>

fun written :: "api_call \<Rightarrow> PhysicalDisk option" where
  "written (GetDisk name) = None"
| "written (ListDisks sel) = None"
| "written (CreateDisk d) = Some d"
| "written (DeleteDisk d) = Some d"
| "written (PatchDisk base d) = Some base"
| "written (UpdateDiskStatus d) = Some d"
| "written (PatchDiskStatus base d) = Some base"

fun node_act :: "'s DiskMonitor \<Rightarrow> act \<Rightarrow> bool" where
  "node_act m (Api c) \<longleftrightarrow> own_call m c \<and>
     (case written c of None \<Rightarrow> True | Some d \<Rightarrow> NodeName (pd_Spec d) = node_of m)"
| "node_act m (Effect e) \<longleftrightarrow> own_act m (Effect e)"

lemma own_effects_node_acts: "own_effects m effs \<Longrightarrow> list_all (node_act m) (map Effect effs)"
  using own_effects_acts [of m effs] by (simp add: list_all_iff)

text \<open>
  An API server on which the node of a resource is a function of its name: \<open>nodeName\<close> is immutable
  (the rule at the field in \<^verbatim>\<open>physicaldisk_types.go\<close>), and no name is used for two nodes.  \<open>ok\<close> says so
  of the state.  Every call may fail, and other writers may change anything else at any time.
\<close>

definition owned :: "(string \<Rightarrow> string) \<Rightarrow> PhysicalDisk \<Rightarrow> bool" where
  "owned owner d \<longleftrightarrow> NodeName (pd_Spec d) = owner (pd_Name d)"

locale owned_store =
  fixes C :: "'s Client" and ok :: "'s \<Rightarrow> bool" and owner :: "string \<Rightarrow> string"
  assumes get_owned: "ok s \<Longrightarrow> cl_Get C name s = (r, s') \<Longrightarrow>
      ok s' \<and> (\<forall>d. r = Inr d \<longrightarrow> pd_Name d = name \<and> owned owner d)"
    and list_owned: "ok s \<Longrightarrow> cl_List C sel s = (rs, s') \<Longrightarrow>
      ok s' \<and> (\<forall>ds d. rs = Inr ds \<longrightarrow> d \<in> set ds \<longrightarrow> owned owner d)"
    and create_owned: "ok s \<Longrightarrow> owned owner d \<Longrightarrow> cl_Create C d s = (r, s') \<Longrightarrow>
      ok s' \<and> (\<forall>d'. r = Inr d' \<longrightarrow> pd_Name d' = pd_Name d \<and> owned owner d')"
    and delete_owned: "ok s \<Longrightarrow> ok (snd (cl_Delete C d s))"
    and patch_owned: "ok s \<Longrightarrow> owned owner base \<Longrightarrow>
      cl_Patch C base (base\<lparr>pd_Labels := l\<rparr>) s = (r, s') \<Longrightarrow>
      ok s' \<and> (\<forall>d'. r = Inr d' \<longrightarrow> pd_Name d' = pd_Name base \<and> owned owner d')"
    and update_owned: "ok s \<Longrightarrow> owned owner d \<Longrightarrow> ok (snd (cl_StatusUpdate C d s))"
    and status_patch_owned: "ok s \<Longrightarrow> owned owner base \<Longrightarrow>
      ok (snd (cl_StatusPatch C base (base\<lparr>pd_Status := st\<rparr>) s))"

locale owning_monitor = disk_monitor m + owned_store "dm_Client m" ok owner
  for m :: "'s DiskMonitor" and ok :: "'s \<Rightarrow> bool" and owner :: "string \<Rightarrow> string" +
  assumes generated: "owner (GenerateCRName (node_of m) info) = node_of m"

lemma node_and_ok:
  assumes "traced P w0 w" and "P (Api c)" and "ok (snd (f (w_api w)))"
  shows "traced P w0 (snd (call c f w)) \<and> ok (w_api (snd (call c f w)))"
  using assms by (simp add: traced_call)

lemma new_resource_owned: "owner name = node_of m \<Longrightarrow> owned owner (new_resource m name)"
  by (simp add: owned_def new_resource_def)

lemma marked_frame: "marked m message d = d\<lparr>pd_Status := pd_Status (marked m message d)\<rparr>"
  by (simp add: marked_def with_condition_def split_beta Let_def)

context owning_monitor
begin

lemma own_patch:
  assumes "traced (node_act m) w0 w" "ok (w_api w)" "owned owner d" "owner (pd_Name d) = node_of m"
    and "api_Patch m d (labelled m d) w = (r, w')"
  shows "(traced (node_act m) w0 w' \<and> ok (w_api w')) \<and>
    (let d' = (case r of Inl e \<Rightarrow> labelled m d | Inr d' \<Rightarrow> d')
     in owned owner d' \<and> owner (pd_Name d') = node_of m)"
proof -
  have "cl_Patch (dm_Client m) d (labelled m d) (w_api w) = (r, w_api w')"
    using assms(5) by (auto simp: api_defs dest: called_api)
  then have "ok (w_api w') \<and> (\<forall>d'. r = Inr d' \<longrightarrow> pd_Name d' = pd_Name d \<and> owned owner d')"
    unfolding labelled_def by (rule patch_owned [OF assms(2,3)])
  moreover have "traced (node_act m) w0 w'"
    using assms by (auto simp: api_defs owned_def dest!: traced_called)
  moreover have "owned owner (labelled m d)" "pd_Name (labelled m d) = pd_Name d"
    using assms(3) by (simp_all add: owned_def labelled_def)
  ultimately show ?thesis
    using assms(4) unfolding Let_def by (cases r) simp_all
qed

lemma own_update:
  assumes "traced (node_act m) w0 w" "ok (w_api w)" "owned owner d" "owner (pd_Name d) = node_of m"
  shows "traced (node_act m) w0 (snd (api_StatusUpdate m (marked m message d) w)) \<and>
    ok (w_api (snd (api_StatusUpdate m (marked m message d) w)))"
  unfolding api_defs
proof (rule node_and_ok [where ok = ok, OF assms(1)])
  have "pd_Spec (marked m message d) = pd_Spec d" "pd_Name (marked m message d) = pd_Name d"
    by (subst marked_frame, simp)+
  then show "node_act m (Api (UpdateDiskStatus (marked m message d)))"
    and "ok (snd (cl_StatusUpdate (dm_Client m) (marked m message d) (w_api w)))"
    using assms marked_missing by (auto simp: owned_def intro: update_owned)
qed

lemma own_status_patch:
  assumes "traced (node_act m) w0 w" "ok (w_api w)" "owned owner d" "owner (pd_Name d) = node_of m"
  shows "traced (node_act m) w0 (snd (api_StatusPatch m d (fst (collect_status m d info)) w)) \<and>
    ok (w_api (snd (api_StatusPatch m d (fst (collect_status m d info)) w)))"
  unfolding api_defs
proof (rule node_and_ok [where ok = ok, OF assms(1)])
  show "node_act m (Api (PatchDiskStatus d (fst (collect_status m d info))))"
    using assms(3,4) collect_status_frame by (simp add: owned_def)
  show "ok (snd (cl_StatusPatch (dm_Client m) d (fst (collect_status m d info)) (w_api w)))"
    by (subst collect_status_frame) (rule status_patch_owned [OF assms(2,3)])
qed

end

sublocale owning_monitor \<subseteq> node: world_invariant m
  "\<lambda>w. traced (node_act m) w0 w \<and> ok (w_api w)" "\<lambda>name. owner name = node_of m"
  "\<lambda>w d. owned owner d \<and> owner (pd_Name d) = node_of m" for w0
proof (unfold_locales, goal_cases)
  case (2 w name r w')
  then have "ok (w_api w') \<and> (\<forall>d. r = Inr d \<longrightarrow> pd_Name d = name \<and> owned owner d)"
    by (intro get_owned) (auto simp: api_defs dest: called_api)
  then show ?case using 2 by (auto simp: api_defs owned_def dest: traced_called)
next
  case (3 w r w')
  then have "ok (w_api w') \<and> (\<forall>ds d. r = Inr ds \<longrightarrow> d \<in> set ds \<longrightarrow> owned owner d)"
    by (intro list_owned) (auto simp: api_defs dest: called_api)
  then show ?case using 3 by (auto simp: api_defs owned_def dest: traced_called)
next
  case (4 w name r w')
  have own: "owned owner (new_resource m name)" using 4 new_resource_owned by blast
  have "ok (w_api w') \<and> (\<forall>d. r = Inr d \<longrightarrow> pd_Name d = name \<and> owned owner d)"
    using create_owned [OF _ own, of "w_api w" r "w_api w'"] 4 by (auto simp: api_defs dest: called_api)
  moreover have "traced (node_act m) w0 w'"
    using 4 own by (auto simp: api_defs owned_def dest!: traced_called)
  ultimately show ?case using 4(2) by auto
next
  case (5 w d)
  then show ?case by (simp add: api_defs delete_owned traced_call)
next
  case (6 w d r w')
  then show ?case using own_patch [of w0 w d r w', unfolded Let_def] by blast
next
  case (7 w d message)
  then show ?case using own_update by blast
next
  case (8 w d info)
  then show ?case using own_status_patch by blast
qed (simp_all add: generated traced_emit own_effects_node_acts)

context owning_monitor
begin

lemma node_handlers:
  assumes "traced (node_act m) w0 w \<and> ok (w_api w)"
  shows "traced (node_act m) w0 (snd (ReconcileAll m w)) \<and> ok (w_api (snd (ReconcileAll m w)))"
    and "traced (node_act m) w0 (snd (Reconcile m name w)) \<and> ok (w_api (snd (Reconcile m name w)))"
  using node.ReconcileAll_keeps [OF assms] node.Reconcile_keeps [OF assms] by simp_all

end

subsection \<open>The stored disks\<close>

abbreviation in_sync :: "PhysicalDisk \<Rightarrow> bool" where
  "in_sync d \<equiv> degraded_in_sync (pd_Status d)"

text \<open>
  An API server that nobody else writes to while a handler runs, and that may refuse any call.
  \<open>ok\<close> says of its state that the health of every stored disk agrees with its condition Degraded,
  \<open>holds\<close> that a disk, if it is stored, has the status of the given object.  What is read is held
  and agrees; patching labels does not touch a status; a status update replaces the status.  The
  law of the status patch is that of a merge patch: it is only known to give the new status when
  the stored status is still the one that the patch was computed from.
\<close>

definition answers ::
  "('s \<Rightarrow> bool) \<Rightarrow> ('s \<Rightarrow> PhysicalDisk \<Rightarrow> bool) \<Rightarrow> (api_error + PhysicalDisk) \<times> 's \<Rightarrow> bool" where
  "answers ok holds = (\<lambda>(r, s). ok s \<and> (case r of Inl _ \<Rightarrow> True | Inr d \<Rightarrow> in_sync d \<and> holds s d))"

locale disk_store =
  fixes C :: "'s Client" and ok :: "'s \<Rightarrow> bool" and holds :: "'s \<Rightarrow> PhysicalDisk \<Rightarrow> bool"
  assumes get_ok: "ok s \<Longrightarrow> answers ok holds (cl_Get C name s)"
    and list_ok: "ok s \<Longrightarrow> ok (snd (cl_List C sel s))"
    and create_ok: "ok s \<Longrightarrow> in_sync d \<Longrightarrow> answers ok holds (cl_Create C d s)"
    and delete_ok: "ok s \<Longrightarrow> ok (snd (cl_Delete C d s))"
    and patch_ok: "ok s \<Longrightarrow> answers ok holds (cl_Patch C base (base\<lparr>pd_Labels := l\<rparr>) s)"
    and patch_holds: "ok s \<Longrightarrow> holds s d \<Longrightarrow> holds (snd (cl_Patch C base (base\<lparr>pd_Labels := l\<rparr>) s)) d"
    and update_ok: "ok s \<Longrightarrow> in_sync d \<Longrightarrow> ok (snd (cl_StatusUpdate C d s))"
    and status_patch_ok: "ok s \<Longrightarrow> holds s base \<Longrightarrow> degraded_in_sync st \<Longrightarrow>
      ok (snd (cl_StatusPatch C base (base\<lparr>pd_Status := st\<rparr>) s))"
    and holds_status: "pd_Name d' = pd_Name d \<Longrightarrow> pd_Status d' = pd_Status d \<Longrightarrow> holds s d' = holds s d"

locale stored_monitor = disk_monitor m + disk_store "dm_Client m" ok holds
  for m :: "'s DiskMonitor" and ok :: "'s \<Rightarrow> bool" and holds :: "'s \<Rightarrow> PhysicalDisk \<Rightarrow> bool"

lemma answersD: "answers ok holds x \<Longrightarrow> ok (snd x)"
    "answers ok holds x \<Longrightarrow> fst x = Inr d \<Longrightarrow> in_sync d \<and> holds (snd x) d"
  by (auto simp: answers_def split: prod.splits)

lemma new_resource_in_sync: "in_sync (new_resource m name)"
  by (simp add: new_resource_def degraded_in_sync_def empty_PhysicalDiskStatus_def)

context disk_monitor
begin

lemma info_in_sync: "degraded_in_sync (st\<lparr>Info := i\<rparr>) = degraded_in_sync st"
  by (simp add: degraded_in_sync_def cong: option.case_cong)

lemma collect_in_sync: "in_sync d \<Longrightarrow> in_sync (fst (collect_status m d info))"
  by (simp add: collect_status_def Let_def success_in_sync failure_in_sync info_in_sync
      split: sum.split)

lemma marked_in_sync: "in_sync d \<Longrightarrow> in_sync (marked m message d)"
  by (simp add: marked_def with_condition_eq other_condition_in_sync)

end

context stored_monitor
begin

lemma label_patch_holds:
  assumes "ok (w_api w)" "in_sync d" "holds (w_api w) d" and "api_Patch m d (labelled m d) w = (r, w')"
  shows "ok (w_api w') \<and> in_sync (case r of Inl e \<Rightarrow> labelled m d | Inr d' \<Rightarrow> d') \<and>
    holds (w_api w') (case r of Inl e \<Rightarrow> labelled m d | Inr d' \<Rightarrow> d')"
proof -
  have c: "cl_Patch (dm_Client m) d (labelled m d) (w_api w) = (r, w_api w')"
    using assms(4) by (auto simp: api_defs dest: called_api)
  have "holds (w_api w') (labelled m d) = holds (w_api w') d"
    by (rule holds_status) (simp_all add: labelled_def)
  moreover have "answers ok holds (cl_Patch (dm_Client m) d (labelled m d) (w_api w))"
    and "holds (snd (cl_Patch (dm_Client m) d (labelled m d) (w_api w))) d"
    unfolding labelled_def by (rule patch_ok [OF assms(1)] patch_holds [OF assms(1,3)])+
  ultimately show ?thesis
    using assms(2) c by (simp add: answers_def labelled_def split: sum.splits)
qed

lemma status_patch_in_sync:
  assumes "ok (w_api w)" "in_sync d" "holds (w_api w) d"
  shows "ok (w_api (snd (api_StatusPatch m d (fst (collect_status m d info)) w)))"
proof -
  have "ok (snd (cl_StatusPatch (dm_Client m) d (fst (collect_status m d info)) (w_api w)))"
    by (subst collect_status_frame) (rule status_patch_ok [OF assms(1,3) collect_in_sync [OF assms(2)]])
  then show ?thesis by (simp add: api_defs)
qed

end

sublocale stored_monitor \<subseteq> stored: world_invariant m "\<lambda>w. ok (w_api w)" "\<lambda>_. True"
  "\<lambda>w d. in_sync d \<and> holds (w_api w) d"
proof (unfold_locales, goal_cases)
  case (2 w name r w')
  then show ?case using get_ok [of "w_api w" name] by (auto simp: api_defs answers_def dest!: called_api)
next
  case (4 w name r w')
  then show ?case using create_ok [of "w_api w" "new_resource m name"] new_resource_in_sync
    by (fastforce simp: api_defs answers_def dest!: called_api)
next
  case (6 w d r w')
  then show ?case using label_patch_holds by blast
next
  case (8 w d info)
  then show ?case using status_patch_in_sync by blast
next
  case (3 w rs w')
  then show ?case using list_ok [of "w_api w" "(LabelNodeName, node_label m)"]
    by (auto simp: api_defs dest!: called_api)
qed (auto simp: api_defs delete_ok update_ok marked_in_sync)

context stored_monitor
begin

lemma stored_handlers: "ok (w_api w) \<Longrightarrow> ok (w_api (snd (ReconcileAll m w)))"
    "ok (w_api w) \<Longrightarrow> ok (w_api (snd (Reconcile m name w)))"
  by (rule stored.ReconcileAll_keeps stored.Reconcile_keeps, assumption)+

end

end
