(* ===== verification/Api_Server.thy ===== *)
theory Api_Server
  imports Controller
begin

text \<open>
  The reconciler of \<^verbatim>\<open>pkg/controller/physicaldisk_controller.go\<close> on an API server that answers every
  call: a scan implements an abstract update of a map from names to resources.  The locale
  \<open>api_server\<close> states what the server promises.  A server that keeps a list of resources is the
  instance on which all interfaces of the reconciler are interpreted.
\<close>

subsection \<open>The effect on the stored disks\<close>

text \<open>The resource without the fields that only the server sets.\<close>

definition erase :: "PhysicalDisk \<Rightarrow> PhysicalDisk" where
  "erase d = d\<lparr>pd_Generation := 0, pd_ResourceVersion := []\<rparr>"

text \<open>
  An API server that answers every call, seen as a map from names to resources: Get reads the map,
  Create and the patches write the object at its name and answer with it.  The map need not hold
  all resources of the server: it has those with the label \<open>sel\<close>, and those with a name in \<open>names\<close>.
\<close>

definition wrote :: "('s \<Rightarrow> string \<rightharpoonup> PhysicalDisk) \<Rightarrow> 's \<Rightarrow> PhysicalDisk \<Rightarrow>
    (api_error + PhysicalDisk) \<times> 's \<Rightarrow> bool" where
  "wrote view s d = (\<lambda>(r, s'). view s' = (view s)(pd_Name d \<mapsto> erase d) \<and>
     (case r of Inl _ \<Rightarrow> False | Inr d' \<Rightarrow> erase d' = erase d))"

locale api_server =
  fixes C :: "'s Client" and view :: "'s \<Rightarrow> string \<rightharpoonup> PhysicalDisk"
    and sel :: "string \<times> string" and names :: "string set"
  assumes view_name: "view s name = Some x \<Longrightarrow> pd_Name x = name"
    and get_view: "view (snd (cl_Get C name s)) = view s"
    and get_some: "view s name = Some x \<Longrightarrow> \<exists>d. fst (cl_Get C name s) = Inr d \<and> erase d = x"
    and get_none: "name \<in> names \<Longrightarrow> view s name = None \<Longrightarrow> \<exists>e. fst (cl_Get C name s) = Inl (ApiNotFound e)"
    and create_view: "pd_Name d \<in> names \<Longrightarrow> view s (pd_Name d) = None \<Longrightarrow> wrote view s d (cl_Create C d s)"
    and patch_view: "pd_Name base \<in> names \<Longrightarrow> view s (pd_Name base) = Some (erase base) \<Longrightarrow>
      wrote view s (base\<lparr>pd_Labels := l\<rparr>) (cl_Patch C base (base\<lparr>pd_Labels := l\<rparr>) s)"
    and status_view: "view s (pd_Name base) = Some (erase base) \<Longrightarrow>
      wrote view s (base\<lparr>pd_Status := st\<rparr>) (cl_StatusPatch C base (base\<lparr>pd_Status := st\<rparr>) s)"
    and update_view: "view s (pd_Name d) = Some (erase d) \<Longrightarrow>
      fst (cl_StatusUpdate C (d\<lparr>pd_Status := st\<rparr>) s) = None \<and>
      view (snd (cl_StatusUpdate C (d\<lparr>pd_Status := st\<rparr>) s)) =
        (view s)(pd_Name d \<mapsto> erase (d\<lparr>pd_Status := st\<rparr>))"
    and delete_view: "view s (pd_Name d) \<noteq> None \<Longrightarrow> fst (cl_Delete C d s) = None \<and>
      view (snd (cl_Delete C d s)) = (view s)(pd_Name d := None)"
    and list_view: "\<exists>ds. fst (cl_List C sel s) = Inr ds \<and> distinct (map pd_Name ds) \<and>
      (\<forall>d \<in> set ds. view s (pd_Name d) = Some (erase d) \<and> pd_Labels d (fst sel) = Some (snd sel)) \<and>
      (\<forall>n x. view s n = Some x \<longrightarrow> pd_Labels x (fst sel) = Some (snd sel) \<longrightarrow> n \<in> pd_Name ` set ds)"
    and list_keeps: "view (snd (cl_List C sel s)) = view s"

text \<open>What reconciling a disk does to the map: one resource is written.\<close>

definition reconciled :: "'s DiskMonitor \<Rightarrow> DiskInfo \<Rightarrow> PhysicalDisk \<Rightarrow> PhysicalDisk" where
  "reconciled m info d = fst (collect_status m
     (if get_prop (pd_Labels d) LabelNodeName = node_label m then d else labelled m d) info)"

definition upsert ::
  "'s DiskMonitor \<Rightarrow> (string \<rightharpoonup> PhysicalDisk) \<Rightarrow> DiskInfo \<Rightarrow> (string \<rightharpoonup> PhysicalDisk)" where
  "upsert m A info = (let name = GenerateCRName (node_of m) info in
     A(name \<mapsto> reconciled m info (case A name of Some d \<Rightarrow> d | None \<Rightarrow> new_resource m name)))"

text \<open>What the first phase of a scan does to a resource of the node.\<close>

definition mark_missing :: "'s DiskMonitor \<Rightarrow> string \<Rightarrow> PhysicalDisk \<Rightarrow> PhysicalDisk" where
  "mark_missing m message x =
     (if snd (with_condition m x (missing_condition message)) then marked m message x else x)"

definition absent_item :: "'s DiskMonitor \<Rightarrow> string set \<Rightarrow> PhysicalDisk \<Rightarrow> PhysicalDisk option" where
  "absent_item m discovered x =
     (if NodeName (pd_Spec x) \<noteq> node_of m then Some x
      else if IsExcluded (node_of m) (Info (pd_Status x)) (mo_ExcludeRules (dm_Options m)) then None
      else if pd_Name x \<in> discovered then Some x
      else Some (mark_missing m ''Hardware device not found during inventory scan'' x))"

definition prune ::
  "'s DiskMonitor \<Rightarrow> string set \<Rightarrow> (string \<rightharpoonup> PhysicalDisk) \<Rightarrow> (string \<rightharpoonup> PhysicalDisk)" where
  "prune m discovered A = (\<lambda>n. case A n of None \<Rightarrow> None
     | Some x \<Rightarrow> if pd_Labels x LabelNodeName = Some (node_label m)
         then absent_item m discovered x else Some x)"

text \<open>What a reconcile request does to the map, when the inventory of the node succeeds.\<close>

definition request_item :: "'s DiskMonitor \<Rightarrow> DiskInfo list \<Rightarrow> PhysicalDisk \<Rightarrow>
    (string \<rightharpoonup> PhysicalDisk) \<Rightarrow> (string \<rightharpoonup> PhysicalDisk)" where
  "request_item m infos x A =
     (case List.find (\<lambda>i. GenerateCRName (node_of m) i = pd_Name x) infos of
        Some info \<Rightarrow> upsert m A info
      | None \<Rightarrow>
          if IsExcluded (node_of m) (Info (pd_Status x)) (mo_ExcludeRules (dm_Options m))
          then A(pd_Name x := None)
          else A(pd_Name x \<mapsto> mark_missing m ''Hardware device not found during reconcile'' x))"

text \<open>The effect of a whole request: its error and the new map.\<close>

definition request_effect :: "'s DiskMonitor \<Rightarrow> string \<Rightarrow> (string \<rightharpoonup> PhysicalDisk) \<Rightarrow>
    reconcile_error option \<times> (string \<rightharpoonup> PhysicalDisk)" where
  "request_effect m name A =
     (case A name of
        None \<Rightarrow> (None, A)
      | Some x \<Rightarrow>
          if NodeName (pd_Spec x) \<noteq> node_of m then (None, A)
          else (case discover m of
              Inl e \<Rightarrow> (Some (DiscoverFailed e), A)
            | Inr infos \<Rightarrow> (None, request_item m infos x A)))"

lemma erase_simps [simp]:
  "pd_Name (erase d) = pd_Name d" "pd_Labels (erase d) = pd_Labels d"
  "pd_Spec (erase d) = pd_Spec d" "pd_Status (erase d) = pd_Status d"
  "erase (erase d) = erase d" "erase (new_resource m name) = new_resource m name"
  by (simp_all add: erase_def new_resource_def)

lemma erase_eqD:
  "erase d = erase e \<Longrightarrow> pd_Name d = pd_Name e \<and> pd_Labels d = pd_Labels e \<and>
    pd_Spec d = pd_Spec e \<and> pd_Status d = pd_Status e"
  by (metis erase_simps)

lemma collect_erase: "fst (collect_status m (erase d) info) = erase (fst (collect_status m d info))"
  by (simp add: collect_status_def Let_def success_fst failure_fst setHealth_fst assessed_disk_def
      failed_disk_def erase_def extra_args_def split: sum.split)

lemma labelled_erase: "labelled m (erase d) = erase (labelled m d)"
  by (simp add: labelled_def erase_def)

lemma reconciled_erase: "reconciled m info (erase d) = erase (reconciled m info d)"
  by (simp add: reconciled_def labelled_erase collect_erase)

lemma collect_name [simp]: "pd_Name (fst (collect_status m d info)) = pd_Name d"
  by (subst collect_status_frame) simp

lemma wroteD:
  "wrote view s d x \<Longrightarrow> view (snd x) = (view s)(pd_Name d \<mapsto> erase d) \<and>
    (\<exists>d'. fst x = Inr d' \<and> erase d' = erase d)"
  by (auto simp: wrote_def split: prod.splits sum.splits)

locale served_monitor = disk_monitor m + api_server "dm_Client m" view "(LabelNodeName, node_label m)" names
  for m :: "'s DiskMonitor" and view :: "'s \<Rightarrow> string \<rightharpoonup> PhysicalDisk" and names :: "string set"
begin

lemma get_or_create_view:
  assumes own: "name \<in> names"
  shows "\<exists>d. fst (get_or_create m name w) = Inr d \<and>
     erase d = (case view (w_api w) name of Some x \<Rightarrow> x | None \<Rightarrow> new_resource m name) \<and>
     pd_Name d = name \<and>
     view (w_api (snd (get_or_create m name w))) = (view (w_api w))(name \<mapsto> erase d)"
proof -
  obtain r w1 where g: "api_Get m name w = (r, w1)" by fastforce
  then have r: "r = fst (cl_Get (dm_Client m) name (w_api w))"
    and w1: "view (w_api w1) = view (w_api w)"
    using get_view [of name "w_api w"] by (auto simp: api_defs dest: arg_cong [of _ _ fst]
        arg_cong [of _ _ snd]) (metis call_api fst_conv snd_conv)+
  show ?thesis
  proof (cases "view (w_api w) name")
    case (Some x)
    then obtain d where "r = Inr d" and "erase d = x" using get_some r by blast
    moreover have "pd_Name d = name"
      using view_name [OF Some] \<open>erase d = x\<close> by (metis erase_simps(1))
    ultimately show ?thesis using g w1 Some by (auto simp: get_or_create_def fun_upd_idem)
  next
    case None
    then obtain e where e: "r = Inl (ApiNotFound e)" using get_none [OF own] r by blast
    have "view (w_api w1) (pd_Name (new_resource m name)) = None" using None w1 by simp
    from wroteD [OF create_view [OF _ this]] own
    obtain d' where d': "fst (cl_Create (dm_Client m) (new_resource m name) (w_api w1)) = Inr d'"
      and e': "erase d' = new_resource m name"
      and v: "view (snd (cl_Create (dm_Client m) (new_resource m name) (w_api w1))) =
        (view (w_api w1))(name \<mapsto> new_resource m name)" by auto
    have "pd_Name d' = name" using e' by (metis erase_simps(1) new_resource_name)
    then show ?thesis
      using g e d' e' v w1 None
      by (auto simp: get_or_create_def api_Create_def split_beta split: sum.split)
  qed
qed

lemma ensure_label_view:
  assumes "pd_Name d \<in> names" and "view (w_api w) (pd_Name d) = Some (erase d)"
  shows "let l = (if get_prop (pd_Labels d) LabelNodeName = node_label m then d else labelled m d);
      (d', w') = ensure_label m d w
    in erase d' = erase l \<and> view (w_api w') = (view (w_api w))(pd_Name d \<mapsto> erase l)"
proof (cases "get_prop (pd_Labels d) LabelNodeName = node_label m")
  case True
  then show ?thesis using assms by (simp add: ensure_label_def fun_upd_idem)
next
  case False
  have "wrote view (w_api w) (labelled m d) (cl_Patch (dm_Client m) d (labelled m d) (w_api w))"
    using patch_view [OF assms] unfolding labelled_def by blast
  from wroteD [OF this] False show ?thesis
    by (auto simp: ensure_label_def labelled_def [symmetric] api_Patch_def split_beta Let_def)
      (simp_all add: labelled_def)
qed

lemma reconcileDisk_view:
  assumes own: "GenerateCRName (node_of m) info \<in> names"
  shows "fst (reconcileDisk m info w) = None \<and>
   view (w_api (snd (reconcileDisk m info w))) = upsert m (view (w_api w)) info"
proof -
  define name where "name = GenerateCRName (node_of m) info"
  define old where "old = (case view (w_api w) name of Some x \<Rightarrow> x | None \<Rightarrow> new_resource m name)"
  obtain d w1 where g: "get_or_create m name w = (Inr d, w1)"
    and d: "erase d = old" "pd_Name d = name"
    and v1: "view (w_api w1) = (view (w_api w))(name \<mapsto> old)"
    using get_or_create_view [of name w] own unfolding old_def [symmetric] name_def [symmetric]
    by (cases "get_or_create m name w") auto
  obtain base w2 where l: "ensure_label m d w1 = (base, w2)" by fastforce
  define new where "new = fst (collect_status m base info)"
  define effs where "effs = snd (collect_status m base info)"
  let ?l = "if get_prop (pd_Labels d) LabelNodeName = node_label m then d else labelled m d"
  have b: "erase base = erase ?l" and v2: "view (w_api w2) = (view (w_api w1))(name \<mapsto> erase ?l)"
    using ensure_label_view [of d w1] l v1 d own [folded name_def] by (simp_all add: Let_def)
  have bn: "pd_Name base = name"
    using erase_eqD [OF b] d by (simp add: labelled_def split: if_splits)
  have eff: "new = base\<lparr>pd_Status := pd_Status new\<rparr>"
    unfolding new_def by (rule collect_status_frame)
  have "view (w_api (emit effs w2)) (pd_Name base) = Some (erase base)"
    using v2 bn b by simp
  from wroteD [OF status_view [OF this, of "pd_Status new"]] eff
  obtain d' where r: "fst (cl_StatusPatch (dm_Client m) base new (w_api w2)) = Inr d'"
    and v3: "view (snd (cl_StatusPatch (dm_Client m) base new (w_api w2))) =
      (view (w_api w2))(name \<mapsto> erase new)"
    using bn by (auto simp: new_def)
  have "erase new = reconciled m info old"
  proof -
    have "erase new = fst (collect_status m (erase base) info)"
      by (simp add: new_def collect_erase)
    also have "\<dots> = erase (reconciled m info d)"
      by (simp add: b collect_erase reconciled_def)
    also have "\<dots> = reconciled m info old"
      using d(1) reconciled_erase [of m info d] by simp
    finally show ?thesis .
  qed
  then show ?thesis
    using g l r v1 v2 v3
    by (simp add: reconcileDisk_def name_def [symmetric] upsert_def Let_def old_def [symmetric]
        split_beta new_def [symmetric] effs_def [symmetric] api_StatusPatch_def)
qed

lemma reconcile_disks_view:
  "set (map (GenerateCRName (node_of m)) infos) \<subseteq> names \<Longrightarrow> fst (reconcile_disks m infos w) = [] \<and>
   view (w_api (snd (reconcile_disks m infos w))) = foldl (upsert m) (view (w_api w)) infos"
  by (induction infos arbitrary: w) (simp_all add: split_beta Let_def reconcileDisk_view)

lemma mark_latest_view:
  assumes "view (w_api w) name = Some x"
  shows "fst (mark_latest m name msg w) = None \<and>
    view (w_api (snd (mark_latest m name msg w))) = (view (w_api w))(name \<mapsto> mark_missing m msg x)"
proof -
  obtain r w1 where g: "api_Get m name w = (r, w1)" by fastforce
  have "r = fst (cl_Get (dm_Client m) name (w_api w))" and w1: "w_api w1 = snd (cl_Get (dm_Client m) name (w_api w))"
    using arg_cong [OF g, of fst] arg_cong [OF g, of snd] by (auto simp: api_Get_def)
  then obtain d where r: "r = Inr d" and d: "erase d = x" using get_some [OF assms] by auto
  have v1: "view (w_api w1) = view (w_api w)" using w1 get_view by simp
  have n: "pd_Name d = name" using view_name [OF assms] d by (metis erase_simps(1))
  have same: "snd (with_condition m x c) = snd (with_condition m d c)" for c
    by (simp add: with_condition_eq flip: d)
  show ?thesis
  proof (cases "snd (with_condition m d (missing_condition msg))")
    case False
    then show ?thesis
      using g r v1 assms by (simp add: mark_latest_def split_beta Let_def mark_missing_def same fun_upd_idem)
  next
    case True
    let ?w = "emit (recordEvent m (marked m msg d) WarningEvent ReasonDiskMissing msg) w1"
    have "marked m msg d = d\<lparr>pd_Status := pd_Status (marked m msg d)\<rparr>"
      by (simp add: marked_def with_condition_eq)
    moreover have "view (w_api ?w) (pd_Name d) = Some (erase d)" using v1 assms n d by simp
    ultimately have "fst (cl_StatusUpdate (dm_Client m) (marked m msg d) (w_api ?w)) = None \<and>
        view (snd (cl_StatusUpdate (dm_Client m) (marked m msg d) (w_api ?w))) =
          (view (w_api ?w))(name \<mapsto> erase (marked m msg d))"
      using update_view [of "w_api ?w" d "pd_Status (marked m msg d)"] n by simp
    moreover have "erase (marked m msg d) = marked m msg x"
      by (simp add: marked_def with_condition_eq erase_def flip: d)
    ultimately show ?thesis
      using g r v1 True by (simp add: mark_latest_def split_beta Let_def mark_missing_def same
          api_StatusUpdate_def flip: marked_def)
  qed
qed

lemma attempts_None: "fst (f w) = None \<Longrightarrow> attempts n f w = f w"
  by (cases n) (auto split: option.split prod.split)

lemma markDiskMissing_view:
  assumes "view (w_api w) (pd_Name d) = Some x"
  shows "fst (markDiskMissing m d msg w) = None \<and>
    view (w_api (snd (markDiskMissing m d msg w))) =
      (view (w_api w))(pd_Name d \<mapsto> mark_missing m msg x)"
proof -
  let ?w = "emit (map Gauge (DeleteDeviceHealthMetrics (node_of m) (pd_Name d)) @
    [set_collection_success m (pd_Name d) (di_Path (Info (pd_Status d))) 0]) w"
  have v: "view (w_api ?w) (pd_Name d) = Some x" using assms by simp
  note mark = mark_latest_view [OF v, of msg]
  obtain n where "dm_RetryOnConflict m (mark_latest m (pd_Name d) msg) ?w =
      attempts n (mark_latest m (pd_Name d) msg) ?w"
    using retry_attempts by blast
  then have r: "dm_RetryOnConflict m (mark_latest m (pd_Name d) msg) ?w = mark_latest m (pd_Name d) msg ?w"
    using attempts_None mark by metis
  obtain w' where "mark_latest m (pd_Name d) msg ?w = (None, w')"
    using mark by (metis prod.collapse)
  then show ?thesis using mark r by (simp add: markDiskMissing_def Let_def)
qed

lemma deleteIfExcluded_view:
  assumes "view (w_api w) (pd_Name d) = Some (erase d)"
  shows "let excluded = IsExcluded (node_of m) (Info (pd_Status d)) (mo_ExcludeRules (dm_Options m)) in
    fst (deleteIfExcluded m d w) = Inr excluded \<and>
    view (w_api (snd (deleteIfExcluded m d w))) =
      (if excluded then (view (w_api w))(pd_Name d := None) else view (w_api w))"
  using delete_view [of "w_api w" d] assms
  by (simp add: deleteIfExcluded_def split_beta Let_def IsExcluded_def api_Delete_def)

lemma absent_loop_view:
  assumes "distinct (map pd_Name ds)" and "\<forall>d \<in> set ds. view (w_api w) (pd_Name d) = Some (erase d)"
  shows "fst (absent_loop m disc ds w) = [] \<and>
    view (w_api (snd (absent_loop m disc ds w))) =
      foldl (\<lambda>A d. A(pd_Name d := absent_item m disc (erase d))) (view (w_api w)) ds"
  using assms
proof (induction ds arbitrary: w)
  case (Cons d ds)
  have d: "view (w_api w) (pd_Name d) = Some (erase d)" using Cons.prems by simp
  let ?A = "(view (w_api w))(pd_Name d := absent_item m disc (erase d))"
  have step: "\<exists>w'. absent_loop m disc (d # ds) w = absent_loop m disc ds w' \<and> view (w_api w') = ?A"
  proof (cases "NodeName (pd_Spec d) = node_of m")
    case False
    then show ?thesis using d by (auto simp: absent_item_def fun_upd_idem)
  next
    case True
    obtain r w1 where del: "deleteIfExcluded m d w = (r, w1)" by fastforce
    note v1 = deleteIfExcluded_view [OF d, unfolded Let_def del fst_conv snd_conv]
    show ?thesis
    proof (cases "IsExcluded (node_of m) (Info (pd_Status d)) (mo_ExcludeRules (dm_Options m))
        \<or> pd_Name d \<in> disc")
      case stop: True
      then show ?thesis using True del v1 d by (auto simp: absent_item_def fun_upd_idem)
    next
      case go: False
      have "view (w_api w1) (pd_Name d) = Some (erase d)" using v1 go d by simp
      note mark = markDiskMissing_view [OF this, of "''Hardware device not found during inventory scan''"]
      obtain w2 where "markDiskMissing m d ''Hardware device not found during inventory scan'' w1 = (None, w2)"
        using mark by (metis prod.collapse)
      then show ?thesis using True del go mark v1 by (auto simp: absent_item_def)
    qed
  qed
  then obtain w' where w': "absent_loop m disc (d # ds) w = absent_loop m disc ds w'"
    and v: "view (w_api w') = ?A" by blast
  have "pd_Name e \<noteq> pd_Name d" if "e \<in> set ds" for e
    using Cons.prems(1) that by (auto simp: image_iff)
  then have "\<forall>e \<in> set ds. view (w_api w') (pd_Name e) = Some (erase e)"
    using Cons.prems(2) v by simp
  moreover have "distinct (map pd_Name ds)" using Cons.prems(1) by simp
  ultimately show ?case
    unfolding w' foldl_Cons v [symmetric] by (intro Cons.IH)
qed simp

lemma foldl_upd_other: "n \<notin> pd_Name ` set ds \<Longrightarrow>
    foldl (\<lambda>A d. A(pd_Name d := f d)) A ds n = A n"
  by (induction ds arbitrary: A) auto

lemma foldl_upd_at: "distinct (map pd_Name ds) \<Longrightarrow> d \<in> set ds \<Longrightarrow>
    foldl (\<lambda>A d. A(pd_Name d := f d)) A ds (pd_Name d) = f d"
  by (induction ds arbitrary: A) (auto simp: foldl_upd_other)

lemma markAbsentDisks_view:
  "fst (markAbsentDisks m infos w) = [] \<and>
   view (w_api (snd (markAbsentDisks m infos w))) =
     prune m (set (map (GenerateCRName (node_of m)) infos)) (view (w_api w))"
proof -
  let ?disc = "set (map (GenerateCRName (node_of m)) infos)"
  obtain r w1 where l: "api_List m (LabelNodeName, node_label m) w = (r, w1)" by fastforce
  have "r = fst (cl_List (dm_Client m) (LabelNodeName, node_label m) (w_api w))"
    and "w_api w1 = snd (cl_List (dm_Client m) (LabelNodeName, node_label m) (w_api w))"
    using arg_cong [OF l, of fst] arg_cong [OF l, of snd] by (auto simp: api_List_def)
  then obtain ds where r: "r = Inr ds" and dist: "distinct (map pd_Name ds)"
    and ds: "\<forall>d \<in> set ds. view (w_api w) (pd_Name d) = Some (erase d) \<and>
      pd_Labels d LabelNodeName = Some (node_label m)"
    and all: "\<And>n x. view (w_api w) n = Some x \<Longrightarrow> pd_Labels x LabelNodeName = Some (node_label m) \<Longrightarrow>
      n \<in> pd_Name ` set ds"
    and v1: "view (w_api w1) = view (w_api w)"
    using list_view [of "w_api w"] list_keeps by auto
  let ?A = "foldl (\<lambda>A d. A(pd_Name d := absent_item m ?disc (erase d))) (view (w_api w)) ds"
  have "?A n = prune m ?disc (view (w_api w)) n" for n
  proof (cases "n \<in> pd_Name ` set ds")
    case True
    then obtain d where "d \<in> set ds" and "n = pd_Name d" by blast
    then show ?thesis using ds dist by (simp add: foldl_upd_at prune_def)
  next
    case False
    then show ?thesis using all by (auto simp: foldl_upd_other prune_def split: option.split)
  qed
  then have "?A = prune m ?disc (view (w_api w))" by blast
  moreover have "\<forall>d \<in> set ds. view (w_api w1) (pd_Name d) = Some (erase d)" using ds v1 by simp
  ultimately show ?thesis
    using absent_loop_view [OF dist, of w1 ?disc] l r v1 by (simp add: markAbsentDisks_def)
qed

lemma ReconcileAll_view:
  assumes "discover m = Inr infos" and "set (map (GenerateCRName (node_of m)) infos) \<subseteq> names"
  shows "fst (ReconcileAll m w) = [] \<and>
    view (w_api (snd (ReconcileAll m w))) =
      foldl (upsert m) (prune m (set (map (GenerateCRName (node_of m)) infos)) (view (w_api w))) infos"
  using assms markAbsentDisks_view [of infos w] reconcile_disks_view [of infos]
  by (simp add: ReconcileAll_def split_beta Let_def)

lemma Reconcile_view:
  assumes "view (w_api w) name = Some x" and "NodeName (pd_Spec x) = node_of m"
    and "discover m = Inr infos" and "name \<in> names"
  shows "fst (Reconcile m name w) = None \<and>
    view (w_api (snd (Reconcile m name w))) = request_item m infos x (view (w_api w))"
proof -
  obtain r w1 where g: "api_Get m name w = (r, w1)" by fastforce
  have "r = fst (cl_Get (dm_Client m) name (w_api w))" and w1: "w_api w1 = snd (cl_Get (dm_Client m) name (w_api w))"
    using arg_cong [OF g, of fst] arg_cong [OF g, of snd] by (auto simp: api_Get_def)
  then obtain d where r: "r = Inr d" and d: "erase d = x" using get_some [OF assms(1)] by auto
  have v1: "view (w_api w1) = view (w_api w)" using w1 get_view by simp
  have n: "pd_Name d = name" "pd_Name x = name" using view_name [OF assms(1)] d by (metis erase_simps(1))+
  have node: "NodeName (pd_Spec d) = node_of m" using assms(2) d by (metis erase_simps(3))
  have info: "Info (pd_Status x) = Info (pd_Status d)" using d by (metis erase_simps(4))
  have v: "view (w_api w1) (pd_Name d) = Some (erase d)" using v1 assms(1) n d by simp
  show ?thesis
  proof (cases "List.find (\<lambda>i. GenerateCRName (node_of m) i = name) infos")
    case (Some i)
    then have "GenerateCRName (node_of m) i \<in> names" using assms(4) by (auto simp: find_Some_iff)
    from reconcileDisk_view [OF this, of w1] show ?thesis
      using Some g r node n v1 assms(3) by (simp add: Reconcile_def request_item_def)
  next
    case None
    obtain x2 w2 where del: "deleteIfExcluded m d w1 = (x2, w2)" by fastforce
    note v2 = deleteIfExcluded_view [OF v, unfolded Let_def del fst_conv snd_conv]
    show ?thesis
    proof (cases "IsExcluded (node_of m) (Info (pd_Status d)) (mo_ExcludeRules (dm_Options m))")
      case True
      then show ?thesis using None g r node n v1 v2 del assms(3) info by (simp add: Reconcile_def request_item_def)
    next
      case False
      then have "view (w_api w2) (pd_Name d) = Some x" using v2 v d by simp
      from markDiskMissing_view [OF this, of "''Hardware device not found during reconcile''"] show ?thesis
        using None False g r node n v1 v2 del assms(3) info by (simp add: Reconcile_def request_item_def)
    qed
  qed
qed

lemma Reconcile_effect:
  assumes "name \<in> names"
  shows "(fst (Reconcile m name w), view (w_api (snd (Reconcile m name w)))) =
    request_effect m name (view (w_api w))"
proof -
  obtain r w1 where g: "api_Get m name w = (r, w1)" by fastforce
  then have c: "cl_Get (dm_Client m) name (w_api w) = (r, w_api w1)" by (auto simp: api_defs dest: called_api)
  have v1: "view (w_api w1) = view (w_api w)" using get_view [of name "w_api w"] c by simp
  show ?thesis
  proof (cases "view (w_api w) name")
    case None
    then obtain e where "r = Inl (ApiNotFound e)" using get_none [OF assms None] c by auto
    then show ?thesis using None g v1 by (simp add: Reconcile_def request_effect_def)
  next
    case (Some x)
    then obtain d where r: "r = Inr d" and d: "erase d = x" using get_some [OF Some] c by auto
    have spec: "pd_Spec d = pd_Spec x" using d by (metis erase_simps(3))
    show ?thesis
    proof (cases "NodeName (pd_Spec x) = node_of m \<and> (\<exists>infos. discover m = Inr infos)")
      case True
      then show ?thesis using Reconcile_view [OF Some] assms Some by (auto simp: request_effect_def)
    next
      case False
      then show ?thesis using Some g r spec v1
        by (cases "discover m") (auto simp: Reconcile_def request_effect_def)
    qed
  qed
qed

end

subsection \<open>Merge patches\<close>

text \<open>
  \<^verbatim>\<open>client.MergeFrom\<close> sends a JSON merge patch (RFC 7386): the difference between the object and the
  base that it was computed from.  A member that did not change is not part of the patch and keeps
  its stored value, one that was unset is removed, objects are merged member by member, and a list
  that changed is replaced as a whole.
\<close>

definition merge_leaf :: "'a \<Rightarrow> 'a \<Rightarrow> 'a \<Rightarrow> 'a" where
  "merge_leaf base new cur = (if new = base then cur else new)"

definition merge_labels ::
  "(string \<rightharpoonup> string) \<Rightarrow> (string \<rightharpoonup> string) \<Rightarrow> (string \<rightharpoonup> string) \<Rightarrow> string \<rightharpoonup> string" where
  "merge_labels base new cur = (\<lambda>k. merge_leaf (base k) (new k) (cur k))"

definition merge_info :: "DiskInfo \<Rightarrow> DiskInfo \<Rightarrow> DiskInfo \<Rightarrow> DiskInfo" where
  "merge_info base new cur =
    \<lparr>di_Path = merge_leaf (di_Path base) (di_Path new) (di_Path cur),
     di_CanonicalPath = merge_leaf (di_CanonicalPath base) (di_CanonicalPath new) (di_CanonicalPath cur),
     di_Name = merge_leaf (di_Name base) (di_Name new) (di_Name cur),
     di_SysPath = merge_leaf (di_SysPath base) (di_SysPath new) (di_SysPath cur),
     di_Links = merge_leaf (di_Links base) (di_Links new) (di_Links cur),
     di_Major = merge_leaf (di_Major base) (di_Major new) (di_Major cur),
     di_Minor = merge_leaf (di_Minor base) (di_Minor new) (di_Minor cur),
     di_Type = merge_leaf (di_Type base) (di_Type new) (di_Type cur),
     di_Bus = merge_leaf (di_Bus base) (di_Bus new) (di_Bus cur),
     di_Model = merge_leaf (di_Model base) (di_Model new) (di_Model cur),
     di_Vendor = merge_leaf (di_Vendor base) (di_Vendor new) (di_Vendor cur),
     di_Serial = merge_leaf (di_Serial base) (di_Serial new) (di_Serial cur),
     di_SerialShort = merge_leaf (di_SerialShort base) (di_SerialShort new) (di_SerialShort cur),
     di_WWN = merge_leaf (di_WWN base) (di_WWN new) (di_WWN cur),
     di_BusPath = merge_leaf (di_BusPath base) (di_BusPath new) (di_BusPath cur),
     di_Capacity = merge_leaf (di_Capacity base) (di_Capacity new) (di_Capacity cur),
     di_Rotational = merge_leaf (di_Rotational base) (di_Rotational new) (di_Rotational cur),
     di_FirmwareVersion = merge_leaf (di_FirmwareVersion base) (di_FirmwareVersion new) (di_FirmwareVersion cur)\<rparr>"

definition merge_telemetry :: "DiskTelemetry \<Rightarrow> DiskTelemetry \<Rightarrow> DiskTelemetry \<Rightarrow> DiskTelemetry" where
  "merge_telemetry base new cur =
    \<lparr>TemperatureCelsius = merge_leaf (TemperatureCelsius base) (TemperatureCelsius new) (TemperatureCelsius cur),
     PowerOnHours = merge_leaf (PowerOnHours base) (PowerOnHours new) (PowerOnHours cur),
     PowerCycleCount = merge_leaf (PowerCycleCount base) (PowerCycleCount new) (PowerCycleCount cur),
     ReallocatedSectors = merge_leaf (ReallocatedSectors base) (ReallocatedSectors new) (ReallocatedSectors cur),
     PendingSectors = merge_leaf (PendingSectors base) (PendingSectors new) (PendingSectors cur),
     PercentageUsed = merge_leaf (PercentageUsed base) (PercentageUsed new) (PercentageUsed cur),
     AvailableSpare = merge_leaf (AvailableSpare base) (AvailableSpare new) (AvailableSpare cur),
     CriticalWarning = merge_leaf (CriticalWarning base) (CriticalWarning new) (CriticalWarning cur),
     MediaErrors = merge_leaf (MediaErrors base) (MediaErrors new) (MediaErrors cur)\<rparr>"

text \<open>An object that is a pointer: unset it has no members.\<close>

definition merge_object ::
  "'a \<Rightarrow> ('a \<Rightarrow> 'a \<Rightarrow> 'a \<Rightarrow> 'a) \<Rightarrow> 'a option \<Rightarrow> 'a option \<Rightarrow> 'a option \<Rightarrow> 'a option" where
  "merge_object zero merge base new cur =
     (if new = base then cur
      else map_option (\<lambda>n. merge (case_option zero id base) n (case_option zero id cur)) new)"

definition merge_status ::
  "PhysicalDiskStatus \<Rightarrow> PhysicalDiskStatus \<Rightarrow> PhysicalDiskStatus \<Rightarrow> PhysicalDiskStatus" where
  "merge_status base new cur =
    \<lparr>Health = merge_leaf (Health base) (Health new) (Health cur),
     LastDataCollectedTime =
       merge_leaf (LastDataCollectedTime base) (LastDataCollectedTime new) (LastDataCollectedTime cur),
     Conditions = merge_leaf (Conditions base) (Conditions new) (Conditions cur),
     Info = merge_info (Info base) (Info new) (Info cur),
     Telemetry = merge_object empty_DiskTelemetry merge_telemetry (Telemetry base) (Telemetry new) (Telemetry cur),
     Findings = merge_leaf (Findings base) (Findings new) (Findings cur)\<rparr>"

lemma merge_unchanged [simp]:
  "merge_leaf x y x = y" "merge_labels l l' l = l'" "merge_info i i' i = i'"
  "merge_telemetry t t' t = t'" "merge_status st st' st = st'"
proof -
  show leaf: "merge_leaf x y x = y" for x y :: 'z by (simp add: merge_leaf_def)
  show "merge_labels l l' l = l'" by (simp add: merge_labels_def leaf)
  show info: "merge_info i i' i = i'" for i i' by (simp add: merge_info_def leaf)
  show tele: "merge_telemetry t t' t = t'" for t t' by (simp add: merge_telemetry_def leaf)
  have "merge_object e merge_telemetry o1 o2 o1 = o2" for e o1 o2
    by (cases o2) (simp_all add: merge_object_def tele)
  then show "merge_status st st' st = st'" by (simp add: merge_status_def leaf info)
qed

subsection \<open>A server that is a list of disks\<close>

definition stored :: "string \<Rightarrow> PhysicalDisk list \<Rightarrow> PhysicalDisk option" where
  "stored name s = List.find (\<lambda>d. pd_Name d = name) s"

definition answer_stored :: "string \<Rightarrow> PhysicalDisk list \<Rightarrow> (api_error + PhysicalDisk) \<times> PhysicalDisk list"
where
  "answer_stored name s =
     (case stored name s of None \<Rightarrow> Inl (ApiNotFound name) | Some d \<Rightarrow> Inr d, s)"

definition write_stored ::
  "(PhysicalDisk \<Rightarrow> PhysicalDisk) \<Rightarrow> string \<Rightarrow> PhysicalDisk list \<Rightarrow> PhysicalDisk list" where
  "write_stored f name s = map (\<lambda>x. if pd_Name x = name then f x else x) s"

definition listed :: "string \<Rightarrow> string \<Rightarrow> PhysicalDisk list \<Rightarrow> PhysicalDisk list" where
  "listed k v s = filter (\<lambda>d. pd_Labels d k = Some v)
     (map (\<lambda>name. the (stored name s)) (remdups (map pd_Name s)))"

definition list_client :: "PhysicalDisk list Client" where
  "list_client = \<lparr>
     cl_Get = answer_stored,
     cl_List = (\<lambda>(k, v) s. (Inr (listed k v s), s)),
     cl_Create = (\<lambda>d s. if stored (pd_Name d) s = None then (Inr d, s @ [d])
       else (Inl (ApiOther ''already exists''), s)),
     cl_Delete = (\<lambda>d s. if stored (pd_Name d) s = None then (Some (ApiNotFound (pd_Name d)), s)
       else (None, filter (\<lambda>x. pd_Name x \<noteq> pd_Name d) s)),
     cl_Patch = (\<lambda>base d s. answer_stored (pd_Name d) (write_stored
       (\<lambda>x. x\<lparr>pd_Labels := merge_labels (pd_Labels base) (pd_Labels d) (pd_Labels x)\<rparr>) (pd_Name d) s)),
     cl_StatusUpdate = (\<lambda>d s. if stored (pd_Name d) s = None then (Some (ApiNotFound (pd_Name d)), s)
       else (None, write_stored (\<lambda>x. x\<lparr>pd_Status := pd_Status d\<rparr>) (pd_Name d) s)),
     cl_StatusPatch = (\<lambda>base d s. answer_stored (pd_Name d) (write_stored
       (\<lambda>x. x\<lparr>pd_Status := merge_status (pd_Status base) (pd_Status d) (pd_Status x)\<rparr>) (pd_Name d) s))\<rparr>"

text \<open>Its disks have different names, and their health agrees with their condition Degraded.\<close>

definition list_ok :: "PhysicalDisk list \<Rightarrow> bool" where
  "list_ok s \<longleftrightarrow> distinct (map pd_Name s) \<and> list_all in_sync s"

definition list_holds :: "PhysicalDisk list \<Rightarrow> PhysicalDisk \<Rightarrow> bool" where
  "list_holds s d \<longleftrightarrow> (\<forall>x \<in> set s. pd_Name x = pd_Name d \<longrightarrow> pd_Status x = pd_Status d)"

lemma distinct_same: "distinct (map f xs) \<Longrightarrow> x \<in> set xs \<Longrightarrow> y \<in> set xs \<Longrightarrow> f x = f y \<Longrightarrow> x = y"
  by (auto simp: distinct_map inj_on_def)

lemma answer_stored_ok: "list_ok s \<Longrightarrow> answers list_ok list_holds (answer_stored name s)"
proof -
  assume s: "list_ok s"
  show ?thesis
  proof (cases "stored name s")
    case (Some d)
    then have "d \<in> set s" by (auto simp: stored_def find_Some_iff)
    then show ?thesis using s Some distinct_same [of pd_Name s]
      by (auto simp: answers_def answer_stored_def list_ok_def list_holds_def list_all_iff)
  qed (simp add: answers_def answer_stored_def s)
qed

lemma write_stored_ok:
  assumes "list_ok s" and "\<And>x. pd_Name (f x) = pd_Name x"
    and "\<And>x. x \<in> set s \<Longrightarrow> pd_Name x = name \<Longrightarrow> in_sync (f x)"
  shows "list_ok (write_stored f name s)"
proof -
  have "map pd_Name (write_stored f name s) = map pd_Name s"
    using assms(2) by (simp add: write_stored_def)
  moreover have "list_all in_sync (write_stored f name s)"
    using assms(1,3) by (auto simp: list_ok_def write_stored_def list_all_iff)
  ultimately show ?thesis using assms(1) by (simp only: list_ok_def)
qed

lemma filter_ok: "list_ok s \<Longrightarrow> list_ok (filter Q s)"
  by (simp add: list_ok_def list_all_iff distinct_map_filter)

lemma create_ok:
  assumes "list_ok s" and "in_sync d" and "stored (pd_Name d) s = None"
  shows "list_ok (s @ [d])" and "list_holds (s @ [d]) d"
proof -
  have "\<forall>x \<in> set s. pd_Name x \<noteq> pd_Name d"
    using assms(3) by (auto simp: stored_def find_None_iff)
  then show "list_ok (s @ [d])" and "list_holds (s @ [d]) d"
    using assms(1,2) by (force simp: list_ok_def list_holds_def)+
qed

lemma list_client_calls [simp]:
  "cl_Get list_client name s = answer_stored name s"
  "cl_List list_client sel s = (Inr (listed (fst sel) (snd sel) s), s)"
  "cl_Create list_client d s = (if stored (pd_Name d) s = None then (Inr d, s @ [d])
     else (Inl (ApiOther ''already exists''), s))"
  "cl_Delete list_client d s = (if stored (pd_Name d) s = None then (Some (ApiNotFound (pd_Name d)), s)
     else (None, filter (\<lambda>x. pd_Name x \<noteq> pd_Name d) s))"
  "cl_Patch list_client base d s = answer_stored (pd_Name d) (write_stored
     (\<lambda>x. x\<lparr>pd_Labels := merge_labels (pd_Labels base) (pd_Labels d) (pd_Labels x)\<rparr>) (pd_Name d) s)"
  "cl_StatusUpdate list_client d s = (if stored (pd_Name d) s = None then (Some (ApiNotFound (pd_Name d)), s)
     else (None, write_stored (\<lambda>x. x\<lparr>pd_Status := pd_Status d\<rparr>) (pd_Name d) s))"
  "cl_StatusPatch list_client base d s = answer_stored (pd_Name d) (write_stored
     (\<lambda>x. x\<lparr>pd_Status := merge_status (pd_Status base) (pd_Status d) (pd_Status x)\<rparr>) (pd_Name d) s)"
  by (simp_all add: list_client_def split_beta)

lemma snd_answer_stored [simp]: "snd (answer_stored name s) = s"
  by (simp add: answer_stored_def)

interpretation list_store: disk_store list_client list_ok list_holds
proof
  fix s :: "PhysicalDisk list" and base :: PhysicalDisk and l
  assume "list_ok s"
  then have "list_ok (write_stored (\<lambda>x. x\<lparr>pd_Labels := l' x\<rparr>) n s)" for l' n
    by (intro write_stored_ok) (auto simp: list_ok_def list_all_iff)
  then show "answers list_ok list_holds (cl_Patch list_client base (base\<lparr>pd_Labels := l\<rparr>) s)"
    by (simp add: answer_stored_ok)
next
  fix s :: "PhysicalDisk list" and base :: PhysicalDisk and st
  assume "list_ok s" "list_holds s base" "degraded_in_sync st"
  then have "list_ok (write_stored (\<lambda>x. x\<lparr>pd_Status := merge_status (pd_Status base) st (pd_Status x)\<rparr>)
      (pd_Name base) s)"
    by (intro write_stored_ok) (auto simp: list_holds_def)
  then show "list_ok (snd (cl_StatusPatch list_client base (base\<lparr>pd_Status := st\<rparr>) s))" by simp
next
  fix s :: "PhysicalDisk list" and d :: PhysicalDisk
  assume "list_ok s" and "in_sync d"
  then show "answers list_ok list_holds (cl_Create list_client d s)"
    using create_ok [of s d] by (simp add: answers_def)
next
  fix s :: "PhysicalDisk list" and d :: PhysicalDisk
  assume "list_ok s" and "in_sync d"
  then show "list_ok (snd (cl_StatusUpdate list_client d s))" by (simp add: write_stored_ok)
next
  fix s :: "PhysicalDisk list" and base d :: PhysicalDisk and l
  assume "list_holds s d"
  then show "list_holds (snd (cl_Patch list_client base (base\<lparr>pd_Labels := l\<rparr>) s)) d"
    by (auto simp: list_holds_def write_stored_def)
qed (simp_all add: answer_stored_ok filter_ok list_holds_def)

text \<open>A list whose resources have the nodes that their names say.\<close>

definition owned_by :: "(string \<Rightarrow> string) \<Rightarrow> PhysicalDisk list \<Rightarrow> bool" where
  "owned_by owner s \<longleftrightarrow> list_all (owned owner) s"

lemma answer_stored_owned:
  "owned_by owner s \<Longrightarrow> answer_stored name s = (r, s') \<Longrightarrow>
   owned_by owner s' \<and> (\<forall>d. r = Inr d \<longrightarrow> pd_Name d = name \<and> owned owner d)"
  by (auto simp: answer_stored_def owned_by_def stored_def find_Some_iff list_all_iff split: option.splits)

lemma write_stored_owned:
  "owned_by owner s \<Longrightarrow> (\<And>x. pd_Spec (f x) = pd_Spec x \<and> pd_Name (f x) = pd_Name x) \<Longrightarrow>
   owned_by owner (write_stored f name s)"
  by (auto simp: owned_by_def write_stored_def list_all_iff owned_def)

lemma listed_owned: "owned_by owner s \<Longrightarrow> d \<in> set (listed k v s) \<Longrightarrow> owned owner d"
proof -
  assume s: "owned_by owner s" and "d \<in> set (listed k v s)"
  then obtain x where x: "x \<in> set s" and d: "d = the (stored (pd_Name x) s)"
    by (auto simp: listed_def)
  have "stored (pd_Name x) s \<noteq> None" using x by (auto simp: stored_def find_None_iff)
  then obtain y where y: "stored (pd_Name x) s = Some y" by blast
  then have "y \<in> set s" by (auto simp: stored_def find_Some_iff)
  with s y d show ?thesis by (simp add: owned_by_def list_all_iff)
qed

interpretation list_owned: owned_store list_client "owned_by owner" owner for owner
proof
  fix s :: "PhysicalDisk list" and base :: PhysicalDisk and l r s'
  assume s: "owned_by owner s" and r: "cl_Patch list_client base (base\<lparr>pd_Labels := l\<rparr>) s = (r, s')"
  let ?s = "write_stored (\<lambda>x. x\<lparr>pd_Labels := merge_labels (pd_Labels base) l (pd_Labels x)\<rparr>) (pd_Name base) s"
  have "owned_by owner ?s" using s by (rule write_stored_owned) simp
  moreover have "answer_stored (pd_Name base) ?s = (r, s')" using r by simp
  ultimately show "owned_by owner s' \<and>
      (\<forall>d'. r = Inr d' \<longrightarrow> pd_Name d' = pd_Name base \<and> owned owner d')"
    by (rule answer_stored_owned)
next
  fix s :: "PhysicalDisk list" and sel rs s'
  assume "owned_by owner s" and "cl_List list_client sel s = (rs, s')"
  then show "owned_by owner s' \<and> (\<forall>ds d. rs = Inr ds \<longrightarrow> d \<in> set ds \<longrightarrow> owned owner d)"
    using listed_owned by auto
next
  fix s :: "PhysicalDisk list" and name r s'
  assume "owned_by owner s" and "cl_Get list_client name s = (r, s')"
  then show "owned_by owner s' \<and> (\<forall>d. r = Inr d \<longrightarrow> pd_Name d = name \<and> owned owner d)"
    using answer_stored_owned by (simp del: list_client_calls add: list_client_calls(1))
next
  fix s :: "PhysicalDisk list" and d :: PhysicalDisk
  assume "owned_by owner s"
  then show "owned_by owner (snd (cl_StatusUpdate list_client d s))"
    by (simp add: write_stored_owned)
next
  fix s :: "PhysicalDisk list" and base :: PhysicalDisk and st
  assume "owned_by owner s"
  then show "owned_by owner (snd (cl_StatusPatch list_client base (base\<lparr>pd_Status := st\<rparr>) s))"
    by (simp add: write_stored_owned)
qed (auto simp: owned_by_def list_all_iff split: if_splits)

interpretation list_retry: conflict_retry "attempts n" for n
  by unfold_locales blast

text \<open>\<^verbatim>\<open>retry.DefaultRetry\<close> makes five attempts.\<close>

definition list_monitor ::
  "MonitorOptions \<Rightarrow> FileSystem \<Rightarrow> (string \<Rightarrow> string \<Rightarrow> collect_error + SmartctlOutput) \<Rightarrow>
   PhysicalDisk list DiskMonitor" where
  "list_monitor opts fs collect = \<lparr>dm_Options = opts, dm_Recorder = True,
     dm_SetStatusCondition = list_setc 100, dm_Now = 100, dm_Client = list_client,
     dm_Collect = collect, dm_Fs = fs, dm_NodeRef = Some \<lparr>nr_Name = mo_NodeName opts, nr_UID = ''uid''\<rparr>,
     dm_RetryOnConflict = attempts 4, dm_IsValidLabelValue = label_value_errors\<rparr>"

interpretation list_monitor: stored_monitor "list_monitor opts fs collect" list_ok list_holds
  for opts fs collect
proof (intro stored_monitor.intro disk_monitor.intro status_monitor.intro)
  show "status_conditions (dm_SetStatusCondition (list_monitor opts fs collect))"
    by (simp add: list_monitor_def list_conditions.status_conditions_axioms)
  show "conflict_retry (dm_RetryOnConflict (list_monitor opts fs collect))"
    by (simp add: list_monitor_def list_retry.conflict_retry_axioms)
  show "disk_store (dm_Client (list_monitor opts fs collect)) list_ok list_holds"
    by (simp add: list_monitor_def list_store.disk_store_axioms)
qed

lemma list_monitor_node: "node_of (list_monitor opts fs collect) = mo_NodeName opts"
  by (simp add: list_monitor_def)

interpretation list_owner: owning_monitor "list_monitor opts fs collect" "owned_by (\<lambda>_. mo_NodeName opts)"
  "\<lambda>_. mo_NodeName opts" for opts fs collect
proof (intro owning_monitor.intro owning_monitor_axioms.intro list_monitor.disk_monitor_axioms)
  show "owned_store (dm_Client (list_monitor opts fs collect)) (owned_by (\<lambda>_. mo_NodeName opts)) (\<lambda>_. mo_NodeName opts)"
    by (simp add: list_monitor_def list_owned.owned_store_axioms)
qed (simp add: list_monitor_node)

definition list_view :: "PhysicalDisk list \<Rightarrow> string \<rightharpoonup> PhysicalDisk" where
  "list_view s = (\<lambda>name. map_option erase (stored name s))"

lemma stored_name: "stored name s = Some d \<Longrightarrow> pd_Name d = name"
  by (auto simp: stored_def find_Some_iff)

lemma stored_append: "stored name (s @ [d]) =
    (case stored name s of Some x \<Rightarrow> Some x | None \<Rightarrow> if pd_Name d = name then Some d else None)"
  by (induction s) (simp_all add: stored_def)

lemma stored_write:
  "(\<And>x. pd_Name (f x) = pd_Name x) \<Longrightarrow> stored name (write_stored f n s) =
    (if name = n then map_option f (stored name s) else stored name s)"
  by (induction s) (auto simp: stored_def write_stored_def)

lemma wrote_stored:
  assumes "list_view s (pd_Name base) = Some (erase base)" and "\<And>x. pd_Name (f x) = pd_Name x"
    and "\<And>x. erase x = erase base \<Longrightarrow> erase (f x) = erase d" and "pd_Name d = pd_Name base"
  shows "wrote list_view s d (answer_stored (pd_Name d) (write_stored f (pd_Name d) s))"
proof -
  obtain x where x: "stored (pd_Name base) s = Some x" and e: "erase x = erase base"
    using assms(1) by (auto simp: list_view_def)
  then have "list_view (write_stored f (pd_Name d) s) = (list_view s)(pd_Name d \<mapsto> erase d)"
    using assms(2,3) by (auto simp: list_view_def stored_write assms(4) fun_eq_iff)
  then show ?thesis
    using x assms(3) [OF e] by (simp add: wrote_def answer_stored_def stored_write assms(2,4))
qed

lemma erase_labels: "erase x = erase y \<Longrightarrow> erase (x\<lparr>pd_Labels := l\<rparr>) = erase (y\<lparr>pd_Labels := l\<rparr>)"
  by (cases x; cases y) (simp add: erase_def)

lemma erase_status: "erase x = erase y \<Longrightarrow> erase (x\<lparr>pd_Status := st\<rparr>) = erase (y\<lparr>pd_Status := st\<rparr>)"
  by (cases x; cases y) (simp add: erase_def)

lemma merged_labels: "erase x = erase base \<Longrightarrow>
    erase (x\<lparr>pd_Labels := merge_labels (pd_Labels base) l (pd_Labels x)\<rparr>) = erase (base\<lparr>pd_Labels := l\<rparr>)"
  using erase_eqD [of x base] erase_labels [of x base l] by simp

lemma merged_status: "erase x = erase base \<Longrightarrow>
    erase (x\<lparr>pd_Status := merge_status (pd_Status base) st (pd_Status x)\<rparr>) = erase (base\<lparr>pd_Status := st\<rparr>)"
  using erase_eqD [of x base] erase_status [of x base st] by simp

lemma stored_filter:
  "stored n (filter (\<lambda>x. pd_Name x \<noteq> name) s) = (if n = name then None else stored n s)"
  by (induction s) (auto simp: stored_def)

lemma stored_of_mem: "d \<in> set s \<Longrightarrow> \<exists>x. stored (pd_Name d) s = Some x"
  by (induction s) (auto simp: stored_def)

lemma stored_mem: "stored name s = Some d \<Longrightarrow> name \<in> pd_Name ` set s"
  by (auto simp: stored_def find_Some_iff)

lemma listed_iff:
  "d \<in> set (listed k v s) \<longleftrightarrow> stored (pd_Name d) s = Some d \<and> pd_Labels d k = Some v"
proof -
  have "d \<in> (\<lambda>name. the (stored name s)) ` pd_Name ` set s \<longleftrightarrow> stored (pd_Name d) s = Some d"
  proof
    assume "d \<in> (\<lambda>name. the (stored name s)) ` pd_Name ` set s"
    then obtain e where "e \<in> set s" and d: "d = the (stored (pd_Name e) s)" by blast
    with stored_of_mem have "stored (pd_Name e) s = Some d" by fastforce
    then show "stored (pd_Name d) s = Some d" using stored_name by fastforce
  next
    assume d: "stored (pd_Name d) s = Some d"
    then have "d = the (stored (pd_Name d) s)" by simp
    then show "d \<in> (\<lambda>name. the (stored name s)) ` pd_Name ` set s"
      using stored_mem [OF d] by (rule image_eqI)
  qed
  then show ?thesis by (auto simp: listed_def)
qed

lemma listed_distinct: "distinct (map pd_Name (listed k v s))"
proof -
  have "map pd_Name (map (\<lambda>name. the (stored name s)) names) = names"
    if "set names \<subseteq> pd_Name ` set s" for names
    using that by (induction names) (auto dest!: stored_of_mem dest: stored_name)
  then have "distinct (map pd_Name (map (\<lambda>name. the (stored name s)) (remdups (map pd_Name s))))"
    by simp
  then show ?thesis unfolding listed_def by (rule distinct_map_filter)
qed

lemma list_view_SomeE:
  assumes "list_view s n = Some x"
  obtains d where "stored n s = Some d" and "erase d = x" and "pd_Name d = n"
  using assms by (auto simp: list_view_def dest: stored_name)

interpretation list_server: api_server list_client list_view sel names for sel names
proof
  fix s base l
  assume v: "list_view s (pd_Name base) = Some (erase base)"
  show "wrote list_view s (base\<lparr>pd_Labels := l\<rparr>) (cl_Patch list_client base (base\<lparr>pd_Labels := l\<rparr>) s)"
    using wrote_stored [OF v, of "\<lambda>x. x\<lparr>pd_Labels := merge_labels (pd_Labels base) l (pd_Labels x)\<rparr>"
        "base\<lparr>pd_Labels := l\<rparr>", OF _ merged_labels] by simp
next
  fix s name
  show "list_view (snd (cl_Get list_client name s)) = list_view s"
    by (simp add: list_client_def answer_stored_def)
next
  fix s name x
  assume "list_view s name = Some x"
  then show "pd_Name x = name" and "\<exists>d. fst (cl_Get list_client name s) = Inr d \<and> erase d = x"
    by (auto simp: list_view_def list_client_def answer_stored_def dest: stored_name)
next
  fix s name
  assume "list_view s name = None"
  then show "\<exists>e. fst (cl_Get list_client name s) = Inl (ApiNotFound e)"
    by (simp add: list_view_def list_client_def answer_stored_def)
next
  fix s and d :: PhysicalDisk
  assume "list_view s (pd_Name d) = None"
  then show "wrote list_view s d (cl_Create list_client d s)"
    by (auto simp: list_view_def list_client_def wrote_def stored_append fun_eq_iff split: option.split)
next
  fix s base st
  assume v: "list_view s (pd_Name base) = Some (erase base)"
  show "wrote list_view s (base\<lparr>pd_Status := st\<rparr>) (cl_StatusPatch list_client base (base\<lparr>pd_Status := st\<rparr>) s)"
    using wrote_stored [OF v, of "\<lambda>x. x\<lparr>pd_Status := merge_status (pd_Status base) st (pd_Status x)\<rparr>"
        "base\<lparr>pd_Status := st\<rparr>", OF _ merged_status] by simp
next
  fix s and d :: PhysicalDisk and st
  assume v: "list_view s (pd_Name d) = Some (erase d)"
  then obtain x where x: "stored (pd_Name d) s = Some x" and e: "erase x = erase d"
    by (rule list_view_SomeE)
  have "list_view (write_stored (\<lambda>y. y\<lparr>pd_Status := st\<rparr>) (pd_Name d) s) =
      (list_view s)(pd_Name d \<mapsto> erase (d\<lparr>pd_Status := st\<rparr>))"
    using x erase_status [OF e] by (auto simp: list_view_def stored_write fun_eq_iff)
  with x show "fst (cl_StatusUpdate list_client (d\<lparr>pd_Status := st\<rparr>) s) = None \<and>
      list_view (snd (cl_StatusUpdate list_client (d\<lparr>pd_Status := st\<rparr>) s)) =
        (list_view s)(pd_Name d \<mapsto> erase (d\<lparr>pd_Status := st\<rparr>))"
    by (simp add: list_client_def)
next
  fix s and d :: PhysicalDisk
  assume "list_view s (pd_Name d) \<noteq> None"
  then show "fst (cl_Delete list_client d s) = None \<and>
      list_view (snd (cl_Delete list_client d s)) = (list_view s)(pd_Name d := None)"
    by (auto simp: list_client_def list_view_def stored_filter fun_eq_iff)
next
  fix s :: "PhysicalDisk list"
  obtain k v where sel: "sel = (k, v)" by fastforce
  have "n \<in> pd_Name ` set (listed k v s)"
    if "list_view s n = Some x" and "pd_Labels x k = Some v" for n x
    using that(1)
  proof (rule list_view_SomeE)
    fix d
    assume "stored n s = Some d" and "erase d = x" and n: "pd_Name d = n"
    moreover have "pd_Labels d = pd_Labels x" using \<open>erase d = x\<close> by (metis erase_simps(2))
    ultimately have "d \<in> set (listed k v s)" using that(2) by (simp add: listed_iff)
    then show ?thesis using n by blast
  qed
  moreover have "\<forall>d \<in> set (listed k v s). list_view s (pd_Name d) = Some (erase d) \<and> pd_Labels d k = Some v"
    by (simp add: listed_iff list_view_def)
  ultimately show "\<exists>ds. fst (cl_List list_client sel s) = Inr ds \<and> distinct (map pd_Name ds) \<and>
      (\<forall>d \<in> set ds. list_view s (pd_Name d) = Some (erase d) \<and> pd_Labels d (fst sel) = Some (snd sel)) \<and>
      (\<forall>n x. list_view s n = Some x \<longrightarrow> pd_Labels x (fst sel) = Some (snd sel) \<longrightarrow> n \<in> pd_Name ` set ds)"
    using listed_distinct [of k v s] by (simp add: list_client_def sel)
next
  fix s :: "PhysicalDisk list" and sel :: "string \<times> string"
  show "list_view (snd (cl_List list_client sel s)) = list_view s"
    by (cases sel) (simp add: list_client_def)
qed

lemma unavailable_ReconcileAll:
  assumes "database_unavailable (dm_Fs m) (mo_SysDir (dm_Options m)) (mo_UdevDataDir (dm_Options m))"
  shows "snd (ReconcileAll m w) = w" and "length (fst (ReconcileAll m w)) = 1"
proof -
  obtain n dir e where "discover m = Inl (UdevUnavailable n dir (Some e))"
    using unavailable_discover [OF assms, of "node_of m" "mo_ExcludeRules (dm_Options m)"]
    by (auto simp: discover_def Let_def)
  then show "snd (ReconcileAll m w) = w" and "length (fst (ReconcileAll m w)) = 1"
    by (simp_all add: ReconcileAll_def)
qed

definition no_udev_fs :: FileSystem where
  "no_udev_fs = sample_fs\<lparr>fs_ReadFile := (\<lambda>path. if path = ''/sys/block/sda/dev''
     then Inr (''8:0'' @ [CHR 0x0A]) else Inl ''no such file'')\<rparr>"

lemma no_udev_unavailable: "database_unavailable no_udev_fs [] []"
  by code_simp

lemma list_monitor_server: "api_server (dm_Client (list_monitor opts fs collect)) list_view sel names"
  by (simp add: list_monitor_def list_server.api_server_axioms)

lemma sample_discover: "discover (list_monitor sample_options sample_fs collect) = Inr [sample_disk]"
  by (simp add: discover_def list_monitor_def sample_options_def sample_inventory IsExcluded_def)

subsection \<open>Properties\<close>

text \<open>
  Whatever the API server answers, a scan and a reconcile request only do what concerns the
  node of the monitor: they delete only resources of the node that an exclusion rule matches,
  create only resources with the node, its label and its owner, change nothing but the node label
  and the status of a resource, and touch only metrics of the node.
\<close>

theorem handlers_own_node:
  assumes "disk_monitor m"
  shows "traced (own_act m) w (snd (ReconcileAll m w)) \<and>
    traced (own_act m) w (snd (Reconcile m name w))"
  using disk_monitor.own_handlers [OF assms] by simp

theorem handlers_own_node_witness:
  "traced (own_act (list_monitor sample_options sample_fs (\<lambda>_ _. Inr healthy_output)))
     \<lparr>w_api = [], w_trace = []\<rparr>
     (snd (ReconcileAll (list_monitor sample_options sample_fs (\<lambda>_ _. Inr healthy_output))
       \<lparr>w_api = [], w_trace = []\<rparr>))"
  using handlers_own_node [OF list_monitor.disk_monitor_axioms] by blast

text \<open>
  C2: when the health of every stored disk agrees with its condition Degraded, it does so after a scan
  and after a reconcile request, whichever of their calls the API server refuses and whatever
  smartctl answers, as long as no other writer changes the resources in the meantime.
\<close>

theorem handlers_keep_health_in_sync:
  assumes "stored_monitor m ok holds" and "ok (w_api w)"
  shows "ok (w_api (snd (ReconcileAll m w))) \<and> ok (w_api (snd (Reconcile m name w)))"
  using stored_monitor.stored_handlers [OF assms(1)] assms(2) by simp

theorem handlers_keep_health_in_sync_witness:
  "list_ok (w_api (snd (ReconcileAll
     (list_monitor sample_options sample_fs (\<lambda>_ _. Inr healthy_output))
     \<lparr>w_api = [new_disk], w_trace = []\<rparr>)))"
  using handlers_keep_health_in_sync [OF list_monitor.stored_monitor_axioms,
      of "\<lparr>w_api = [new_disk], w_trace = []\<rparr>"] new_disk_in_sync by (simp add: list_ok_def)

text \<open>
  C15: when the udev database is not available (whole disks exist and none has a record), a scan
  reports the error and does nothing: no disk is marked as missing, no call is made.
\<close>

theorem unavailable_database_touches_nothing:
  assumes "database_unavailable (dm_Fs m) (mo_SysDir (dm_Options m)) (mo_UdevDataDir (dm_Options m))"
  shows "snd (ReconcileAll m w) = w \<and> length (fst (ReconcileAll m w)) = 1"
  using unavailable_ReconcileAll [OF assms] by blast

theorem unavailable_database_touches_nothing_witness:
  "let m = list_monitor sample_options no_udev_fs (\<lambda>_ _. Inr healthy_output);
       w = \<lparr>w_api = [new_disk], w_trace = []\<rparr> in
   snd (ReconcileAll m w) = w \<and> length (fst (ReconcileAll m w)) = 1"
  unfolding Let_def
  by (intro unavailable_database_touches_nothing)
    (simp add: list_monitor_def sample_options_def no_udev_unavailable)

text \<open>
  C8: on an API server that answers and that no one else writes to, a scan whose inventory succeeds
  returns no error and implements an abstract update of the map from names to resources.  First the
  map is pruned: of the resources with the label and the node of the monitor, those that an
  exclusion rule matches are deleted and those whose disk was not found become Missing.  Then the
  resource of every discovered disk is created if it does not exist, gets the node label, and its
  status becomes the one computed from the inventory and the run of smartctl.  No other resource
  changes.
\<close>

theorem ReconcileAll_refines:
  assumes "disk_monitor m" and "api_server (dm_Client m) view (LabelNodeName, node_label m) UNIV"
    and "discover m = Inr infos"
  shows "fst (ReconcileAll m w) = [] \<and>
    view (w_api (snd (ReconcileAll m w))) =
      foldl (upsert m) (prune m (set (map (GenerateCRName (node_of m)) infos)) (view (w_api w))) infos"
  by (rule served_monitor.ReconcileAll_view [OF served_monitor.intro [OF assms(1,2)] assms(3) subset_UNIV])

theorem ReconcileAll_refines_witness:
  "let m = list_monitor sample_options sample_fs (\<lambda>_ _. Inr healthy_output);
       infos = projr (discover m)
   in infos \<noteq> [] \<and> list_view (w_api (snd (ReconcileAll m \<lparr>w_api = [new_disk], w_trace = []\<rparr>))) =
     foldl (upsert m) (prune m (set (map (GenerateCRName (node_of m)) infos)) (list_view [new_disk])) infos"
proof -
  let ?m = "list_monitor sample_options sample_fs (\<lambda>_ _. Inr healthy_output)"
  have "projr (discover ?m) = [sample_disk]" by (simp add: sample_discover)
  with ReconcileAll_refines [OF list_monitor.disk_monitor_axioms list_monitor_server
        sample_discover [where collect = "\<lambda>_ _. Inr healthy_output"],
      where w = "\<lparr>w_api = [new_disk], w_trace = []\<rparr>"]
  show ?thesis by (simp only: Let_def World.select_convs) simp
qed

text \<open>
  C9: on an API server that answers every call and that no one else writes to, a reconcile request
  does nothing for a resource that does not exist or belongs to another node, returns the error of
  an inventory that fails and changes nothing, and otherwise returns no error and changes that
  resource only: it gets the status of its disk when the disk is there, is deleted when it is
  excluded, and is marked as missing otherwise.
\<close>

theorem Reconcile_refines:
  assumes "disk_monitor m" and "api_server (dm_Client m) view (LabelNodeName, node_label m) UNIV"
  shows "(fst (Reconcile m name w), view (w_api (snd (Reconcile m name w)))) =
    request_effect m name (view (w_api w))"
  using served_monitor.Reconcile_effect [OF served_monitor.intro [OF assms]] by blast

theorem Reconcile_refines_witness:
  "let m = list_monitor sample_options sample_fs (\<lambda>_ _. Inr healthy_output)
   in (fst (Reconcile m ''node1-0x5000'' \<lparr>w_api = [new_disk], w_trace = []\<rparr>),
       list_view (w_api (snd (Reconcile m ''node1-0x5000'' \<lparr>w_api = [new_disk], w_trace = []\<rparr>)))) =
     (None, request_item m [sample_disk] (erase new_disk) (list_view [new_disk]))"
  unfolding Let_def
  using Reconcile_refines [OF list_monitor.disk_monitor_axioms list_monitor_server
      [of sample_options sample_fs "\<lambda>_ _. Inr healthy_output"],
      of "''node1-0x5000''" "\<lparr>w_api = [new_disk], w_trace = []\<rparr>"]
    sample_discover [of "\<lambda>_ _. Inr healthy_output"]
  by (simp add: request_effect_def list_view_def stored_def new_disk_def erase_def list_monitor_node
      sample_options_def)

end
