(* ===== verification/Uevent.thy ===== *)
theory Uevent
  imports Disk_Filter "HOL-Library.Word"
begin

text \<open>
  The udev netlink monitor (\<^verbatim>\<open>pkg/discovery/uevent.go\<close>): the decoder of libudev messages, the
  filter \<open>isDiskChange\<close>, and the receive loop of \<^verbatim>\<open>listen\<close>.  What the socket delivers is the input
  of the loop, a list of \<open>read_outcome\<close>s; what the loop does is the number of its calls of
  \<^verbatim>\<open>trigger\<close> and how it ends.  The byte order of the machine and the answers of the system
  calls are parameters.
\<close>

subsection \<open>Constants\<close>

definition libudev_prefix :: string where
  "libudev_prefix = ''libudev'' @ [CHR 0x00]"

definition magic :: nat where
  "magic = 0xfeedcafe"

definition magicOff :: nat where
  "magicOff = 8"

definition propsOff :: nat where
  "propsOff = 16"

definition minHeader :: nat where
  "minHeader = 40"

lemmas header_defs = libudev_prefix_def magic_def magicOff_def propsOff_def minHeader_def

subsection \<open>Decoding\<close>

datatype byte_order = LittleEndian | BigEndian

text \<open>\<^verbatim>\<open>Uint32\<close> of the first four bytes; the callers have checked that there are four.\<close>

definition uint32 :: "byte_order \<Rightarrow> string \<Rightarrow> nat" where
  "uint32 bo s = (let bs = map byte (take 4 s) in
     foldl (\<lambda>n b. n * 256 + b) 0 (case bo of BigEndian \<Rightarrow> bs | LittleEndian \<Rightarrow> rev bs))"

datatype message_error = NotLibudev | InvalidMagic | InvalidOffset nat

definition add_property :: "string \<Rightarrow> (string \<rightharpoonup> string) \<Rightarrow> (string \<rightharpoonup> string)" where
  "add_property field env =
     (case cut (CHR ''='') field of
        Some (key, v) \<Rightarrow> if length key > 0 then env(key \<mapsto> v) else env
      | None \<Rightarrow> env)"

definition parseMessage :: "byte_order \<Rightarrow> string \<Rightarrow> message_error + (string \<rightharpoonup> string)" where
  "parseMessage native b =
     (if length b < minHeader \<or> \<not> prefix libudev_prefix b then Inl NotLibudev
      else if uint32 BigEndian (drop magicOff b) \<noteq> magic then Inl InvalidMagic
      else (let off = uint32 native (drop propsOff b) in
        if off < minHeader \<or> off \<ge> length b mod 2 ^ 32 then Inl (InvalidOffset off)
        else Inr (fold add_property (split_on (CHR 0x00) (drop off b)) Map.empty)))"

subsection \<open>Filtering\<close>

text \<open>\<^verbatim>\<open>path.Base\<close>.\<close>

definition path_base :: "string \<Rightarrow> string" where
  "path_base p =
     (if p = [] then ''.''
      else (let q = rev (dropWhile (\<lambda>c. c = CHR ''/'') (rev p)); b = last (split_on (CHR ''/'') q)
            in if b = [] then ''/'' else b))"

definition isDiskChange :: "(string \<rightharpoonup> string) \<Rightarrow> bool" where
  "isDiskChange env \<longleftrightarrow>
     (if get_prop env ''SUBSYSTEM'' \<noteq> ''block'' \<or> get_prop env ''DEVTYPE'' \<noteq> ''disk'' then False
      else (let a = get_prop env ''ACTION'' in
        if a \<noteq> ''add'' \<and> a \<noteq> ''remove'' then False
        else \<not> ShouldIgnore (path_base (get_prop env ''DEVPATH'')) env))"

subsection \<open>The receive loop\<close>

datatype errno = ENOBUFS | EINTR | OtherErrno string

text \<open>
  One round of the loop: the read on the file fails (with the state of the context at that moment),
  or \<^verbatim>\<open>recvmsg\<close> returns an error number or a datagram that may be truncated.
\<close>

datatype read_outcome =
    ReadFailed bool string
  | RecvError errno
  | Datagram bool string

datatype listen_exit = Waiting | Stopped | ConnError string | ReadError string | ReceiveError string

fun listen_loop :: "byte_order \<Rightarrow> read_outcome list \<Rightarrow> nat \<Rightarrow> nat \<times> listen_exit" where
  "listen_loop native [] triggers = (triggers, Waiting)"
| "listen_loop native (ReadFailed ctx_done e # rest) triggers =
     (triggers, if ctx_done then Stopped else ReadError e)"
| "listen_loop native (RecvError ENOBUFS # rest) triggers = listen_loop native rest (triggers + 1)"
| "listen_loop native (RecvError EINTR # rest) triggers = listen_loop native rest triggers"
| "listen_loop native (RecvError (OtherErrno e) # rest) triggers = (triggers, ReceiveError e)"
| "listen_loop native (Datagram truncated b # rest) triggers =
     (if truncated then listen_loop native rest (triggers + 1)
      else case parseMessage native b of
          Inl _ \<Rightarrow> listen_loop native rest triggers
        | Inr env \<Rightarrow> listen_loop native rest (if isDiskChange env then triggers + 1 else triggers))"

definition listen :: "byte_order \<Rightarrow> string option \<Rightarrow> read_outcome list \<Rightarrow> nat \<times> listen_exit" where
  "listen native conn_err outcomes =
     (case conn_err of Some e \<Rightarrow> (0, ConnError e) | None \<Rightarrow> listen_loop native outcomes 1)"

subsection \<open>Opening the socket\<close>

definition groupUdev :: nat where
  "groupUdev = 2"

definition rcvBuf :: nat where
  "rcvBuf = 2 * 2 ^ 20"

text \<open>The system calls of \<open>dial\<close>, and the errors that they return.\<close>

datatype socket_call = OpenSocket | SetRcvBufForce nat | SetRcvBuf nat | BindGroup nat | CloseSocket

record SocketOs =
  sk_Open :: "string option"
  sk_Force :: "string option"
  sk_Bind :: "string option"

datatype dial_error = OpenFailed string | BindFailed string

definition dial :: "SocketOs \<Rightarrow> dial_error option \<times> socket_call list" where
  "dial os =
     (case sk_Open os of
        Some e \<Rightarrow> (Some (OpenFailed e), [OpenSocket])
      | None \<Rightarrow>
          (let calls = [OpenSocket, SetRcvBufForce rcvBuf] @
                 (if sk_Force os \<noteq> None then [SetRcvBuf rcvBuf] else []) @ [BindGroup groupUdev]
           in case sk_Bind os of
                Some e \<Rightarrow> (Some (BindFailed e), calls @ [CloseSocket])
              | None \<Rightarrow> (None, calls)))"

definition Monitor ::
  "SocketOs \<Rightarrow> byte_order \<Rightarrow> string option \<Rightarrow> read_outcome list \<Rightarrow> dial_error + nat \<times> listen_exit" where
  "Monitor os native conn_err outcomes =
     (case fst (dial os) of Some e \<Rightarrow> Inl e | None \<Rightarrow> Inr (listen native conn_err outcomes))"

text \<open>A socket that was opened and is not handed out is closed, so a retry does not leak it.\<close>

lemma dial_closes: "CloseSocket \<in> set (snd (dial os)) \<longleftrightarrow> sk_Open os = None \<and> fst (dial os) \<noteq> None"
  by (auto simp: dial_def Let_def split: option.split)

subsection \<open>Messages that decode\<close>

definition be32 :: "nat \<Rightarrow> string" where
  "be32 n = map char_of [n div 2 ^ 24 mod 256, n div 2 ^ 16 mod 256, n div 2 ^ 8 mod 256, n mod 256]"

definition encode32 :: "byte_order \<Rightarrow> nat \<Rightarrow> string" where
  "encode32 bo n = (case bo of BigEndian \<Rightarrow> be32 n | LittleEndian \<Rightarrow> rev (be32 n))"

text \<open>
  A field of the properties: an assignment, or something that is none, such as the empty field that
  the NUL at the end of every message of udevd leaves.
\<close>

datatype field = Property string string | Noise string

fun field_text :: "field \<Rightarrow> string" where
  "field_text (Property k v) = k @ ''='' @ v"
| "field_text (Noise s) = s"

fun wf_field :: "field \<Rightarrow> bool" where
  "wf_field (Property k v) \<longleftrightarrow> k \<noteq> [] \<and> CHR ''='' \<notin> set k \<and> CHR 0x00 \<notin> set k \<and> CHR 0x00 \<notin> set v"
| "wf_field (Noise s) \<longleftrightarrow> CHR 0x00 \<notin> set s \<and> (CHR ''='' \<notin> set s \<or> hd s = CHR ''='')"

text \<open>The properties of a message: of two assignments to a key the last one counts.\<close>

fun assign :: "field \<Rightarrow> (string \<rightharpoonup> string) \<Rightarrow> (string \<rightharpoonup> string)" where
  "assign (Property k v) env = env(k \<mapsto> v)"
| "assign (Noise s) env = env"

definition properties_of :: "field list \<Rightarrow> (string \<rightharpoonup> string)" where
  "properties_of fs = fold assign fs Map.empty"

text \<open>
  A message of udevd: the header, of which only the prefix, the magic and the properties offset are
  evaluated (the size \<open>a\<close> and the rest \<open>bs\<close> are free), and the fields, separated by NULs.
\<close>

definition udev_message :: "byte_order \<Rightarrow> string \<Rightarrow> string \<Rightarrow> field list \<Rightarrow> string" where
  "udev_message bo a bs fs =
     libudev_prefix @ be32 magic @ a @ encode32 bo (20 + length bs) @ bs @
     join [CHR 0x00] (map field_text fs)"

lemma be32_length [simp]: "length (be32 n) = 4"
  by (simp add: be32_def)

lemma encode32_length [simp]: "length (encode32 bo n) = 4"
  by (simp add: encode32_def split: byte_order.split)

lemma digits256:
  "n < 2 ^ 32 \<Longrightarrow>
   ((n div 2 ^ 24 mod 256 * 256 + n div 2 ^ 16 mod 256) * 256 + n div 2 ^ 8 mod 256) * 256 + n mod 256
     = (n :: nat)"
proof -
  assume "n < 2 ^ 32"
  then have top: "n div 2 ^ 24 mod 256 = n div 2 ^ 24"
    by (simp add: less_mult_imp_div_less)
  have a: "n div 2 ^ 24 * 256 + n div 2 ^ 16 mod 256 = n div 2 ^ 16"
    using div_mult_mod_eq [of "n div 2 ^ 16" 256] by (simp add: div_mult2_eq [symmetric])
  have b: "n div 2 ^ 16 * 256 + n div 2 ^ 8 mod 256 = n div 2 ^ 8"
    using div_mult_mod_eq [of "n div 2 ^ 8" 256] by (simp add: div_mult2_eq [symmetric])
  have c: "n div 2 ^ 8 * 256 + n mod 256 = n"
    using div_mult_mod_eq [of n 256] by simp
  show ?thesis by (simp only: top a b c)
qed

lemma uint32_encode: "n < 2 ^ 32 \<Longrightarrow> uint32 bo (encode32 bo n @ rest) = n"
  using digits256 [of n]
  by (cases bo) (simp_all add: uint32_def encode32_def be32_def Let_def)

lemma uint32_be: "n < 2 ^ 32 \<Longrightarrow> uint32 BigEndian (be32 n @ rest) = n"
  using uint32_encode [of n BigEndian rest] by (simp add: encode32_def)

lemma add_field: "wf_field f \<Longrightarrow> add_property (field_text f) env = assign f env"
proof (cases f)
  case (Noise s)
  assume "wf_field f"
  then consider "CHR ''='' \<notin> set s" | t where "s = CHR ''='' # t" using Noise by (cases s) auto
  then show ?thesis
    by cases (simp_all add: Noise add_property_def cut_def)
qed (simp add: add_property_def cut_append)

lemma add_fields: "list_all wf_field fs \<Longrightarrow> fold add_property (map field_text fs) env = fold assign fs env"
  by (induction fs arbitrary: env) (simp_all add: add_field)

lemma field_text_nul: "wf_field f \<Longrightarrow> CHR 0x00 \<notin> set (field_text f)"
  by (cases f) auto

subsection \<open>The loop without recursion\<close>

text \<open>The outcomes that end the loop, and those that demand a rescan.\<close>

fun fatal :: "read_outcome \<Rightarrow> bool" where
  "fatal (ReadFailed _ _) = True"
| "fatal (RecvError e) = (case e of OtherErrno _ \<Rightarrow> True | _ \<Rightarrow> False)"
| "fatal (Datagram _ _) = False"

fun demands_rescan :: "byte_order \<Rightarrow> read_outcome \<Rightarrow> bool" where
  "demands_rescan native (RecvError e) \<longleftrightarrow> e = ENOBUFS"
| "demands_rescan native (Datagram truncated b) \<longleftrightarrow> truncated \<or>
     (case parseMessage native b of Inl _ \<Rightarrow> False | Inr env \<Rightarrow> isDiskChange env)"
| "demands_rescan native (ReadFailed _ _) \<longleftrightarrow> False"

fun exit_of :: "read_outcome \<Rightarrow> listen_exit" where
  "exit_of (ReadFailed ctx_done e) = (if ctx_done then Stopped else ReadError e)"
| "exit_of (RecvError (OtherErrno e)) = ReceiveError e"
| "exit_of _ = Waiting"

lemma listen_loop_spec:
  "listen_loop native xs n =
    (n + length (filter (demands_rescan native) (takeWhile (\<lambda>x. \<not> fatal x) xs)),
     case dropWhile (\<lambda>x. \<not> fatal x) xs of [] \<Rightarrow> Waiting | x # _ \<Rightarrow> exit_of x)"
  by (induction native xs n rule: listen_loop.induct) (auto split: sum.splits)

lemma ShouldIgnore_cong:
  assumes "\<And>k. k \<in> {''ID_BUS'', ''ID_PATH'', ''ID_VENDOR'', ''ID_MODEL''} \<Longrightarrow>
    get_prop p k = get_prop q k"
  shows "ShouldIgnore name p = ShouldIgnore name q"
  using assms by (simp add: ShouldIgnore_def)

subsection \<open>Properties\<close>

text \<open>
  C28: a udev message is decoded to exactly the properties that its fields assign, in either byte order,
  whatever the unused header words hold and wherever the properties begin; of several assignments to
  a key the last counts, and empty fields (as the NUL at the end of every message of udevd makes
  one), fields without a key and fields without an equals sign are skipped.
\<close>

theorem parseMessage_roundtrip:
  assumes "length a = 4" and "20 \<le> length bs"
    and "list_all wf_field fs" and "join [CHR 0x00] (map field_text fs) \<noteq> []"
    and "length (udev_message bo a bs fs) < 2 ^ 32"
  shows "parseMessage bo (udev_message bo a bs fs) = Inr (properties_of fs)"
proof -
  let ?props = "join [CHR 0x00] (map field_text fs)"
  let ?m = "udev_message bo a bs fs"
  let ?off = "20 + length bs"
  let ?header = "libudev_prefix @ be32 magic @ a @ encode32 bo ?off @ bs"
  have hdr: "length ?header = ?off" using assms(1) by (simp add: libudev_prefix_def)
  have m: "?m = ?header @ ?props" by (simp add: udev_message_def)
  have "length ?m = length ?header + length ?props" unfolding m by (rule length_append)
  then have len: "?off < length ?m" unfolding hdr using assms(4) by simp
  have p: "drop ?off ?m = ?props" unfolding m using hdr by simp
  have "drop 8 ?m = be32 magic @ a @ encode32 bo ?off @ bs @ ?props"
    by (simp add: udev_message_def libudev_prefix_def)
  then have mg: "uint32 BigEndian (drop magicOff ?m) = magic"
    by (simp add: magicOff_def uint32_be magic_def)
  have "drop 16 ?m = encode32 bo ?off @ bs @ ?props"
    using assms(1) by (simp add: udev_message_def libudev_prefix_def)
  then have off: "uint32 bo (drop propsOff ?m) = ?off"
    using len assms(5) by (simp add: propsOff_def uint32_encode)
  have "fs \<noteq> []" using assms(4) by auto
  then have "split_on (CHR 0x00) ?props = map field_text fs"
    using assms(3) field_text_nul by (intro split_on_join) (auto simp: list_all_iff)
  then have "fold add_property (split_on (CHR 0x00) (drop ?off ?m)) Map.empty = properties_of fs"
    unfolding p properties_of_def using add_fields [OF assms(3)] by simp
  moreover have "prefix libudev_prefix ?m" by (simp add: udev_message_def)
  ultimately show ?thesis
    using len mg off assms(2,5) by (simp add: parseMessage_def Let_def minHeader_def)
qed

definition sample_properties :: "(string \<times> string) list" where
  "sample_properties = [(''ACTION'', ''add''), (''SUBSYSTEM'', ''block''), (''DEVTYPE'', ''disk''),
     (''DEVPATH'', ''/devices/x/block/sda''), (''ID_MODEL'', ''A=B'')]"

text \<open>The message of \<^verbatim>\<open>pkg/discovery/testdata/udevd-change-loop0.bin\<close>, which udevd has sent.\<close>

definition loop0_fields :: "field list" where
  "loop0_fields = [Property ''UDEV_DATABASE_VERSION'' ''1'', Property ''ACTION'' ''change'',
     Property ''DEVPATH'' ''/devices/virtual/block/loop0'', Property ''SUBSYSTEM'' ''block'',
     Property ''DEVNAME'' ''/dev/loop0'', Property ''DEVTYPE'' ''disk'', Property ''DISKSEQ'' ''14'',
     Property ''SEQNUM'' ''7073'', Property ''MAJOR'' ''7'', Property ''MINOR'' ''0'',
     Property ''USEC_INITIALIZED'' ''1142034'', Property ''TAGS'' '':systemd:'',
     Property ''ID_LOOP_BACKING_DEVICE'' ''259:1'', Property ''ID_LOOP_BACKING_INODE'' ''39720277'',
     Property ''DEVLINKS'' ''/dev/disk/by-loop-inode/259:1-39720277 /dev/disk/by-diskseq/14'',
     Property ''CURRENT_TAGS'' '':systemd:'', Noise []]"

definition loop0_message :: string where
  "loop0_message = udev_message LittleEndian [CHR 0x28, CHR 0x00, CHR 0x00, CHR 0x00]
     [CHR 0x65, CHR 0x01, CHR 0x00, CHR 0x00, CHR 0xf0, CHR 0x03, CHR 0x1d, CHR 0xb7, CHR 0x7b,
      CHR 0xcb, CHR 0xc5, CHR 0xee, CHR 0x02, CHR 0x00, CHR 0x04, CHR 0x00, CHR 0x10, CHR 0x80,
      CHR 0x00, CHR 0x00] loop0_fields"

theorem parseMessage_roundtrip_witness:
  "length loop0_message = 397 \<and> last loop0_message = CHR 0x00 \<and>
   parseMessage LittleEndian loop0_message = Inr (properties_of loop0_fields) \<and>
   properties_of loop0_fields ''DEVNAME'' = Some ''/dev/loop0''"
proof -
  have len: "length loop0_message = 397"
    by (simp add: loop0_message_def udev_message_def loop0_fields_def libudev_prefix_def)
  moreover have "last loop0_message = CHR 0x00"
    by (simp add: loop0_message_def udev_message_def loop0_fields_def)
  moreover have "parseMessage LittleEndian loop0_message = Inr (properties_of loop0_fields)"
    unfolding loop0_message_def
  proof (rule parseMessage_roundtrip)
    show "list_all wf_field loop0_fields" by (simp add: loop0_fields_def)
    show "join [CHR 0x00] (map field_text loop0_fields) \<noteq> []" by (simp add: loop0_fields_def)
  qed (simp_all add: len [unfolded loop0_message_def])
  moreover have "properties_of loop0_fields ''DEVNAME'' = Some ''/dev/loop0''"
    by (simp add: properties_of_def loop0_fields_def)
  ultimately show ?thesis by blast
qed

text \<open>
  C29: the listener triggers once when it is ready and once for every lost or truncated message and
  every disk that appeared or vanished, up to the outcome that ends it; nothing else triggers and
  no other outcome ends it.
\<close>

theorem listen_triggers:
  "listen native None xs =
    (1 + length (filter (demands_rescan native) (takeWhile (\<lambda>x. \<not> fatal x) xs)),
     case dropWhile (\<lambda>x. \<not> fatal x) xs of [] \<Rightarrow> Waiting | x # _ \<Rightarrow> exit_of x)"
  by (simp add: listen_def listen_loop_spec)

text \<open>
  The events and the inventory agree on which disks count: an add or remove event of a whole
  block device is a disk change exactly when the inventory would not ignore that device, given
  that the event carries the properties of its udev record.
\<close>

theorem isDiskChange_agrees:
  assumes "get_prop env ''SUBSYSTEM'' = ''block''" and "get_prop env ''DEVTYPE'' = ''disk''"
    and "get_prop env ''ACTION'' \<in> {''add'', ''remove''}"
    and "path_base (get_prop env ''DEVPATH'') = name"
    and "\<And>k. k \<in> {''ID_BUS'', ''ID_PATH'', ''ID_VENDOR'', ''ID_MODEL''} \<Longrightarrow>
      get_prop env k = get_prop props k"
  shows "isDiskChange env \<longleftrightarrow> \<not> ShouldIgnore name props"
  using assms(1-4) ShouldIgnore_cong [of env props, OF assms(5)]
  by (auto simp: isDiskChange_def)

theorem isDiskChange_agrees_witness:
  "isDiskChange (map_of sample_properties) \<longleftrightarrow>
    \<not> ShouldIgnore ''sda'' [''ID_MODEL'' \<mapsto> ''A=B'', ''ID_TYPE'' \<mapsto> ''disk'']"
proof (rule isDiskChange_agrees)
  show "path_base (get_prop (map_of sample_properties) ''DEVPATH'') = ''sda''" by code_simp
qed (auto simp: sample_properties_def get_prop_def)

end
