(* ===== verification/Monitor_Loop.thy ===== *)
theory Monitor_Loop
  imports Api_Server Uevent
begin

text \<open>
  The daemon's main loop, \<^verbatim>\<open>Start\<close> in \<^verbatim>\<open>pkg/controller/physicaldisk_controller.go\<close>, as a step
  relation.  Concurrent activities are steps that may happen at any time: \<open>Trigger\<close> is a call of
  \<^verbatim>\<open>trigger\<close> by the udev monitor, \<open>Request\<close> a reconcile request that controller-runtime hands to
  \<open>Reconcile\<close>, \<open>Cancel\<close> the end of the context.  The steps of the loop itself follow its program
  counter; a \<^verbatim>\<open>select\<close> with several ready cases may take any of them.  A scan and a request are
  one step each: their API calls are not interleaved with each other.  Every one of them meets a
  machine of its own, because disks come, go and change while the daemon runs.
\<close>

subsection \<open>The code\<close>

text \<open>
  The places where the loop waits or acts: the outer \<^verbatim>\<open>select\<close>, the debounce delay, the \<^verbatim>\<open>select\<close>
  that drains the channel, the call of \<open>ReconcileAll\<close>, the time until it returns, and the return
  from \<^verbatim>\<open>Start\<close>.
\<close>

datatype pc = Selecting | Debouncing | Draining | Scanning | Finishing | Returned

text \<open>What the node answers during one scan or request: sysfs and udev, smartctl, and the clock.\<close>

record Machine =
  mc_Fs :: FileSystem
  mc_Collect :: "string \<Rightarrow> string \<Rightarrow> collect_error + SmartctlOutput"
  mc_Now :: int

definition on_machine :: "Machine \<Rightarrow> 's DiskMonitor \<Rightarrow> 's DiskMonitor" where
  "on_machine mc m = m\<lparr>dm_Fs := mc_Fs mc, dm_Collect := mc_Collect mc, dm_Now := mc_Now mc\<rparr>"

definition machine_of :: "'s DiskMonitor \<Rightarrow> Machine" where
  "machine_of m = \<lparr>mc_Fs = dm_Fs m, mc_Collect = dm_Collect m, mc_Now = dm_Now m\<rparr>"

record 's Loop =
  lp_Pc :: pc
  lp_Dirty :: bool
  lp_Ready :: bool
  lp_Done :: bool
  lp_World :: "'s World"

text \<open>The channel \<^verbatim>\<open>dirty\<close> has room for one element; sending to a full channel is skipped.\<close>

definition trigger :: "'s Loop \<Rightarrow> 's Loop" where
  "trigger l = l\<lparr>lp_Dirty := True\<rparr>"

definition drain :: "'s Loop \<Rightarrow> 's Loop" where
  "drain l = l\<lparr>lp_Dirty := False\<rparr>"

text \<open>\<^verbatim>\<open>Start\<close> up to the loop: the node is looked up and cached, and the first scan is triggered.\<close>

datatype start_error = NodeLookupFailed string api_error

definition Start ::
  "'s DiskMonitor \<Rightarrow> api_error + NodeRef \<Rightarrow> 's World \<Rightarrow> start_error + 's DiskMonitor \<times> 's Loop" where
  "Start m node w =
     (case node of
        Inl e \<Rightarrow> Inl (NodeLookupFailed (node_of m) e)
      | Inr ref \<Rightarrow> Inr (m\<lparr>dm_NodeRef := Some ref\<rparr>,
          trigger \<lparr>lp_Pc = Selecting, lp_Dirty = False, lp_Ready = False, lp_Done = False,
            lp_World = w\<rparr>))"

datatype event =
    Trigger | Request string | Cancel
  | Tick | TakeDirty | Elapsed | Drain | ScanStart | ScanEnd | Return

inductive loop_step :: "'s DiskMonitor \<Rightarrow> 's Loop \<Rightarrow> event \<Rightarrow> 's Loop \<Rightarrow> bool"
  for m :: "'s DiskMonitor" where
  Trigger: "loop_step m l Trigger (trigger l)"
| Request: "loop_step m l (Request name) 
    (l\<lparr>lp_World := snd (Reconcile (on_machine mc m) name (lp_World l))\<rparr>)"
| Cancel: "loop_step m l Cancel (l\<lparr>lp_Done := True\<rparr>)"
| Tick: "lp_Pc l = Selecting \<Longrightarrow> loop_step m l Tick (l\<lparr>lp_Pc := Scanning\<rparr>)"
| TakeDirty: "lp_Pc l = Selecting \<Longrightarrow> lp_Dirty l \<Longrightarrow>
    loop_step m l TakeDirty (drain (l\<lparr>lp_Pc := Debouncing\<rparr>))"
| Elapsed: "lp_Pc l = Debouncing \<Longrightarrow> loop_step m l Elapsed (l\<lparr>lp_Pc := Draining\<rparr>)"
| Drain: "lp_Pc l = Draining \<Longrightarrow> loop_step m l Drain (drain (l\<lparr>lp_Pc := Scanning\<rparr>))"
| ScanStart: "lp_Pc l = Scanning \<Longrightarrow>
    loop_step m l ScanStart (l\<lparr>lp_Pc := Finishing,
      lp_World := snd (ReconcileAll (on_machine mc m) (lp_World l))\<rparr>)"
| ScanEnd: "lp_Pc l = Finishing \<Longrightarrow>
    loop_step m l ScanEnd (l\<lparr>lp_Pc := Selecting, lp_Ready := True\<rparr>)"
| Return: "lp_Pc l \<in> {Selecting, Debouncing} \<Longrightarrow> lp_Done l \<Longrightarrow>
    loop_step m l Return (l\<lparr>lp_Pc := Returned, lp_Ready := False\<rparr>)"

inductive_cases loop_stepE: "loop_step m l e l'"

inductive_simps loop_step_simps:
  "loop_step m l Trigger l'" "loop_step m l (Request name) l'" "loop_step m l Cancel l'"
  "loop_step m l Tick l'" "loop_step m l TakeDirty l'" "loop_step m l Elapsed l'"
  "loop_step m l Drain l'" "loop_step m l ScanStart l'" "loop_step m l ScanEnd l'"
  "loop_step m l Return l'"

inductive runs :: "'s DiskMonitor \<Rightarrow> 's Loop \<Rightarrow> event list \<Rightarrow> 's Loop \<Rightarrow> bool"
  for m :: "'s DiskMonitor" where
  runs_Nil: "runs m l [] l"
| runs_Cons: "loop_step m l e l' \<Longrightarrow> runs m l' es l'' \<Longrightarrow> runs m l (e # es) l''"

inductive_simps runs_simps: "runs m l [] l'" "runs m l (e # es) l'"

text \<open>\<^verbatim>\<open>Ready\<close>.\<close>

definition Ready :: "'s Loop \<Rightarrow> bool" where
  "Ready l = lp_Ready l"

subsection \<open>Runs\<close>

lemma runs_append:
  "runs m l (es @ fs) l'' \<longleftrightarrow> (\<exists>l'. runs m l es l' \<and> runs m l' fs l'')"
  by (induction es arbitrary: l) (auto simp: runs_simps)

lemma runs_invariant:
  assumes "runs m l es l'" and "I l" and "\<And>l e l'. loop_step m l e l' \<Longrightarrow> I l \<Longrightarrow> I l'"
  shows "I l'"
  using assms by (induction rule: runs.induct) auto

lemmas loop_updates = trigger_def drain_def

lemma on_own_machine [simp]: "on_machine (machine_of m) m = m"
  by (simp add: on_machine_def machine_of_def)

lemma machine_monitor: "disk_monitor m \<Longrightarrow> disk_monitor (on_machine mc m)"
  unfolding disk_monitor_def status_monitor_def by (simp add: on_machine_def)

lemma machine_owning: "owning_monitor m ok owner \<Longrightarrow> owning_monitor (on_machine mc m) ok owner"
  unfolding owning_monitor_def owning_monitor_axioms_def using machine_monitor [of m]
  by (simp add: on_machine_def)

lemma machine_own_act: "own_act (on_machine mc m) = own_act m"
proof
  have call: "own_call (on_machine mc m) c = own_call m c" for c
    by (cases c) (simp_all add: on_machine_def new_resource_def labelled_def ownerReferences_def node_label_def)
  have node: "node_of (on_machine mc m) = node_of m" by (simp add: on_machine_def)
  show "own_act (on_machine mc m) a = own_act m a" for a
  proof (cases a)
    case (Effect e)
    then show ?thesis by (cases e) (simp_all add: node)
  qed (simp add: call)
qed

lemma machine_node_act: "node_act (on_machine mc m) = node_act m"
proof
  have node: "node_of (on_machine mc m) = node_of m" by (simp add: on_machine_def)
  have "own_call (on_machine mc m) c = own_call m c" for c
    using fun_cong [OF machine_own_act, of mc m "Api c"] by simp
  then show "node_act (on_machine mc m) a = node_act m a" for a
    using fun_cong [OF machine_own_act, of mc m a] by (cases a) (simp_all add: node split: option.split)
qed

text \<open>The steps of a pending scan, on the machine of the monitor.\<close>

definition after_scan :: "'s DiskMonitor \<Rightarrow> 's Loop \<Rightarrow> 's Loop" where
  "after_scan m l = l\<lparr>lp_Pc := Selecting, lp_Dirty := False, lp_Ready := True,
     lp_World := snd (ReconcileAll m (lp_World l))\<rparr>"

lemma own_scan_step: "lp_Pc l = Scanning \<Longrightarrow> loop_step m l ScanStart
    (l\<lparr>lp_Pc := Finishing, lp_World := snd (ReconcileAll m (lp_World l))\<rparr>)"
  using ScanStart [of l m "machine_of m"] by simp

lemma scan_run:
  assumes "lp_Pc l = Selecting" and "lp_Dirty l"
  shows "runs m l [TakeDirty, Elapsed, Drain, ScanStart, ScanEnd] (after_scan m l)"
proof -
  let ?l = "l\<lparr>lp_Pc := Scanning, lp_Dirty := False\<rparr>"
  have "runs m l [TakeDirty, Elapsed, Drain] ?l"
    using assms by (simp add: runs_simps loop_step_simps loop_updates)
  moreover have "runs m ?l [ScanStart, ScanEnd] (after_scan m l)"
    using own_scan_step [of ?l m] by (auto simp: runs_simps loop_step_simps(9) after_scan_def)
  ultimately have "runs m l ([TakeDirty, Elapsed, Drain] @ [ScanStart, ScanEnd]) (after_scan m l)"
    unfolding runs_append by blast
  then show ?thesis by simp
qed

text \<open>The worlds of a run are those of handlers, applied to the initial one.\<close>

lemma world_invariant_runs:
  assumes "runs m l es l'" and "J (lp_World l)"
    and "\<And>mc w. J w \<Longrightarrow> J (snd (ReconcileAll (on_machine mc m) w))"
    and "\<And>mc name w. J w \<Longrightarrow> J (snd (Reconcile (on_machine mc m) name w))"
  shows "J (lp_World l')"
  by (rule runs_invariant [where I = "\<lambda>l. J (lp_World l)", OF assms(1,2)])
    (auto elim!: loop_stepE simp: loop_updates assms(3,4))

subsection \<open>Hints\<close>

text \<open>Whether a trigger has happened since the last scan started.\<close>

fun owed :: "bool \<Rightarrow> event list \<Rightarrow> bool" where
  "owed b [] = b"
| "owed b (Trigger # es) = owed True es"
| "owed b (ScanStart # es) = owed False es"
| "owed b (e # es) = owed b es"

definition on_the_way :: "'s Loop \<Rightarrow> bool" where
  "on_the_way l \<longleftrightarrow> lp_Dirty l \<or> lp_Pc l \<in> {Debouncing, Draining, Scanning, Returned}"

lemma owed_on_the_way:
  "runs m l es l' \<Longrightarrow> (b \<longrightarrow> on_the_way l) \<Longrightarrow> owed b es \<longrightarrow> on_the_way l'"
proof (induction arbitrary: b rule: runs.induct)
  case (runs_Cons l e l' es l'')
  have "(case e of Trigger \<Rightarrow> True | ScanStart \<Rightarrow> False | _ \<Rightarrow> b) \<longrightarrow> on_the_way l'"
    using runs_Cons.hyps(1) runs_Cons.prems
    by (cases rule: loop_step.cases) (auto simp: on_the_way_def loop_updates)
  from runs_Cons.IH [OF this] show ?case
    by (cases e) simp_all
qed simp

text \<open>The number of steps of the loop until the next scan starts.\<close>

fun distance :: "pc \<Rightarrow> nat" where
  "distance Finishing = 4"
| "distance Selecting = 3"
| "distance Debouncing = 2"
| "distance Draining = 1"
| "distance Scanning = 0"
| "distance Returned = 0"

definition loop_event :: "event \<Rightarrow> bool" where
  "loop_event e \<longleftrightarrow> e \<in> {Tick, TakeDirty, Elapsed, Drain, ScanStart, ScanEnd, Return}"

lemma scan_within:
  "runs m l es l' \<Longrightarrow> lp_Pc l' \<noteq> Returned \<Longrightarrow> ScanStart \<notin> set es \<Longrightarrow>
   distance (lp_Pc l') + length (filter loop_event es) \<le> distance (lp_Pc l) \<and> lp_Pc l \<noteq> Returned"
proof (induction rule: runs.induct)
  case (runs_Cons l e l' es l'')
  have IH: "distance (lp_Pc l'') + length (filter loop_event es) \<le> distance (lp_Pc l')"
    "lp_Pc l' \<noteq> Returned"
    using runs_Cons by auto
  have "distance (lp_Pc l') + (if loop_event e then 1 else 0) \<le> distance (lp_Pc l) \<and> lp_Pc l \<noteq> Returned"
    using runs_Cons.hyps(1) runs_Cons.prems(2) IH(2)
    by (cases rule: loop_step.cases) (auto simp: loop_updates loop_event_def)
  with IH show ?case by auto
qed simp

text \<open>
  The scans that are due without further hints and ticks: hints that come before the channel is
  drained belong to the scan on the way, those after it to one more.
\<close>

definition owed_scans :: "'s Loop \<Rightarrow> nat" where
  "owed_scans l = (case lp_Pc l of
       Debouncing \<Rightarrow> 1 | Draining \<Rightarrow> 1 | Returned \<Rightarrow> 0
     | Scanning \<Rightarrow> if lp_Dirty l then 2 else 1
     | _ \<Rightarrow> if lp_Dirty l then 1 else 0)"

lemma scans_owed:
  "runs m l es l' \<Longrightarrow> Trigger \<notin> set es \<Longrightarrow>
   count_list es ScanStart + owed_scans l' \<le> count_list es Tick + owed_scans l"
proof (induction rule: runs.induct)
  case (runs_Cons l e l' es l'')
  have "(if e = ScanStart then 1 else 0) + owed_scans l' \<le> (if e = Tick then 1 else 0) + owed_scans l"
    using runs_Cons.hyps(1) runs_Cons.prems
    by (cases rule: loop_step.cases) (auto simp: owed_scans_def loop_updates split: pc.splits)
  with runs_Cons show ?case by auto
qed simp

lemma ready_scanned:
  "runs m l es l' \<Longrightarrow> (lp_Ready l \<longrightarrow> P) \<Longrightarrow> (lp_Pc l = Finishing \<longrightarrow> P) \<Longrightarrow>
   (ScanStart \<in> set es \<longrightarrow> P) \<Longrightarrow> (lp_Ready l' \<or> lp_Pc l' = Finishing) \<longrightarrow> P"
proof (induction rule: runs.induct)
  case (runs_Cons l e l' es l'')
  have "(lp_Ready l' \<longrightarrow> P) \<and> (lp_Pc l' = Finishing \<longrightarrow> P)"
    using runs_Cons.hyps(1) runs_Cons.prems
    by (cases rule: loop_step.cases) (auto simp: loop_updates)
  then show ?case using runs_Cons by simp
qed auto

lemma returned_not_ready:
  "runs m l es l' \<Longrightarrow> (lp_Pc l = Returned \<longrightarrow> \<not> lp_Ready l) \<Longrightarrow> lp_Pc l' = Returned \<longrightarrow> \<not> lp_Ready l'"
  by (erule runs_invariant) (auto elim!: loop_stepE simp: loop_updates)

text \<open>The number of steps that the loop can make without the ticker and without further hints.\<close>

definition remaining :: "'s Loop \<Rightarrow> nat" where
  "remaining l = (case lp_Pc l of
       Returned \<Rightarrow> 0 | Draining \<Rightarrow> 4 | Debouncing \<Rightarrow> 5
     | Selecting \<Rightarrow> if lp_Dirty l then 6 else 1
     | Finishing \<Rightarrow> if lp_Dirty l then 7 else 2
     | Scanning \<Rightarrow> if lp_Dirty l then 8 else 3)"

lemma remaining_steps:
  "runs m l es l' \<Longrightarrow> Tick \<notin> set es \<Longrightarrow> Trigger \<notin> set es \<Longrightarrow>
   length (filter loop_event es) + remaining l' \<le> remaining l"
proof (induction rule: runs.induct)
  case (runs_Cons l e l' es l'')
  have "(if loop_event e then 1 else 0) + remaining l' \<le> remaining l"
    using runs_Cons.hyps(1) runs_Cons.prems
    by (cases rule: loop_step.cases) (auto simp: remaining_def loop_event_def loop_updates split: pc.split)
  with runs_Cons show ?case by auto
qed simp

lemma done_progress:
  assumes "lp_Done l" and "lp_Pc l \<noteq> Returned"
  shows "\<exists>e l'. loop_event e \<and> e \<noteq> Tick \<and> loop_step m l e l'"
  using assms loop_step.intros(6-10)
  by (cases "lp_Pc l") (fastforce simp: loop_event_def)+

subsection \<open>The started daemon\<close>

lemma StartE:
  assumes "Start m node w = Inr (m', l)"
  obtains ref where "node = Inr ref" and "m' = m\<lparr>dm_NodeRef := Some ref\<rparr>"
    and "lp_Pc l = Selecting" "lp_Dirty l" "\<not> lp_Ready l" "lp_World l = w"
  using assms by (auto simp: Start_def trigger_def split: sum.splits)

lemma node_ref_monitor: "disk_monitor m \<Longrightarrow> disk_monitor (m\<lparr>dm_NodeRef := r\<rparr>)"
  unfolding disk_monitor_def status_monitor_def by simp

lemma node_ref_owning:
  "owning_monitor m ok owner \<Longrightarrow> owning_monitor (m\<lparr>dm_NodeRef := r\<rparr>) ok owner"
  unfolding owning_monitor_def owning_monitor_axioms_def using node_ref_monitor [of m r] by simp

lemma daemon_acts:
  assumes "disk_monitor m" and "Start m node w = Inr (m', l0)" and "runs m' l0 es l"
  shows "traced (own_act m') w (lp_World l)"
proof -
  have "disk_monitor m'" using assms(1,2) by (auto elim!: StartE intro: node_ref_monitor)
  note keeps = disk_monitor.own_handlers [OF machine_monitor [OF this], unfolded machine_own_act]
  have "traced (own_act m') w (lp_World l0)" using assms(2) by (auto elim!: StartE)
  then show ?thesis by (rule world_invariant_runs [OF assms(3)]) (rule keeps, assumption)+
qed

lemma daemon_node_acts:
  assumes "owning_monitor m ok owner" and "ok (w_api w)"
    and "Start m node w = Inr (m', l0)" and "runs m' l0 es l"
  shows "traced (node_act m') w (lp_World l) \<and> ok (w_api (lp_World l))"
proof -
  have "owning_monitor m' ok owner" using assms(1,3) by (auto elim!: StartE intro: node_ref_owning)
  note keeps = owning_monitor.node_handlers [OF machine_owning [OF this], unfolded machine_node_act]
  have "traced (node_act m') w (lp_World l0) \<and> ok (w_api (lp_World l0))"
    using assms(2,3) by (auto elim!: StartE)
  then show ?thesis
    by (rule world_invariant_runs
        [OF assms(4), where J = "\<lambda>u. traced (node_act m') w u \<and> ok (w_api u)"]) (rule keeps, assumption)+
qed

lemma start_on_the_way: "Start m node w = Inr (m', l) \<Longrightarrow> on_the_way l"
  by (erule StartE) (simp add: on_the_way_def)

text \<open>The steps that need neither the ticker nor the end of the context.\<close>

definition own_step :: "event \<Rightarrow> bool" where
  "own_step e \<longleftrightarrow> e \<in> {TakeDirty, Elapsed, Drain, ScanStart, ScanEnd}"

lemma progress:
  assumes "on_the_way l" and "lp_Pc l \<noteq> Returned"
  shows "\<exists>e l'. own_step e \<and> loop_step m l e l'"
proof (cases "lp_Pc l")
  case Selecting
  with assms have "loop_step m l TakeDirty (drain (l\<lparr>lp_Pc := Debouncing\<rparr>))"
    by (intro TakeDirty) (auto simp: on_the_way_def)
  then show ?thesis by (auto simp: own_step_def)
qed (use assms loop_step.intros(5-9) in \<open>fastforce simp: own_step_def\<close>)+

subsection \<open>Properties\<close>

text \<open>
  No hint is lost: after a hint that no scan has answered yet, the loop can always take a step
  towards a scan without waiting for the ticker, and a scan starts before the fifth step of the
  loop, however many further hints arrive.
\<close>

theorem every_hint_is_scanned:
  assumes "Start m node w = Inr (m', l0)" and "runs m' l0 es l" and "owed True es"
    and "lp_Pc l \<noteq> Returned"
  shows "(\<exists>e l'. own_step e \<and> loop_step m' l e l') \<and>
    (runs m' l fs l' \<longrightarrow> lp_Pc l' \<noteq> Returned \<longrightarrow> 5 \<le> length (filter loop_event fs) \<longrightarrow>
      ScanStart \<in> set fs)"
proof -
  have "on_the_way l"
    using owed_on_the_way [OF assms(2), of True] start_on_the_way [OF assms(1)] assms(3) by simp
  moreover have "distance (lp_Pc l) \<le> 4" by (cases "lp_Pc l") simp_all
  ultimately show ?thesis
    using progress [OF _ assms(4)] scan_within [of m' l fs l'] by fastforce
qed

definition sample_daemon :: "PhysicalDisk list DiskMonitor" where
  "sample_daemon = list_monitor sample_options no_udev_fs (\<lambda>_ _. Inr healthy_output)"

definition sample_node :: NodeRef where
  "sample_node = \<lparr>nr_Name = ''node1'', nr_UID = ''uid1''\<rparr>"

definition started :: "PhysicalDisk list DiskMonitor" where
  "started = sample_daemon\<lparr>dm_NodeRef := Some sample_node\<rparr>"

definition first_loop :: "PhysicalDisk list Loop" where
  "first_loop = \<lparr>lp_Pc = Selecting, lp_Dirty = True, lp_Ready = False, lp_Done = False,
     lp_World = \<lparr>w_api = [], w_trace = []\<rparr>\<rparr>"

lemma sample_start:
  "Start sample_daemon (Inr sample_node) \<lparr>w_api = [], w_trace = []\<rparr> = Inr (started, first_loop)"
  by (simp add: Start_def trigger_def started_def first_loop_def)

theorem every_hint_is_scanned_witness:
  "\<exists>e l'. own_step e \<and> loop_step started first_loop e l'"
  using every_hint_is_scanned [OF sample_start runs_Nil] by (simp add: first_loop_def)

text \<open>
  C32: hints are coalesced: in every state of the loop, however many hints have come before, the number
  of scans that start until the next hint is at most the number of ticks plus one, or plus two when
  the loop is just about to start a scan.  In particular all hints that come before the channel is
  drained are answered by one scan.
\<close>

theorem scans_are_bounded:
  assumes "runs m l es l'" and "Trigger \<notin> set es"
  shows "count_list es ScanStart \<le>
    count_list es Tick + (if lp_Pc l = Scanning \<and> lp_Dirty l then 2 else 1)"
  using scans_owed [OF assms] by (simp add: owed_scans_def split: if_splits pc.splits)

theorem scans_are_bounded_witness:
  "\<exists>l l'. runs started first_loop [TakeDirty, Trigger, Trigger, Elapsed, Trigger] l \<and>
     runs started l [Drain, ScanStart, ScanEnd, Tick, ScanStart] l' \<and>
     count_list [Drain, ScanStart, ScanEnd, Tick, ScanStart] ScanStart \<le>
       count_list [Drain, ScanStart, ScanEnd, Tick, ScanStart] Tick +
       (if lp_Pc l = Scanning \<and> lp_Dirty l then 2 else 1)"
proof -
  have "\<exists>l'. runs started (first_loop\<lparr>lp_Pc := Draining\<rparr>) [Drain, ScanStart, ScanEnd, Tick, ScanStart] l'"
    by (simp add: runs_simps loop_step_simps first_loop_def trigger_def drain_def) (metis Loop.select_convs(1))
  moreover have "runs started first_loop [TakeDirty, Trigger, Trigger, Elapsed, Trigger]
      (first_loop\<lparr>lp_Pc := Draining\<rparr>)"
    by (simp add: runs_simps loop_step_simps first_loop_def trigger_def drain_def)
  ultimately show ?thesis using scans_are_bounded by fastforce
qed

text \<open>
  The daemon is ready only after a scan has started, and no longer after it has returned.
\<close>

theorem ready_after_scan:
  assumes "Start m node w = Inr (m', l0)" and "runs m' l0 es l" and "Ready l"
  shows "ScanStart \<in> set es \<and> lp_Pc l \<noteq> Returned"
  using assms ready_scanned [OF assms(2), of "ScanStart \<in> set es"] returned_not_ready [OF assms(2)]
  by (auto simp: Ready_def elim!: StartE)

text \<open>The state after a first scan.\<close>

definition scanned_loop :: "PhysicalDisk list Loop" where
  "scanned_loop = \<lparr>lp_Pc = Selecting, lp_Dirty = False, lp_Ready = True, lp_Done = False,
     lp_World = snd (ReconcileAll started \<lparr>w_api = [], w_trace = []\<rparr>)\<rparr>"

lemma sample_run: "runs started first_loop [TakeDirty, Elapsed, Drain, ScanStart, ScanEnd] scanned_loop"
  using scan_run [of first_loop started] by (simp add: after_scan_def first_loop_def scanned_loop_def)

theorem ready_after_scan_witness:
  "ScanStart \<in> set [TakeDirty, Elapsed, Drain, ScanStart, ScanEnd] \<and> lp_Pc scanned_loop \<noteq> Returned"
  by (rule ready_after_scan [OF sample_start sample_run]) (simp add: Ready_def scanned_loop_def)

text \<open>
  C1: everything the running daemon writes to the API server, and every metric it touches, concerns its
  own node, in whatever order hints, ticks and requests arrive, whatever each scan finds on the
  machine, whichever calls fail and whatever other writers do: the resource of every create, delete,
  patch and status update has the node of the daemon in its spec; only excluded resources are
  deleted; created ones have the node, its label and its owner; nothing but the node label and the
  status is patched.  The hypotheses are that the server keeps \<open>nodeName\<close> immutable, so that the node
  is a function of the resource's name, and that no name that the daemon generates for its disks
  belongs to another node.
\<close>

theorem daemon_own_node:
  assumes "owning_monitor m ok owner" and "ok (w_api w)"
    and "Start m node w = Inr (m', l0)" and "runs m' l0 es l"
  shows "traced (node_act m') w (lp_World l)"
  using daemon_node_acts [OF assms] by blast

theorem daemon_own_node_witness:
  "traced (node_act started) \<lparr>w_api = [], w_trace = []\<rparr> (lp_World scanned_loop)"
  using daemon_own_node [OF _ _ sample_start sample_run] list_owner.owning_monitor_axioms
  unfolding sample_daemon_def by (fastforce simp: owned_by_def)

text \<open>
  C6: a cancelled loop terminates: when the ticker and the udev monitor are silent, it makes at most
  eight further steps, and as long as it has not returned it can make one.
\<close>

theorem cancelled_loop_terminates:
  assumes "runs m l es l'" and "lp_Done l" and "Tick \<notin> set es" and "Trigger \<notin> set es"
  shows "length (filter loop_event es) \<le> 8 \<and>
    (lp_Pc l' \<noteq> Returned \<longrightarrow> (\<exists>e l''. loop_event e \<and> e \<noteq> Tick \<and> loop_step m l' e l''))"
proof
  have "remaining l \<le> 8" by (cases "lp_Pc l") (simp_all add: remaining_def)
  then show "length (filter loop_event es) \<le> 8"
    using remaining_steps [OF assms(1,3,4)] by linarith
  have "lp_Done l'"
    by (rule runs_invariant [OF assms(1), where I = lp_Done, OF assms(2)])
      (auto elim!: loop_stepE simp: loop_updates)
  then show "lp_Pc l' \<noteq> Returned \<longrightarrow> (\<exists>e l''. loop_event e \<and> e \<noteq> Tick \<and> loop_step m l' e l'')"
    using done_progress by blast
qed

theorem cancelled_loop_terminates_witness:
  "length (filter loop_event [TakeDirty, Elapsed, Drain, ScanStart, ScanEnd, Return]) \<le> 8"
proof -
  have "\<exists>l. runs started (first_loop\<lparr>lp_Done := True\<rparr>)
      [TakeDirty, Elapsed, Drain, ScanStart, ScanEnd, Return] l"
    by (auto simp: runs_simps loop_step_simps first_loop_def trigger_def drain_def)
  then obtain l where "runs started (first_loop\<lparr>lp_Done := True\<rparr>)
      [TakeDirty, Elapsed, Drain, ScanStart, ScanEnd, Return] l" ..
  then show ?thesis by (rule conjunct1 [OF cancelled_loop_terminates]) simp_all
qed

text \<open>
  The daemon reports ready after its first scan even if that scan failed: with an unavailable
  udev database it becomes ready without having looked at a single disk.
\<close>

theorem ready_after_failed_scan:
  assumes "Start m node w = Inr (m', l0)"
    and "database_unavailable (dm_Fs m) (mo_SysDir (dm_Options m)) (mo_UdevDataDir (dm_Options m))"
  shows "\<exists>l. runs m' l0 [TakeDirty, Elapsed, Drain, ScanStart, ScanEnd] l \<and> Ready l \<and> lp_World l = w"
proof -
  obtain ref where m': "m' = m\<lparr>dm_NodeRef := Some ref\<rparr>" and l0: "lp_Pc l0 = Selecting" "lp_Dirty l0"
    "lp_World l0 = w" using assms(1) by (auto elim: StartE)
  have "snd (ReconcileAll m' w) = w"
    using unavailable_ReconcileAll [of m'] assms(2) m' by simp
  then show ?thesis
    using l0 scan_run [of l0 m'] by (intro exI [of _ "after_scan m' l0"]) (simp add: after_scan_def Ready_def)
qed

theorem ready_after_failed_scan_witness:
  "\<exists>l. runs started first_loop [TakeDirty, Elapsed, Drain, ScanStart, ScanEnd] l \<and> Ready l \<and>
     lp_World l = \<lparr>w_api = [], w_trace = []\<rparr>"
  by (rule ready_after_failed_scan [OF sample_start])
    (simp add: sample_daemon_def list_monitor_def sample_options_def no_udev_unavailable)

end
