(* ===== verification/Daemon.thy ===== *)
theory Daemon
  imports Monitor_Loop
begin

text \<open>
  The command (\<^verbatim>\<open>cmd/node-disk-sentinel/main.go\<close>): the options with their defaults and checks, the
  configuration that \<^verbatim>\<open>run\<close> builds from them, the HTTP endpoints, and from the controller
  \<open>NewDiskMonitor\<close> and the filter of watch events.  How the parts are started is the subject of
  \<open>Wiring\<close>; the Prometheus handler and the library's \<^verbatim>\<open>GenerationChangedPredicate\<close> are parameters.
\<close>

subsection \<open>Options\<close>

record options =
  printVersion :: bool
  nodeName :: string
  metricsAddr :: string
  metricsEnabled :: bool
  udevDataDir :: string
  pollInterval :: int
  eventDebounce :: int
  smartctlTimeout :: int
  excludeDisks :: "string list"

text \<open>The flags of \<open>bindFlags\<close> with the values that the flag library hands over.\<close>

datatype flag =
    VersionFlag bool | NodeNameFlag string | MetricsAddrFlag string | MetricsEnabledFlag bool
  | UdevDataDirFlag string | PollIntervalFlag int | EventDebounceFlag int | SmartctlTimeoutFlag int
  | ExcludeDiskFlag string

definition default_options :: "string \<Rightarrow> options" where
  "default_options env_NODE_NAME =
     \<lparr>printVersion = False, nodeName = env_NODE_NAME, metricsAddr = '':8080'', metricsEnabled = True,
      udevDataDir = ''/run/udev/data'', pollInterval = 10 * Minute, eventDebounce = Second,
      smartctlTimeout = 30 * Second, excludeDisks = []\<rparr>"

fun set_flag :: "options \<Rightarrow> flag \<Rightarrow> options" where
  "set_flag o' (VersionFlag b) = o'\<lparr>printVersion := b\<rparr>"
| "set_flag o' (NodeNameFlag s) = o'\<lparr>nodeName := s\<rparr>"
| "set_flag o' (MetricsAddrFlag s) = o'\<lparr>metricsAddr := s\<rparr>"
| "set_flag o' (MetricsEnabledFlag b) = o'\<lparr>metricsEnabled := b\<rparr>"
| "set_flag o' (UdevDataDirFlag s) = o'\<lparr>udevDataDir := s\<rparr>"
| "set_flag o' (PollIntervalFlag d) = o'\<lparr>pollInterval := d\<rparr>"
| "set_flag o' (EventDebounceFlag d) = o'\<lparr>eventDebounce := d\<rparr>"
| "set_flag o' (SmartctlTimeoutFlag d) = o'\<lparr>smartctlTimeout := d\<rparr>"
| "set_flag o' (ExcludeDiskFlag s) = o'\<lparr>excludeDisks := excludeDisks o' @ [s]\<rparr>"

definition bindFlags :: "string \<Rightarrow> flag list \<Rightarrow> options" where
  "bindFlags env_NODE_NAME flags = foldl set_flag (default_options env_NODE_NAME) flags"

datatype option_error =
    NodeNameUnset
  | PollIntervalInvalid int
  | EventDebounceInvalid int
  | SmartctlTimeoutInvalid int
  | ExcludeDiskInvalid rule_error

fun option_error_text :: "option_error \<Rightarrow> string option" where
  "option_error_text NodeNameUnset =
     Some ''--node-name or the NODE_NAME environment variable must be set''"
| "option_error_text (PollIntervalInvalid d) =
     Some (''--poll-interval must be greater than zero, got '' @ duration_string d)"
| "option_error_text (EventDebounceInvalid d) =
     Some (''--event-debounce must not be negative, got '' @ duration_string d)"
| "option_error_text (SmartctlTimeoutInvalid d) =
     Some (''--smartctl-timeout must be greater than zero, got '' @ duration_string d)"
| "option_error_text (ExcludeDiskInvalid e) = None"

definition validate :: "options \<Rightarrow> option_error option" where
  "validate o' =
     (if nodeName o' = [] then Some NodeNameUnset
      else if pollInterval o' \<le> 0 then Some (PollIntervalInvalid (pollInterval o'))
      else if eventDebounce o' < 0 then Some (EventDebounceInvalid (eventDebounce o'))
      else if smartctlTimeout o' \<le> 0 then Some (SmartctlTimeoutInvalid (smartctlTimeout o'))
      else None)"

fun parse_rules :: "string list \<Rightarrow> ExcludeRule list \<Rightarrow> option_error + ExcludeRule list" where
  "parse_rules [] rules = Inr rules"
| "parse_rules (v # vs) rules =
     (case ParseExcludeRule v of
        Inl e \<Rightarrow> Inl (ExcludeDiskInvalid e)
      | Inr rule \<Rightarrow> parse_rules vs (rules @ [rule]))"

definition excludeRules :: "options \<Rightarrow> option_error + ExcludeRule list" where
  "excludeRules o' = parse_rules (excludeDisks o') []"

subsection \<open>Configuration\<close>

definition defaultPollInterval :: int where
  "defaultPollInterval = 10 * Minute"

definition defaultEventDebounce :: int where
  "defaultEventDebounce = Second"

text \<open>What \<^verbatim>\<open>NewDiskMonitor\<close> does to the options it gets.\<close>

definition NewDiskMonitor :: "MonitorOptions \<Rightarrow> MonitorOptions" where
  "NewDiskMonitor opts =
     (let opts = (if mo_PollInterval opts \<le> 0 then opts\<lparr>mo_PollInterval := defaultPollInterval\<rparr> else opts);
          opts = (if mo_EventDebounce opts \<le> 0 then opts\<lparr>mo_EventDebounce := defaultEventDebounce\<rparr>
                  else opts)
      in opts)"

text \<open>The part of \<^verbatim>\<open>run\<close> that decides how the monitor and the runner are configured.\<close>

definition run_config :: "options \<Rightarrow> option_error + MonitorOptions \<times> ExecRunner" where
  "run_config opts =
     (case validate opts of
        Some e \<Rightarrow> Inl e
      | None \<Rightarrow>
          (case excludeRules opts of
             Inl e \<Rightarrow> Inl e
           | Inr rules \<Rightarrow>
               Inr (NewDiskMonitor \<lparr>mo_NodeName = nodeName opts, mo_SysDir = [],
                   mo_UdevDataDir = udevDataDir opts, mo_PollInterval = pollInterval opts,
                   mo_EventDebounce = eventDebounce opts, mo_ExcludeRules = rules\<rparr>,
                 \<lparr>BinaryPath = ''smartctl'', Timeout = smartctlTimeout opts\<rparr>)))"

subsection \<open>Watch events\<close>

datatype watch_event =
    CreateEvent PhysicalDisk | DeleteEvent PhysicalDisk | GenericEvent PhysicalDisk
  | UpdateEvent PhysicalDisk PhysicalDisk

fun ignoreNonUpdateEvents :: "watch_event \<Rightarrow> bool" where
  "ignoreNonUpdateEvents (CreateEvent d) = False"
| "ignoreNonUpdateEvents (DeleteEvent d) = False"
| "ignoreNonUpdateEvents (GenericEvent d) = False"
| "ignoreNonUpdateEvents (UpdateEvent old new) = True"

definition physicalDiskSpecUpdatePredicate :: "(watch_event \<Rightarrow> bool) \<Rightarrow> watch_event \<Rightarrow> bool" where
  "physicalDiskSpecUpdatePredicate generationChanged ev \<longleftrightarrow>
     generationChanged ev \<and> ignoreNonUpdateEvents ev"

subsection \<open>HTTP endpoints\<close>

record response =
  rs_Status :: nat
  rs_Body :: string

text \<open>
  The answer of the multiplexer to a request for a path.  \<^verbatim>\<open>http.Error\<close> ends the text with a
  newline; a path without a handler is not found.
\<close>

definition newServerMux :: "response \<Rightarrow> bool \<Rightarrow> bool option \<Rightarrow> string \<Rightarrow> response" where
  "newServerMux promhttp enabled readyFunc path =
     (if path = ''/metrics'' \<and> enabled then promhttp
      else if path = ''/healthz'' then \<lparr>rs_Status = 200, rs_Body = ''ok''\<rparr>
      else if path = ''/readyz'' then
        (if readyFunc \<noteq> None \<and> \<not> the readyFunc
         then \<lparr>rs_Status = 503, rs_Body = ''not ready'' @ [CHR 0x0A]\<rparr>
         else \<lparr>rs_Status = 200, rs_Body = ''ok''\<rparr>)
      else \<lparr>rs_Status = 404, rs_Body = ''404 page not found'' @ [CHR 0x0A]\<rparr>)"

subsection \<open>Properties\<close>

lemma parse_rules_spec:
  "parse_rules vs rules = Inr rs \<Longrightarrow>
   \<exists>new. rs = rules @ new \<and> list_all2 (\<lambda>v r. ParseExcludeRule v = Inr r) vs new"
proof (induction vs arbitrary: rules)
  case (Cons v vs)
  then obtain r where r: "ParseExcludeRule v = Inr r" and "parse_rules vs (rules @ [r]) = Inr rs"
    by (auto split: sum.splits)
  from Cons.IH [OF this(2)] r show ?case by auto
qed simp

text \<open>
  C33: a configuration that is accepted is usable: the node is named, the intervals and the smartctl
  timeout are positive, every rule is the parsed form of its flag, in order, and smartctl runs with
  exactly the given timeout.
\<close>

theorem run_config_usable:
  assumes "run_config opts = Inr (mo, r)"
  shows "mo_NodeName mo = nodeName opts \<and> mo_NodeName mo \<noteq> [] \<and>
    0 < mo_PollInterval mo \<and> mo_PollInterval mo = pollInterval opts \<and> 0 < mo_EventDebounce mo \<and>
    effective_timeout r = smartctlTimeout opts \<and>
    list_all2 (\<lambda>v rule. ParseExcludeRule v = Inr rule) (excludeDisks opts) (mo_ExcludeRules mo)"
proof -
  have v: "validate opts = None" using assms by (auto simp: run_config_def split: option.splits)
  obtain rules where rules: "excludeRules opts = Inr rules"
    using assms v by (auto simp: run_config_def split: sum.splits)
  have "list_all2 (\<lambda>v rule. ParseExcludeRule v = Inr rule) (excludeDisks opts) rules"
    using parse_rules_spec [of "excludeDisks opts" "[]" rules] rules by (auto simp: excludeRules_def)
  moreover have "nodeName opts \<noteq> []" "0 < pollInterval opts" "0 < smartctlTimeout opts"
    using v by (auto simp: validate_def split: if_splits)
  ultimately show ?thesis
    using assms v rules
    by (auto simp: run_config_def NewDiskMonitor_def Let_def effective_timeout_def
        defaultEventDebounce_def Second_def split: if_splits)
qed

definition sample_opts :: options where
  "sample_opts = bindFlags ''node1'' [ExcludeDiskFlag ''bus=usb'', EventDebounceFlag 0]"

lemma sample_opts_accepted: "\<exists>mo r. run_config sample_opts = Inr (mo, r)"
proof -
  have "case excludeRules sample_opts of Inr _ \<Rightarrow> True | Inl _ \<Rightarrow> False" by code_simp
  moreover have "validate sample_opts = None"
    by (simp add: sample_opts_def bindFlags_def default_options_def validate_def Minute_def Second_def)
  ultimately show ?thesis by (auto simp: run_config_def split: sum.splits)
qed

theorem run_config_usable_witness:
  "\<exists>mo r. run_config sample_opts = Inr (mo, r) \<and> mo_NodeName mo \<noteq> [] \<and> 0 < mo_EventDebounce mo"
  using sample_opts_accepted run_config_usable by blast

text \<open>
  A debounce of zero passes the validation, which only refuses negative values, but does not
  switch the delay off: it is replaced by one second.
\<close>

theorem zero_debounce_is_replaced:
  assumes "run_config opts = Inr (mo, r)"
  shows "mo_EventDebounce mo = (if eventDebounce opts = 0 then Second else eventDebounce opts)"
proof -
  have "0 \<le> eventDebounce opts"
    using assms by (auto simp: run_config_def validate_def split: option.splits if_splits)
  then show ?thesis
    using assms by (auto simp: run_config_def NewDiskMonitor_def Let_def defaultEventDebounce_def
        split: option.splits sum.splits if_splits)
qed

theorem zero_debounce_is_replaced_witness:
  "\<exists>mo r. run_config sample_opts = Inr (mo, r) \<and> mo_EventDebounce mo = Second"
proof -
  obtain mo r where c: "run_config sample_opts = Inr (mo, r)" using sample_opts_accepted by blast
  have "eventDebounce sample_opts = 0"
    by (simp add: sample_opts_def bindFlags_def default_options_def)
  then show ?thesis using zero_debounce_is_replaced [OF c] c by simp
qed

text \<open>
  When the readiness endpoint answers 200, the monitor is ready and a scan of the running daemon
  has started.
\<close>

theorem readyz_after_scan:
  assumes "Start m node w = Inr (m', l0)" and "runs m' l0 es l"
    and "rs_Status (newServerMux prom enabled (Some (Ready l)) ''/readyz'') = 200"
  shows "Ready l \<and> ScanStart \<in> set es"
proof -
  have "Ready l" using assms(3) by (simp add: newServerMux_def split: if_splits)
  then show ?thesis
    using assms(1) ready_scanned [OF assms(2), of "ScanStart \<in> set es"]
    by (auto simp: Ready_def elim!: StartE)
qed

theorem readyz_after_scan_witness:
  "Ready scanned_loop \<and> ScanStart \<in> set [TakeDirty, Elapsed, Drain, ScanStart, ScanEnd]"
  by (rule readyz_after_scan [OF sample_start sample_run, of undefined True])
    (simp add: newServerMux_def Ready_def scanned_loop_def)

end
