(* ===== verification/Wiring.thy ===== *)
theory Wiring
  imports Daemon
begin

text \<open>
  How the daemon is put together: \<^verbatim>\<open>main\<close> and \<^verbatim>\<open>run\<close> (\<^verbatim>\<open>cmd/node-disk-sentinel/main.go\<close>) as functions
  of what the libraries answer, with everything they start and stop in order; the API group
  (\<^verbatim>\<open>groupversion_info.go\<close>); and \<^verbatim>\<open>SetupWithManager\<close>, which decides what change of a resource leads to a
  reconcile request.  The flag library, controller-runtime and the HTTP server are parameters.
\<close>

subsection \<open>The API group\<close>

record GroupVersion =
  gv_Group :: string
  gv_Version :: string

definition api_group_version :: GroupVersion where
  "api_group_version = \<lparr>gv_Group = ''node-disk-sentinel.org'', gv_Version = ''v1alpha1''\<rparr>"

definition group_resource :: "string \<Rightarrow> string \<times> string" where
  "group_resource resource = (gv_Group api_group_version, resource)"

text \<open>The kinds that \<^verbatim>\<open>SchemeBuilder.Register\<close> and \<^verbatim>\<open>AddToScheme\<close> add to a scheme.\<close>

definition registered_kinds :: "(GroupVersion \<times> string) list" where
  "registered_kinds =
     [(api_group_version, ''PhysicalDisk''), (api_group_version, ''PhysicalDiskList'')]"

text \<open>The scheme of the program, given the kinds of client-go.\<close>

definition init_scheme :: "(GroupVersion \<times> string) list \<Rightarrow> (GroupVersion \<times> string) list" where
  "init_scheme client_go = client_go @ registered_kinds"

subsection \<open>Watched resources\<close>

text \<open>The cache of the manager: a label that disks must have, and a field that nodes must have.\<close>

record CacheScope =
  cs_DiskLabel :: "string \<times> string"
  cs_NodeField :: "string \<times> string"

definition cache_scope :: "(string \<Rightarrow> string list) \<Rightarrow> options \<Rightarrow> CacheScope" where
  "cache_scope V opts = \<lparr>cs_DiskLabel = (LabelNodeName, MustFormatValue V (nodeName opts)),
     cs_NodeField = (''metadata.name'', nodeName opts)\<rparr>"

definition selected :: "CacheScope \<Rightarrow> PhysicalDisk \<Rightarrow> bool" where
  "selected sc d \<longleftrightarrow> pd_Labels d (fst (cs_DiskLabel sc)) = Some (snd (cs_DiskLabel sc))"

fun event_disk :: "watch_event \<Rightarrow> PhysicalDisk" where
  "event_disk (CreateEvent d) = d"
| "event_disk (DeleteEvent d) = d"
| "event_disk (GenericEvent d) = d"
| "event_disk (UpdateEvent old new) = new"

text \<open>
  The reconcile request of an event: \<^verbatim>\<open>For(&v1alpha1.PhysicalDisk{}, WithPredicates(...))\<close> over the
  cache of the manager.  \<open>generationChanged\<close> is the predicate of controller-runtime.
\<close>

definition SetupWithManager ::
  "CacheScope \<Rightarrow> (watch_event \<Rightarrow> bool) \<Rightarrow> watch_event \<Rightarrow> string option" where
  "SetupWithManager sc generationChanged ev =
     (if selected sc (event_disk ev) \<and> physicalDiskSpecUpdatePredicate generationChanged ev
      then Some (pd_Name (event_disk ev)) else None)"

subsection \<open>run and main\<close>

text \<open>What the libraries answer: an error or success.\<close>

record Libraries =
  lb_ClientGoKinds :: "(GroupVersion \<times> string) list"
  lb_IsValidLabelValue :: "string \<Rightarrow> string list"
  lb_GetConfig :: "string option"
  lb_NewManager :: "string option"
  lb_NewClient :: "string option"
  lb_Complete :: "string option"
  lb_Add :: "string option"
  lb_Start :: "string option"

datatype fatal_error = BadOption option_error | Wrapped string string | ManagerError string

fun fatal_error_text :: "fatal_error \<Rightarrow> string option" where
  "fatal_error_text (BadOption e) = option_error_text e"
| "fatal_error_text (Wrapped context e) = Some (context @ '': '' @ e)"
| "fatal_error_text (ManagerError e) = Some e"

datatype run_act =
    CreateManager "(GroupVersion \<times> string) list" CacheScope
  | CreateClient "(GroupVersion \<times> string) list"
  | ServeHttp string bool
  | SetupReconciler
  | AddRunnable MonitorOptions ExecRunner
  | StartManager
  | ShutdownHttp

text \<open>The part of \<^verbatim>\<open>run\<close> during which the HTTP server runs.\<close>

definition run_served ::
  "Libraries \<Rightarrow> MonitorOptions \<Rightarrow> ExecRunner \<Rightarrow> fatal_error option \<times> run_act list" where
  "run_served lb mo runner =
     (case lb_Complete lb of
        Some e \<Rightarrow> (Some (Wrapped ''failed to setup PhysicalDisk reconciler'' e), [SetupReconciler])
      | None \<Rightarrow>
          (case lb_Add lb of
             Some e \<Rightarrow> (Some (Wrapped ''failed to add DiskMonitor runnable'' e),
               [SetupReconciler, AddRunnable mo runner])
           | None \<Rightarrow> (map_option ManagerError (lb_Start lb),
               [SetupReconciler, AddRunnable mo runner, StartManager])))"

text \<open>
  \<^verbatim>\<open>run\<close>.  The deferred shutdown of the HTTP server is the last action of every path after its start;
  its error, like that of the server, is only logged.
\<close>

definition run :: "Libraries \<Rightarrow> options \<Rightarrow> fatal_error option \<times> run_act list" where
  "run lb opts =
     (case run_config opts of
        Inl e \<Rightarrow> (Some (BadOption e), [])
      | Inr (mo, runner) \<Rightarrow>
          (case lb_GetConfig lb of
             Some e \<Rightarrow> (Some (Wrapped ''failed to load kubeconfig'' e), [])
           | None \<Rightarrow>
               (let scheme = init_scheme (lb_ClientGoKinds lb);
                    manager = CreateManager scheme (cache_scope (lb_IsValidLabelValue lb) opts)
                in case lb_NewManager lb of
                     Some e \<Rightarrow>
                       (Some (Wrapped ''failed to create controller-runtime manager'' e), [manager])
                   | None \<Rightarrow>
                       (case lb_NewClient lb of
                          Some e \<Rightarrow> (Some (Wrapped ''failed to create direct Kubernetes client'' e),
                            [manager, CreateClient scheme])
                        | None \<Rightarrow>
                            (let (err, acts) = run_served lb mo runner
                             in (err, [manager, CreateClient scheme,
                                   ServeHttp (metricsAddr opts) (metricsEnabled opts)] @
                                 acts @ [ShutdownHttp]))))))"

text \<open>The exit code, the standard output and the actions of the program, for parsed flags.\<close>

definition main :: "Libraries \<Rightarrow> string \<Rightarrow> string \<Rightarrow> flag list \<Rightarrow> int \<times> string \<times> run_act list" where
  "main lb version env_NODE_NAME flags =
     (let opts = bindFlags env_NODE_NAME flags
      in if printVersion opts
         then (0, ''node-disk-sentinel version '' @ version @ [CHR 0x0A], [])
         else (case run lb opts of
             (Some e, acts) \<Rightarrow> (1, [], acts)
           | (None, acts) \<Rightarrow> (0, [], acts)))"

subsection \<open>What the acts of the daemon do to the watch\<close>

text \<open>
  The API server decides what a write stores and which generation the result has.  \<open>stores c old new\<close>
  says that the call may replace the stored resource \<open>old\<close> by \<open>new\<close>.  A merge patch whose spec is that of
  its base leaves the stored spec alone, whatever it is by then; a write to the status subresource
  never changes the spec; and the server changes \<open>metadata.generation\<close> exactly when the spec changes.
\<close>

locale watching_server =
  fixes stores :: "api_call \<Rightarrow> PhysicalDisk \<Rightarrow> PhysicalDisk \<Rightarrow> bool"
  assumes patch_spec: "stores (PatchDisk base d) old new \<Longrightarrow> pd_Spec d = pd_Spec base \<Longrightarrow> pd_Spec new = pd_Spec old"
    and status_patch_spec: "stores (PatchDiskStatus base d) old new \<Longrightarrow> pd_Spec new = pd_Spec old"
    and status_update_spec: "stores (UpdateDiskStatus d) old new \<Longrightarrow> pd_Spec new = pd_Spec old"
    and generation: "stores c old new \<Longrightarrow> pd_Generation new = pd_Generation old \<longleftrightarrow> pd_Spec new = pd_Spec old"

text \<open>
  The events of a call on a watch that is restricted to a label: a resource that comes into the scope
  is a new one for the watch, one that leaves it is a deleted one.
\<close>

inductive causes :: "(api_call \<Rightarrow> PhysicalDisk \<Rightarrow> PhysicalDisk \<Rightarrow> bool) \<Rightarrow> CacheScope \<Rightarrow> api_call \<Rightarrow>
    watch_event \<Rightarrow> bool" for stores :: "api_call \<Rightarrow> PhysicalDisk \<Rightarrow> PhysicalDisk \<Rightarrow> bool" and sc :: CacheScope where
  Created: "causes stores sc (CreateDisk d) (CreateEvent new)"
| Deleted: "causes stores sc (DeleteDisk d) (DeleteEvent old)"
| Updated: "stores c old new \<Longrightarrow> selected sc old \<Longrightarrow> selected sc new \<Longrightarrow> causes stores sc c (UpdateEvent old new)"
| Appeared: "stores c old new \<Longrightarrow> \<not> selected sc old \<Longrightarrow> causes stores sc c (CreateEvent new)"
| Vanished: "stores c old new \<Longrightarrow> \<not> selected sc new \<Longrightarrow> causes stores sc c (DeleteEvent old)"

inductive_cases causesE: "causes stores sc c ev"

text \<open>The predicate of controller-runtime, on updates.\<close>

locale generation_filter =
  fixes generationChanged :: "watch_event \<Rightarrow> bool"
  assumes on_update: "generationChanged (UpdateEvent old new) \<longleftrightarrow> pd_Generation old \<noteq> pd_Generation new"
begin

lemma requests_iff: "SetupWithManager sc generationChanged ev \<noteq> None \<longleftrightarrow>
    (\<exists>old new. ev = UpdateEvent old new \<and> selected sc new \<and> pd_Generation old \<noteq> pd_Generation new)"
  by (cases ev) (simp_all add: SetupWithManager_def physicalDiskSpecUpdatePredicate_def on_update)

end

text \<open>The two together: a daemon that writes no spec does not ask itself for a reconcile.\<close>

locale watched_daemon = generation_filter generationChanged + watching_server stores
  for generationChanged :: "watch_event \<Rightarrow> bool" and stores :: "api_call \<Rightarrow> PhysicalDisk \<Rightarrow> PhysicalDisk \<Rightarrow> bool" +
  assumes reads: "\<not> stores (GetDisk name) old new" "\<not> stores (ListDisks sel) old new"
    and created: "\<not> stores (CreateDisk d) old new" and deleted: "\<not> stores (DeleteDisk d) old new"
begin

lemma own_call_spec:
  assumes "own_call m c" and "stores c old new"
  shows "pd_Spec new = pd_Spec old"
proof (cases c)
  case (PatchDisk base d)
  with assms have "stores (PatchDisk base d) old new" and "pd_Spec d = pd_Spec base"
    by (simp_all add: labelled_def)
  then show ?thesis by (rule patch_spec)
qed (use assms status_patch_spec status_update_spec reads created deleted in auto)

lemma own_call_ignored:
  assumes "own_call m c" and "causes stores sc c ev"
  shows "SetupWithManager sc generationChanged ev = None"
proof (rule ccontr)
  assume "SetupWithManager sc generationChanged ev \<noteq> None"
  then obtain old new where "ev = UpdateEvent old new" and "pd_Generation old \<noteq> pd_Generation new"
    unfolding requests_iff by blast
  moreover from this assms(2) have "stores c old new" by (auto elim: causesE)
  ultimately show False using own_call_spec [OF assms(1)] generation by metis
qed

end

text \<open>A server as Kubernetes runs it: merge patches, a status subresource, and generations.\<close>

definition with_generation :: "PhysicalDisk \<Rightarrow> PhysicalDisk \<Rightarrow> PhysicalDisk" where
  "with_generation old new = new\<lparr>pd_Generation :=
     (if pd_Spec new = pd_Spec old then pd_Generation old else pd_Generation old + 1)\<rparr>"

fun server_stores :: "api_call \<Rightarrow> PhysicalDisk \<Rightarrow> PhysicalDisk \<Rightarrow> bool" where
  "server_stores (PatchDisk base d) old new \<longleftrightarrow> new = with_generation old
     (old\<lparr>pd_Labels := merge_labels (pd_Labels base) (pd_Labels d) (pd_Labels old),
        pd_Spec := merge_leaf (pd_Spec base) (pd_Spec d) (pd_Spec old)\<rparr>)"
| "server_stores (PatchDiskStatus base d) old new \<longleftrightarrow> new = with_generation old
     (old\<lparr>pd_Status := merge_status (pd_Status base) (pd_Status d) (pd_Status old)\<rparr>)"
| "server_stores (UpdateDiskStatus d) old new \<longleftrightarrow>
     new = with_generation old (old\<lparr>pd_Status := pd_Status d\<rparr>)"
| "server_stores c old new \<longleftrightarrow> False"

lemma with_generation_spec [simp]: "pd_Spec (with_generation old new) = pd_Spec new"
  by (simp add: with_generation_def)

lemma with_generation_iff [simp]:
  "pd_Generation (with_generation old new) = pd_Generation old \<longleftrightarrow> pd_Spec new = pd_Spec old"
  by (simp add: with_generation_def)

definition generation_changed :: "watch_event \<Rightarrow> bool" where
  "generation_changed ev = (case ev of UpdateEvent old new \<Rightarrow> pd_Generation old \<noteq> pd_Generation new
     | _ \<Rightarrow> True)"

interpretation generation_changed: generation_filter generation_changed
  by unfold_locales (simp add: generation_changed_def)

interpretation server_stores: watched_daemon generation_changed server_stores
proof
  fix c old new
  show "server_stores c old new \<Longrightarrow> pd_Generation new = pd_Generation old \<longleftrightarrow> pd_Spec new = pd_Spec old"
    by (cases c) auto
qed (simp_all add: merge_leaf_def)

text \<open>Whether an act stays in the scope of the manager's cache.\<close>

fun in_scope :: "CacheScope \<Rightarrow> act \<Rightarrow> bool" where
  "in_scope sc (Api (CreateDisk d)) \<longleftrightarrow> selected sc d"
| "in_scope sc (Api (PatchDisk base d)) \<longleftrightarrow> selected sc d"
| "in_scope sc (Api (ListDisks sel)) \<longleftrightarrow> sel = cs_DiskLabel sc"
| "in_scope sc _ \<longleftrightarrow> True"

lemma own_act_in_scope:
  assumes "own_act m a" and "cs_DiskLabel sc = (LabelNodeName, node_label m)"
  shows "in_scope sc a"
proof (cases a)
  case (Api c)
  have "selected sc (new_resource m name)" and "selected sc (labelled m d)" for name d
    using assms(2) by (simp_all add: selected_def new_resource_def labelled_def)
  then show ?thesis using assms Api by (cases c) (simp_all, metis)
qed simp

lemma run_config_node: "run_config opts = Inr (mo, runner) \<Longrightarrow> mo_NodeName mo = nodeName opts"
  by (auto simp: run_config_def NewDiskMonitor_def Let_def split: option.splits sum.splits if_splits)

lemma traced_mono: "traced P w w' \<Longrightarrow> (\<And>a. P a \<Longrightarrow> Q a) \<Longrightarrow> traced Q w w'"
  by (auto simp: traced_def list_all_iff)

subsection \<open>Properties\<close>

text \<open>The stages of a run with usable options: what each does, and the error that ends the run there.\<close>

definition stages ::
  "Libraries \<Rightarrow> options \<Rightarrow> MonitorOptions \<Rightarrow> ExecRunner \<Rightarrow> (run_act list \<times> fatal_error option) list" where
  "stages lb opts mo runner =
     (let scheme = init_scheme (lb_ClientGoKinds lb) in
      [([], map_option (Wrapped ''failed to load kubeconfig'') (lb_GetConfig lb)),
       ([CreateManager scheme (cache_scope (lb_IsValidLabelValue lb) opts)],
         map_option (Wrapped ''failed to create controller-runtime manager'') (lb_NewManager lb)),
       ([CreateClient scheme],
         map_option (Wrapped ''failed to create direct Kubernetes client'') (lb_NewClient lb)),
       ([ServeHttp (metricsAddr opts) (metricsEnabled opts), SetupReconciler],
         map_option (Wrapped ''failed to setup PhysicalDisk reconciler'') (lb_Complete lb)),
       ([AddRunnable mo runner],
         map_option (Wrapped ''failed to add DiskMonitor runnable'') (lb_Add lb)),
       ([StartManager], map_option ManagerError (lb_Start lb))])"

text \<open>The number of stages before the first that fails.\<close>

definition passed :: "('a \<times> 'e option) list \<Rightarrow> nat" where
  "passed sts = length (takeWhile (\<lambda>(_, e). e = None) sts)"

text \<open>
  C4: with unusable options nothing is started; otherwise the stages of \<^verbatim>\<open>run\<close> are done in their order up
  to and including the first that fails, no later one is begun, the error of the failed stage is
  returned (none when no stage fails), and the last action of every run that has started the HTTP
  server is its shutdown.
\<close>

theorem run_lifecycle:
  "run lb opts =
    (case run_config opts of
       Inl e \<Rightarrow> (Some (BadOption e), [])
     | Inr (mo, runner) \<Rightarrow>
         (let sts = stages lb opts mo runner; n = passed sts
          in (if n < length sts then snd (sts ! n) else None,
              concat (map fst (take (Suc n) sts)) @ (if 3 \<le> n then [ShutdownHttp] else []))))"
proof (cases "run_config opts")
  case (Inr c)
  obtain mo runner where "c = (mo, runner)" by fastforce
  then show ?thesis
    using Inr unfolding run_def run_served_def stages_def passed_def Let_def
    by (cases "lb_GetConfig lb"; cases "lb_NewManager lb"; cases "lb_NewClient lb";
        cases "lb_Complete lb"; cases "lb_Add lb"; cases "lb_Start lb") simp_all
qed (simp add: run_def)

text \<open>
  C5: the running daemon stays in the scope of the manager's cache (what it creates or relabels is
  selected, what it lists is exactly the selection), and no event that the API server emits for one of
  its writes leads to a reconcile request, whatever other writers have stored in between: there is
  no feedback loop.  The hypotheses are the documented behaviour of the API server (the generation
  changes exactly with the spec, which neither a status write nor a patch of something else changes)
  and of the predicate of controller-runtime.
\<close>

theorem daemon_never_requests_itself:
  assumes "watched_daemon gen stores" and "disk_monitor m"
    and "run_config opts = Inr (dm_Options m, runner)"
    and "Start m node w = Inr (m', l0)" and "runs m' l0 es l"
  shows "traced (\<lambda>a. in_scope (cache_scope (dm_IsValidLabelValue m) opts) a \<and>
      (\<forall>c ev. a = Api c \<longrightarrow> causes stores (cache_scope (dm_IsValidLabelValue m) opts) c ev \<longrightarrow>
        SetupWithManager (cache_scope (dm_IsValidLabelValue m) opts) gen ev = None))
    w (lp_World l)"
proof (rule traced_mono [OF daemon_acts [OF assms(2,4,5)]])
  fix a
  assume own: "own_act m' a"
  have "mo_NodeName (dm_Options m) = nodeName opts" using run_config_node [OF assms(3)] .
  then have "cs_DiskLabel (cache_scope (dm_IsValidLabelValue m) opts) = (LabelNodeName, node_label m')"
    using assms(4) by (auto simp: cache_scope_def node_label_def elim!: StartE)
  then have "in_scope (cache_scope (dm_IsValidLabelValue m) opts) a"
    by (rule own_act_in_scope [OF own])
  then show "in_scope (cache_scope (dm_IsValidLabelValue m) opts) a \<and>
      (\<forall>c ev. a = Api c \<longrightarrow> causes stores (cache_scope (dm_IsValidLabelValue m) opts) c ev \<longrightarrow>
        SetupWithManager (cache_scope (dm_IsValidLabelValue m) opts) gen ev = None)"
    using watched_daemon.own_call_ignored [OF assms(1)] own by auto
qed

theorem daemon_never_requests_itself_witness:
  "\<exists>mo runner m' l0 l. run_config sample_opts = Inr (mo, runner) \<and>
     runs m' l0 [TakeDirty, Elapsed, Drain, ScanStart] l \<and>
     traced (\<lambda>a. in_scope (cache_scope label_value_errors sample_opts) a \<and>
         (\<forall>c ev. a = Api c \<longrightarrow> causes server_stores (cache_scope label_value_errors sample_opts) c ev \<longrightarrow>
           SetupWithManager (cache_scope label_value_errors sample_opts) generation_changed ev = None))
       \<lparr>w_api = [new_disk], w_trace = []\<rparr> (lp_World l)"
proof -
  obtain mo runner where c: "run_config sample_opts = Inr (mo, runner)" using sample_opts_accepted by blast
  let ?m = "list_monitor mo sample_fs (\<lambda>_ _. Inr healthy_output)"
  have c': "run_config sample_opts = Inr (dm_Options ?m, runner)" by (simp add: c list_monitor_def)
  obtain m' l0 where start: "Start ?m (Inr sample_node) \<lparr>w_api = [new_disk], w_trace = []\<rparr> = Inr (m', l0)"
    by (simp add: Start_def)
  then have "\<exists>l. runs m' l0 [TakeDirty, Elapsed, Drain, ScanStart] l"
    by (auto elim!: StartE simp: runs_simps loop_step_simps trigger_def drain_def)
  then obtain l where run: "runs m' l0 [TakeDirty, Elapsed, Drain, ScanStart] l" ..
  have V: "dm_IsValidLabelValue ?m = label_value_errors" by (simp add: list_monitor_def)
  show ?thesis
    using daemon_never_requests_itself [OF server_stores.watched_daemon_axioms
        list_monitor.disk_monitor_axioms c' start run, unfolded V] c run by blast
qed

end
