(* ===== verification/Shared_Server.thy ===== *)
theory Shared_Server
  imports Api_Server
begin

text \<open>
  Many daemons and users write to one API server.  Between any two calls of a handler the resources
  may change; what a daemon relies on is that nobody changes its part of them: the resources with
  its label and those with the names of its disks.  Under this condition a scan has the effect that
  it has alone, and the scan of a daemon of another node meets the condition.
\<close>

subsection \<open>The part of a node\<close>

definition own_part ::
  "string \<times> string \<Rightarrow> string set \<Rightarrow> (string \<rightharpoonup> PhysicalDisk) \<Rightarrow> (string \<rightharpoonup> PhysicalDisk)" where
  "own_part sel names A = (\<lambda>n. case A n of None \<Rightarrow> None
     | Some x \<Rightarrow> if n \<in> names \<or> pd_Labels x (fst sel) = Some (snd sel) then Some x else None)"

definition leaves_alone ::
  "('s \<Rightarrow> string \<rightharpoonup> PhysicalDisk) \<Rightarrow> string \<times> string \<Rightarrow> string set \<Rightarrow> 's \<Rightarrow> 's \<Rightarrow> bool" where
  "leaves_alone view sel names s s' \<longleftrightarrow>
     own_part sel names (view s') = own_part sel names (view s)"

lemma own_part_Some:
  "own_part sel names A n = Some x \<longleftrightarrow>
     A n = Some x \<and> (n \<in> names \<or> pd_Labels x (fst sel) = Some (snd sel))"
  by (auto simp: own_part_def split: option.splits)

lemma own_part_name: "n \<in> names \<Longrightarrow> own_part sel names A n = A n"
  by (auto simp: own_part_def split: option.split)

lemma own_part_upd:
  "n \<in> names \<or> pd_Labels x (fst sel) = Some (snd sel) \<Longrightarrow>
   own_part sel names (A(n \<mapsto> x)) = (own_part sel names A)(n \<mapsto> x)"
  by (auto simp: own_part_def fun_eq_iff)

lemma own_part_del: "own_part sel names (A(n := None)) = (own_part sel names A)(n := None)"
  by (auto simp: own_part_def fun_eq_iff)

lemma own_part_eqI:
  assumes "\<And>n. n \<in> names \<Longrightarrow> B n = A n"
    and "\<And>n x. pd_Labels x (fst sel) = Some (snd sel) \<Longrightarrow> B n = Some x \<longleftrightarrow> A n = Some x"
  shows "own_part sel names B = own_part sel names A"
proof
  fix n
  have "own_part sel names B n = Some x \<longleftrightarrow> own_part sel names A n = Some x" for x
    using assms(1) [of n] assms(2) [of x n] by (auto simp: own_part_Some)
  then show "own_part sel names B n = own_part sel names A n" by (metis option.exhaust)
qed

subsection \<open>Calls with interference\<close>

text \<open>
  Before the i-th call of the client the others do \<open>env i\<close>; the state counts the calls.
\<close>

definition interfered :: "(nat \<Rightarrow> 's \<Rightarrow> 's) \<Rightarrow> ('s \<Rightarrow> 'a \<times> 's) \<Rightarrow> 's \<times> nat \<Rightarrow> 'a \<times> ('s \<times> nat)" where
  "interfered env f = (\<lambda>(s, i). let (r, s') = f (env i s) in (r, (s', Suc i)))"

definition contended :: "(nat \<Rightarrow> 's \<Rightarrow> 's) \<Rightarrow> 's Client \<Rightarrow> ('s \<times> nat) Client" where
  "contended env C = \<lparr>
     cl_Get = (\<lambda>name. interfered env (cl_Get C name)),
     cl_List = (\<lambda>sel. interfered env (cl_List C sel)),
     cl_Create = (\<lambda>d. interfered env (cl_Create C d)),
     cl_Delete = (\<lambda>d. interfered env (cl_Delete C d)),
     cl_Patch = (\<lambda>base d. interfered env (cl_Patch C base d)),
     cl_StatusUpdate = (\<lambda>d. interfered env (cl_StatusUpdate C d)),
     cl_StatusPatch = (\<lambda>base d. interfered env (cl_StatusPatch C base d))\<rparr>"

lemma interfered_simps [simp]:
  "fst (interfered env f w) = fst (f (env (snd w) (fst w)))"
  "fst (snd (interfered env f w)) = snd (f (env (snd w) (fst w)))"
  by (simp_all add: interfered_def split: prod.splits)

definition part_view ::
  "('s \<Rightarrow> string \<rightharpoonup> PhysicalDisk) \<Rightarrow> string \<times> string \<Rightarrow> string set \<Rightarrow> 's \<times> nat \<Rightarrow> string \<rightharpoonup> PhysicalDisk"
where
  "part_view view sel names w = own_part sel names (view (fst w))"

text \<open>What others may do between two calls.\<close>

locale interference = api_server C view sel UNIV
  for C :: "'s Client" and view :: "'s \<Rightarrow> string \<rightharpoonup> PhysicalDisk" and sel :: "string \<times> string" +
  fixes names :: "string set" and env :: "nat \<Rightarrow> 's \<Rightarrow> 's"
  assumes env_alone: "leaves_alone view sel names s (env i s)"
begin

lemma env_part: "own_part sel names (view (env i s)) = own_part sel names (view s)"
  using env_alone by (simp add: leaves_alone_def)

lemma part_Some:
  "part_view view sel names (s, i) n = Some x \<longleftrightarrow>
     view (env i s) n = Some x \<and> (n \<in> names \<or> pd_Labels x (fst sel) = Some (snd sel))"
  by (metis part_view_def fst_conv env_part own_part_Some)

lemma part_None: "n \<in> names \<Longrightarrow> part_view view sel names (s, i) n = None \<Longrightarrow> view (env i s) n = None"
  by (metis part_view_def fst_conv env_part own_part_name)

lemma wrote_part:
  assumes "wrote view (env i s) d (f (env i s))"
    and "pd_Name d \<in> names \<or> pd_Labels d (fst sel) = Some (snd sel)"
  shows "wrote (part_view view sel names) (s, i) d (interfered env f (s, i))"
proof -
  have "view (snd (f (env i s))) = (view (env i s))(pd_Name d \<mapsto> erase d)"
    using wroteD [OF assms(1)] by simp
  then have "own_part sel names (view (snd (f (env i s)))) =
      (own_part sel names (view s))(pd_Name d \<mapsto> erase d)"
    using assms(2) by (simp add: own_part_upd env_part)
  then show ?thesis using assms(1)
    by (auto simp: wrote_def interfered_def part_view_def split: prod.splits sum.splits)
qed

lemma contended_server: "api_server (contended env C) (part_view view sel names) sel names"
proof (unfold_locales; (simp only: split_paired_all)?)
  fix s i name x
  show "part_view view sel names (s, i) name = Some x \<Longrightarrow> pd_Name x = name"
    using view_name part_Some by blast
  show "part_view view sel names (snd (cl_Get (contended env C) name (s, i))) = part_view view sel names (s, i)"
    by (simp add: contended_def part_view_def get_view env_part)
  show "part_view view sel names (s, i) name = Some x \<Longrightarrow>
      \<exists>d. fst (cl_Get (contended env C) name (s, i)) = Inr d \<and> erase d = x"
    using get_some part_Some by (auto simp: contended_def)
  show "name \<in> names \<Longrightarrow> part_view view sel names (s, i) name = None \<Longrightarrow>
      \<exists>e. fst (cl_Get (contended env C) name (s, i)) = Inl (ApiNotFound e)"
    using get_none part_None by (simp add: contended_def)
next
  fix s i and d :: PhysicalDisk
  assume "pd_Name d \<in> names" "part_view view sel names (s, i) (pd_Name d) = None"
  then show "wrote (part_view view sel names) (s, i) d (cl_Create (contended env C) d (s, i))"
    using create_view part_None by (auto simp: contended_def intro!: wrote_part)
next
  fix s i and base :: PhysicalDisk and l
  assume "pd_Name base \<in> names" "part_view view sel names (s, i) (pd_Name base) = Some (erase base)"
  then show "wrote (part_view view sel names) (s, i) (base\<lparr>pd_Labels := l\<rparr>)
      (cl_Patch (contended env C) base (base\<lparr>pd_Labels := l\<rparr>) (s, i))"
    using patch_view part_Some by (auto simp: contended_def intro!: wrote_part)
next
  fix s i and base :: PhysicalDisk and st
  assume "part_view view sel names (s, i) (pd_Name base) = Some (erase base)"
  then show "wrote (part_view view sel names) (s, i) (base\<lparr>pd_Status := st\<rparr>)
      (cl_StatusPatch (contended env C) base (base\<lparr>pd_Status := st\<rparr>) (s, i))"
    using status_view part_Some by (auto simp: contended_def intro!: wrote_part)
next
  fix s i and d :: PhysicalDisk and st
  assume "part_view view sel names (s, i) (pd_Name d) = Some (erase d)"
  then have v: "view (env i s) (pd_Name d) = Some (erase d)"
    and own: "pd_Name d \<in> names \<or> pd_Labels (erase (d\<lparr>pd_Status := st\<rparr>)) (fst sel) = Some (snd sel)"
    by (auto simp: part_Some erase_def)
  from update_view [OF v, of st]
  show "fst (cl_StatusUpdate (contended env C) (d\<lparr>pd_Status := st\<rparr>) (s, i)) = None \<and>
      part_view view sel names (snd (cl_StatusUpdate (contended env C) (d\<lparr>pd_Status := st\<rparr>) (s, i))) =
        (part_view view sel names (s, i))(pd_Name d \<mapsto> erase (d\<lparr>pd_Status := st\<rparr>))"
    by (simp add: contended_def part_view_def own_part_upd [OF own] env_part)
next
  fix s i and d :: PhysicalDisk
  assume "part_view view sel names (s, i) (pd_Name d) \<noteq> None"
  then have "view (env i s) (pd_Name d) \<noteq> None" by (auto simp: part_Some)
  then show "fst (cl_Delete (contended env C) d (s, i)) = None \<and>
      part_view view sel names (snd (cl_Delete (contended env C) d (s, i))) =
        (part_view view sel names (s, i))(pd_Name d := None)"
    using delete_view by (simp add: contended_def part_view_def own_part_del env_part)
next
  fix s i
  obtain ds where "fst (cl_List C sel (env i s)) = Inr ds" and "distinct (map pd_Name ds)"
    and "\<forall>d \<in> set ds. view (env i s) (pd_Name d) = Some (erase d) \<and> pd_Labels d (fst sel) = Some (snd sel)"
    and "\<forall>n x. view (env i s) n = Some x \<longrightarrow> pd_Labels x (fst sel) = Some (snd sel) \<longrightarrow> n \<in> pd_Name ` set ds"
    using list_view [of "env i s"] by blast
  then show "\<exists>ds. fst (cl_List (contended env C) sel (s, i)) = Inr ds \<and> distinct (map pd_Name ds) \<and>
      (\<forall>d \<in> set ds. part_view view sel names (s, i) (pd_Name d) = Some (erase d) \<and>
        pd_Labels d (fst sel) = Some (snd sel)) \<and>
      (\<forall>n x. part_view view sel names (s, i) n = Some x \<longrightarrow> pd_Labels x (fst sel) = Some (snd sel) \<longrightarrow>
        n \<in> pd_Name ` set ds)"
    by (auto simp: contended_def part_Some)
  show "part_view view sel names (snd (cl_List (contended env C) sel (s, i))) = part_view view sel names (s, i)"
    by (simp add: contended_def part_view_def list_keeps env_part)
qed

end

subsection \<open>The nodes of resources on a shared server\<close>

text \<open>Other writers who keep the nodes of the resources do not disturb the laws of \<open>owned_store\<close>.\<close>

lemma interfered_eq: "interfered env f (s, i) = (r, (s', j)) \<longleftrightarrow> f (env i s) = (r, s') \<and> j = Suc i"
  by (auto simp: interfered_def split: prod.splits)

lemma contended_owned:
  assumes "owned_store C ok owner" and "\<And>i s. ok s \<Longrightarrow> ok (env i s)"
  shows "owned_store (contended env C) (\<lambda>w. ok (fst w)) owner"
proof (unfold_locales; (simp only: split_paired_all)?)
  fix s i name r s' j
  assume "ok (fst (s, i))" and "cl_Get (contended env C) name (s, i) = (r, (s', j))"
  then show "ok (fst (s', j)) \<and> (\<forall>d. r = Inr d \<longrightarrow> pd_Name d = name \<and> owned owner d)"
    using owned_store.get_owned [OF assms(1) assms(2), of s name i r s']
    by (simp only: contended_def Client.select_convs interfered_eq fst_conv) blast
next
  fix s i sel rs s' j
  assume "ok (fst (s, i))" and "cl_List (contended env C) sel (s, i) = (rs, (s', j))"
  then show "ok (fst (s', j)) \<and> (\<forall>ds d. rs = Inr ds \<longrightarrow> d \<in> set ds \<longrightarrow> owned owner d)"
    using owned_store.list_owned [OF assms(1) assms(2), of s sel i rs s']
    by (simp only: contended_def Client.select_convs interfered_eq fst_conv) blast
next
  fix s i d r s' j
  assume "ok (fst (s, i))" "owned owner d" and "cl_Create (contended env C) d (s, i) = (r, (s', j))"
  then show "ok (fst (s', j)) \<and> (\<forall>d'. r = Inr d' \<longrightarrow> pd_Name d' = pd_Name d \<and> owned owner d')"
    using owned_store.create_owned [OF assms(1) assms(2), of s d i r s']
    by (simp only: contended_def Client.select_convs interfered_eq fst_conv) blast
next
  fix s i and base :: PhysicalDisk and l r s' j
  assume "ok (fst (s, i))" "owned owner base"
    and "cl_Patch (contended env C) base (base\<lparr>pd_Labels := l\<rparr>) (s, i) = (r, (s', j))"
  then show "ok (fst (s', j)) \<and> (\<forall>d'. r = Inr d' \<longrightarrow> pd_Name d' = pd_Name base \<and> owned owner d')"
    using owned_store.patch_owned [OF assms(1) assms(2), of s base l i r s']
    by (simp only: contended_def Client.select_convs interfered_eq fst_conv) blast
qed (simp_all add: contended_def assms(2) owned_store.delete_owned [OF assms(1)]
    owned_store.update_owned [OF assms(1)] owned_store.status_patch_owned [OF assms(1)])

subsection \<open>The scan of another node\<close>

lemma collect_labels [simp]: "pd_Labels (fst (collect_status m d info)) = pd_Labels d"
  by (subst collect_status_frame) simp

lemma reconciled_label:
  assumes "v \<noteq> node_label m" and "pd_Labels d LabelNodeName \<noteq> Some v"
  shows "pd_Labels (reconciled m info d) LabelNodeName \<noteq> Some v"
  using assms by (simp add: reconciled_def labelled_def)

lemma upsert_leaves_alone:
  assumes "v \<noteq> node_label m" and "GenerateCRName (node_of m) info \<notin> names"
    and "\<And>n x. n \<in> G \<Longrightarrow> A n = Some x \<Longrightarrow> pd_Labels x LabelNodeName \<noteq> Some v"
    and "GenerateCRName (node_of m) info \<in> G"
  shows "own_part (LabelNodeName, v) names (upsert m A info) = own_part (LabelNodeName, v) names A"
    and "n \<in> G \<Longrightarrow> upsert m A info n = Some x \<Longrightarrow> pd_Labels x LabelNodeName \<noteq> Some v"
proof -
  let ?n = "GenerateCRName (node_of m) info"
  let ?old = "case A ?n of Some d \<Rightarrow> d | None \<Rightarrow> new_resource m ?n"
  have "pd_Labels ?old LabelNodeName \<noteq> Some v"
    using assms(1) assms(3) [OF assms(4)] by (auto simp: new_resource_def split: option.split)
  then have new: "pd_Labels (reconciled m info ?old) LabelNodeName \<noteq> Some v"
    by (rule reconciled_label [OF assms(1)])
  show "own_part (LabelNodeName, v) names (upsert m A info) = own_part (LabelNodeName, v) names A"
  proof (rule own_part_eqI)
    show "upsert m A info n = A n" if "n \<in> names" for n
      using that assms(2) by (auto simp: upsert_def Let_def)
    show "upsert m A info n = Some x \<longleftrightarrow> A n = Some x"
      if "pd_Labels x (fst (LabelNodeName, v)) = Some (snd (LabelNodeName, v))" for n x
      using that new assms(3) [OF assms(4)] by (auto simp: upsert_def Let_def)
  qed
  show "n \<in> G \<Longrightarrow> upsert m A info n = Some x \<Longrightarrow> pd_Labels x LabelNodeName \<noteq> Some v"
    using new assms(3) by (auto simp: upsert_def Let_def split: if_splits)
qed

lemma upserts_leave_alone:
  assumes "v \<noteq> node_label m" and "set (map (GenerateCRName (node_of m)) infos) \<subseteq> G - names"
    and "\<And>n x. n \<in> G \<Longrightarrow> A n = Some x \<Longrightarrow> pd_Labels x LabelNodeName \<noteq> Some v"
  shows "own_part (LabelNodeName, v) names (foldl (upsert m) A infos) = own_part (LabelNodeName, v) names A"
  using assms(2,3)
proof (induction infos arbitrary: A)
  case (Cons info infos)
  have n: "GenerateCRName (node_of m) info \<notin> names" "GenerateCRName (node_of m) info \<in> G"
    using Cons.prems(1) by simp_all
  note step = upsert_leaves_alone [OF assms(1) n(1) Cons.prems(2) n(2)]
  have "own_part (LabelNodeName, v) names (foldl (upsert m) (upsert m A info) infos) =
      own_part (LabelNodeName, v) names (upsert m A info)"
    using Cons.prems(1) by (intro Cons.IH step(2)) simp_all
  then show ?case using step(1) by simp
qed simp

lemma absent_item_label:
  "absent_item m disc x = Some y \<Longrightarrow> pd_Labels y = pd_Labels x"
  by (auto simp: absent_item_def mark_missing_def marked_def with_condition_eq split: if_splits)

lemma prune_leaves_alone:
  assumes "v \<noteq> node_label m"
    and "\<And>n x. n \<in> names \<Longrightarrow> A n = Some x \<Longrightarrow> pd_Labels x LabelNodeName \<noteq> Some (node_label m)"
  shows "own_part (LabelNodeName, v) names (prune m disc A) = own_part (LabelNodeName, v) names A"
proof (rule own_part_eqI)
  show "prune m disc A n = A n" if "n \<in> names" for n
    using assms(2) [OF that] by (auto simp: prune_def split: option.split)
  show "prune m disc A n = Some x \<longleftrightarrow> A n = Some x"
    if "pd_Labels x (fst (LabelNodeName, v)) = Some (snd (LabelNodeName, v))" for n x
    using that assms(1) by (auto simp: prune_def dest: absent_item_label split: option.splits if_splits)
qed

lemma prune_SomeD:
  "prune m disc A n = Some y \<Longrightarrow> \<exists>x. A n = Some x \<and> pd_Labels y = pd_Labels x"
  by (auto simp: prune_def dest: absent_item_label split: option.splits if_splits)

subsection \<open>A shared list of disks\<close>

definition shared_monitor ::
  "(nat \<Rightarrow> PhysicalDisk list \<Rightarrow> PhysicalDisk list) \<Rightarrow> (PhysicalDisk list \<times> nat) DiskMonitor" where
  "shared_monitor env = \<lparr>dm_Options = sample_options, dm_Recorder = True,
     dm_SetStatusCondition = list_setc 100, dm_Now = 100, dm_Client = contended env list_client,
     dm_Collect = (\<lambda>_ _. Inr healthy_output), dm_Fs = sample_fs, dm_NodeRef = None,
     dm_RetryOnConflict = attempts 4, dm_IsValidLabelValue = label_value_errors\<rparr>"

interpretation shared_monitor: disk_monitor "shared_monitor env" for env
proof (intro disk_monitor.intro status_monitor.intro)
  show "status_conditions (dm_SetStatusCondition (shared_monitor env))"
    by (simp add: shared_monitor_def list_conditions.status_conditions_axioms)
  show "conflict_retry (dm_RetryOnConflict (shared_monitor env))"
    by (simp add: shared_monitor_def list_retry.conflict_retry_axioms)
qed

text \<open>Another daemon that tries to create its resource before every call.\<close>

definition other_disk :: PhysicalDisk where
  "other_disk = new_disk\<lparr>pd_Name := ''node2-0x6000'', pd_Labels := [LabelNodeName \<mapsto> ''node2'']\<rparr>"

definition other_creates :: "nat \<Rightarrow> PhysicalDisk list \<Rightarrow> PhysicalDisk list" where
  "other_creates i s = snd (cl_Create list_client other_disk s)"

lemma other_creates_alone:
  assumes "pd_Name other_disk \<notin> names" and "v \<noteq> ''node2''"
  shows "leaves_alone list_view (LabelNodeName, v) names s (other_creates i s)"
proof -
  have "list_view (other_creates i s) = (if stored (pd_Name other_disk) s = None
      then (list_view s)(pd_Name other_disk \<mapsto> erase other_disk) else list_view s)"
    by (auto simp: other_creates_def list_view_def stored_append fun_eq_iff
        split: option.split)
  moreover have "own_part (LabelNodeName, v) names ((list_view s)(pd_Name other_disk \<mapsto> erase other_disk)) =
      own_part (LabelNodeName, v) names (list_view s)"
    if "stored (pd_Name other_disk) s = None"
    using that assms by (intro own_part_eqI) (auto simp: list_view_def other_disk_def)
  ultimately show ?thesis by (simp add: leaves_alone_def)
qed

text \<open>The names that a daemon gives to the disks it has found.\<close>

definition disk_names :: "'s DiskMonitor \<Rightarrow> DiskInfo list \<Rightarrow> string set" where
  "disk_names m infos = set (map (GenerateCRName (node_of m)) infos)"

lemma sample_name: "GenerateCRName ''node1'' sample_disk = ''node1-0x5000''"
proof -
  have "di_WWN sample_disk = ''0x5000''" by (simp add: sample_disk_def make_disk_def get_prop_def Let_def)
  then have "GenerateCRName ''node1'' sample_disk =
      GenerateCRName ''node1'' (empty_DiskInfo\<lparr>di_WWN := ''0x5000''\<rparr>)"
    by (simp add: GenerateCRName_def raw_id_def)
  also have "\<dots> = ''node1-0x5000''" by code_simp
  finally show ?thesis .
qed

lemma shared_sample:
  "discover (shared_monitor env) = Inr [sample_disk]"
  "node_label (shared_monitor env) = ''node1''"
  "pd_Name other_disk \<notin> disk_names (shared_monitor env) [sample_disk]"
proof -
  show "discover (shared_monitor env) = Inr [sample_disk]"
    by (simp add: discover_def shared_monitor_def sample_options_def sample_inventory IsExcluded_def)
  have "node_label (shared_monitor env) = MustFormatValue label_value_errors ''node1''"
    by (simp add: node_label_def shared_monitor_def sample_options_def)
  also have "\<dots> = ''node1''" by code_simp
  finally show "node_label (shared_monitor env) = ''node1''" .
  show "pd_Name other_disk \<notin> disk_names (shared_monitor env) [sample_disk]"
    by (simp add: disk_names_def shared_monitor_def sample_options_def other_disk_def sample_name)
qed

interpretation other_creates: interference list_client list_view "(LabelNodeName, ''node1'')"
  "disk_names (shared_monitor other_creates) [sample_disk]" other_creates
proof
  show "leaves_alone list_view (LabelNodeName, ''node1'')
      (disk_names (shared_monitor other_creates) [sample_disk]) s (other_creates i s)" for s i
    by (rule other_creates_alone) (simp_all add: shared_sample)
qed

text \<open>The disks that the inventory finds; none when it fails.\<close>

definition found_disks :: "'s DiskMonitor \<Rightarrow> DiskInfo list" where
  "found_disks m = (case discover m of Inl e \<Rightarrow> [] | Inr infos \<Rightarrow> infos)"

text \<open>The effect of a scan on its part of the map: the errors and the new part.\<close>

definition scan_effect :: "'s DiskMonitor \<Rightarrow> (string \<rightharpoonup> PhysicalDisk) \<Rightarrow>
    reconcile_error list \<times> (string \<rightharpoonup> PhysicalDisk)" where
  "scan_effect m A =
     (case discover m of
        Inl e \<Rightarrow> ([DiscoverFailed e], A)
      | Inr infos \<Rightarrow> ([], foldl (upsert m) (prune m (disk_names m infos) A) infos))"

lemma contended_scan:
  assumes "disk_monitor m" and "dm_Client m = contended env C" and "discover m = Inr infos"
    and "interference C view (LabelNodeName, node_label m) (disk_names m infos) env"
  shows "fst (ReconcileAll m w) = [] \<and>
    part_view view (LabelNodeName, node_label m) (disk_names m infos) (w_api (snd (ReconcileAll m w))) =
      foldl (upsert m) (prune m (disk_names m infos)
        (part_view view (LabelNodeName, node_label m) (disk_names m infos) (w_api w))) infos"
proof -
  have "served_monitor m (part_view view (LabelNodeName, node_label m) (disk_names m infos)) (disk_names m infos)"
    using assms(1,2) interference.contended_server [OF assms(4)] by (simp add: served_monitor_def)
  from served_monitor.ReconcileAll_view [OF this assms(3)] show ?thesis
    by (simp add: disk_names_def)
qed

subsection \<open>Properties\<close>

text \<open>
  C10: on a shared server that answers every call, a scan does on the part of its node (the resources
  with its label and those with the names of its disks) exactly what it does alone, whatever others
  do before every call to the rest of the resources: when the inventory fails it returns that error
  and changes nothing, otherwise it returns no error and updates the disks that it found.
\<close>

theorem shared_scan_refines:
  assumes "disk_monitor m" and "dm_Client m = contended env C"
    and "interference C view (LabelNodeName, node_label m) (disk_names m (found_disks m)) env"
  shows "(fst (ReconcileAll m (w\<lparr>w_api := (s, i)\<rparr>)),
      own_part (LabelNodeName, node_label m) (disk_names m (found_disks m))
        (view (fst (w_api (snd (ReconcileAll m (w\<lparr>w_api := (s, i)\<rparr>))))))) =
    scan_effect m (own_part (LabelNodeName, node_label m) (disk_names m (found_disks m)) (view s))"
proof (cases "discover m")
  case (Inl e)
  then show ?thesis by (simp add: ReconcileAll_def scan_effect_def)
next
  case (Inr infos)
  then show ?thesis
    using contended_scan [OF assms(1,2) Inr, of view "w\<lparr>w_api := (s, i)\<rparr>"] assms(3)
    by (simp add: part_view_def found_disks_def scan_effect_def)
qed

theorem shared_scan_refines_witness:
  "let m = shared_monitor other_creates; names = disk_names m [sample_disk];
       w = snd (ReconcileAll m \<lparr>w_api = ([new_disk], 0), w_trace = []\<rparr>) in
   own_part (LabelNodeName, ''node1'') names (list_view (fst (w_api w))) =
   foldl (upsert m) (prune m names (own_part (LabelNodeName, ''node1'') names (list_view [new_disk])))
     [sample_disk]"
proof -
  let ?m = "shared_monitor other_creates"
  have client: "dm_Client ?m = contended other_creates list_client"
    by (simp add: shared_monitor_def)
  have found: "found_disks ?m = [sample_disk]" by (simp add: found_disks_def shared_sample(1))
  show ?thesis
    using shared_scan_refines [OF shared_monitor.disk_monitor_axioms client,
        unfolded shared_sample(2) found, OF other_creates.interference_axioms,
        where w = "\<lparr>w_api = ([new_disk], 0), w_trace = []\<rparr>" and s = "[new_disk]" and i = 0]
    by (simp add: Let_def scan_effect_def shared_sample(1))
qed

text \<open>
  C11: on a server that answers every call, a scan whose inventory succeeds leaves the part of every
  other node alone, provided that their labels and the names of their disks differ and that no
  resource carries the label of one and a name of the other.
\<close>

theorem scan_leaves_other_nodes_alone:
  assumes "disk_monitor m" and "api_server (dm_Client m) view (LabelNodeName, node_label m) UNIV"
    and "discover m = Inr infos" and "v \<noteq> node_label m" and "disk_names m infos \<inter> names = {}"
    and "\<And>n x. view (w_api w) n = Some x \<Longrightarrow> n \<in> names \<Longrightarrow> pd_Labels x LabelNodeName \<noteq> Some (node_label m)"
    and "\<And>n x. view (w_api w) n = Some x \<Longrightarrow> n \<in> disk_names m infos \<Longrightarrow> pd_Labels x LabelNodeName \<noteq> Some v"
  shows "leaves_alone view (LabelNodeName, v) names (w_api w) (w_api (snd (ReconcileAll m w)))"
proof -
  let ?A = "prune m (disk_names m infos) (view (w_api w))"
  have view: "view (w_api (snd (ReconcileAll m w))) = foldl (upsert m) ?A infos"
    using served_monitor.ReconcileAll_view [OF served_monitor.intro [OF assms(1,2)] assms(3) subset_UNIV]
    by (simp add: disk_names_def)
  have "own_part (LabelNodeName, v) names (foldl (upsert m) ?A infos) = own_part (LabelNodeName, v) names ?A"
    using assms(5,7) by (intro upserts_leave_alone [where G = "disk_names m infos", OF assms(4)])
      (auto simp: disk_names_def dest!: prune_SomeD)
  also have "\<dots> = own_part (LabelNodeName, v) names (view (w_api w))"
    using assms(6) by (intro prune_leaves_alone [OF assms(4)]) blast
  finally show ?thesis by (simp add: leaves_alone_def view)
qed

theorem scan_leaves_other_nodes_alone_witness:
  "leaves_alone list_view (LabelNodeName, ''node2'') {''node2-0x6000''} [new_disk, other_disk]
     (w_api (snd (ReconcileAll (list_monitor sample_options sample_fs (\<lambda>_ _. Inr healthy_output))
       \<lparr>w_api = [new_disk, other_disk], w_trace = []\<rparr>)))"
proof -
  let ?m = "list_monitor sample_options sample_fs (\<lambda>_ _. Inr healthy_output)"
  let ?w = "\<lparr>w_api = [new_disk, other_disk], w_trace = []\<rparr>"
  have label: "node_label ?m = ''node1''" and names: "disk_names ?m [sample_disk] =
      disk_names (shared_monitor other_creates) [sample_disk]"
    using shared_sample(2) by (simp_all add: node_label_def disk_names_def list_monitor_def shared_monitor_def)
  note other = shared_sample(3) [of other_creates, folded names]
  have stored: "list_view [new_disk, other_disk] n = Some x \<Longrightarrow>
      n = ''node1-0x5000'' \<and> pd_Labels x = Map.empty \<or>
      n = pd_Name other_disk \<and> pd_Labels x = [LabelNodeName \<mapsto> ''node2'']" for n x
    by (auto simp: list_view_def stored_def new_disk_def other_disk_def split: if_splits)
  have "leaves_alone list_view (LabelNodeName, ''node2'') {''node2-0x6000''} (w_api ?w)
      (w_api (snd (ReconcileAll ?m ?w)))"
  proof (rule scan_leaves_other_nodes_alone [OF list_monitor.disk_monitor_axioms
        list_monitor_server
        sample_discover [where collect = "\<lambda>_ _. Inr healthy_output"]])
    show "''node2'' \<noteq> node_label ?m" by (simp add: label)
    show "disk_names ?m [sample_disk] \<inter> {''node2-0x6000''} = {}"
      using other by (simp add: other_disk_def)
    show "list_view (w_api ?w) n = Some x \<Longrightarrow> n \<in> {''node2-0x6000''} \<Longrightarrow>
        pd_Labels x LabelNodeName \<noteq> Some (node_label ?m)" for n x
      using stored [of n x] by (auto simp: label)
    show "list_view (w_api ?w) n = Some x \<Longrightarrow> n \<in> disk_names ?m [sample_disk] \<Longrightarrow>
        pd_Labels x LabelNodeName \<noteq> Some ''node2''" for n x
      using stored [of n x] other by auto
  qed
  then show ?thesis by simp
qed

end
