(* ===== verification/Hazards.thy ===== *)
theory Hazards
  imports Shared_Server
begin

text \<open>
  Behaviour of the reconciler (\<^verbatim>\<open>pkg/controller/physicaldisk_controller.go\<close>) that goes against what
  its comments and the API promise: a status patch that meets a concurrent write, generated names
  that two nodes share, and events that a conflict repeats.
\<close>

subsection \<open>Concurrent status patches\<close>

text \<open>
  \<^verbatim>\<open>client.MergeFrom\<close> sends a JSON merge patch: a field whose value did not change since the base is
  not part of the patch, a list that changed is replaced as a whole.  The two fields matter that
  the invariant of the API connects.
\<close>

locale status_merge =
  fixes merge :: "PhysicalDiskStatus \<Rightarrow> PhysicalDiskStatus \<Rightarrow> PhysicalDiskStatus \<Rightarrow> PhysicalDiskStatus"
  assumes merge_health:
      "Health (merge base new cur) = (if Health new = Health base then Health cur else Health new)"
    and merge_conditions: "Conditions (merge base new cur) =
      (if Conditions new = Conditions base then Conditions cur else Conditions new)"
begin

lemma merge_out_of_sync:
  assumes "Health new = Health base" and "Conditions new \<noteq> Conditions base"
    and "degraded_in_sync new" and "Health new \<noteq> StatusUnset" and "Health cur \<noteq> Health base"
  shows "\<not> health_in_sync (merge base new cur)"
proof -
  obtain c where "find_condition ConditionDegraded (Conditions new) = Some c"
    and "c_Reason c = status_string (Health new)"
    using assms(3,4) degraded_health_in_sync [OF assms(3)]
    by (auto simp: health_in_sync_def split: option.splits)
  then show ?thesis
    using assms by (simp add: health_in_sync_def merge_health merge_conditions status_string_inj)
qed

end

interpretation merge_status: status_merge merge_status
  by unfold_locales (simp_all add: merge_status_def merge_leaf_def)

context status_monitor
begin

lemma failure_changes_conditions:
  assumes "data_condition_changes m disk e" and "Health (pd_Status disk) \<noteq> StatusUnset"
  shows "Conditions (pd_Status (fst (applyCollectionFailure m disk info e))) \<noteq>
    Conditions (pd_Status disk)"
proof -
  obtain c where "find_condition ConditionDataCollected
      (Conditions (pd_Status (fst (applyCollectionFailure m disk info e)))) = Some c"
    and "same_content c (data_condition e)"
    using data_collected_failure by blast
  then show ?thesis
    using assms(1) by (auto simp: data_condition_changes_def split: option.splits)
qed

end

subsection \<open>Shared names\<close>

definition serial_disk :: "string \<Rightarrow> DiskInfo" where
  "serial_disk serial = empty_DiskInfo\<lparr>di_SerialShort := serial\<rparr>"

text \<open>The resource that the daemon of the node \<open>worker\<close> keeps for its disk \<open>1-abc\<close>.\<close>

definition worker_disk :: PhysicalDisk where
  "worker_disk = new_disk\<lparr>pd_Name := GenerateCRName ''worker'' (serial_disk ''1-abc''),
     pd_Spec := \<lparr>NodeName = ''worker'', Smartmontools = None\<rparr>\<rparr>"

lemma collect_info: "\<exists>fw. Info (pd_Status (fst (collect_status m d info))) = info\<lparr>di_FirmwareVersion := fw\<rparr>"
proof -
  note defs = collect_status_def Let_def success_fst failure_fst setHealth_fst assessed_disk_def
    failed_disk_def
  have same: "info\<lparr>di_FirmwareVersion := di_FirmwareVersion info\<rparr> = info" by simp
  show ?thesis
  proof (cases "dm_Collect m (di_Path info) (extra_args (d\<lparr>pd_Status := (pd_Status d)\<lparr>Info := info\<rparr>\<rparr>))")
    case (Inl e)
    then show ?thesis by (intro exI [of _ "di_FirmwareVersion info"]) (simp add: defs)
  next
    case (Inr out)
    then show ?thesis
      by (intro exI [of _ "if so_FirmwareVersion out = [] then di_FirmwareVersion info
          else so_FirmwareVersion out"]) (simp add: defs)
  qed
qed

lemma reconciled_info: "\<exists>fw. Info (pd_Status (reconciled m info d)) = info\<lparr>di_FirmwareVersion := fw\<rparr>"
  unfolding reconciled_def by (rule collect_info)

lemma reconciled_spec: "pd_Spec (reconciled m info d) = pd_Spec d"
  unfolding reconciled_def by (subst collect_status_frame) (simp add: labelled_def)

lemma reconciled_node_label: "get_prop (pd_Labels (reconciled m info d)) LabelNodeName = node_label m"
  by (simp add: reconciled_def labelled_def get_prop_def)

subsection \<open>Repeated events\<close>

text \<open>A server with one disk whose first status update meets a conflict; the state counts updates.\<close>

definition conflict_client :: "nat Client" where
  "conflict_client = \<lparr>
     cl_Get = (\<lambda>_ s. (Inr new_disk, s)), cl_List = (\<lambda>_ s. (Inr [new_disk], s)),
     cl_Create = (\<lambda>d s. (Inl (ApiOther ''exists''), s)), cl_Delete = (\<lambda>_ s. (None, s)),
     cl_Patch = (\<lambda>_ d s. (Inr d, s)),
     cl_StatusUpdate = (\<lambda>_ s. (if s = 0 then Some (ApiConflict ''conflict'') else None, Suc s)),
     cl_StatusPatch = (\<lambda>_ d s. (Inr d, s))\<rparr>"

definition conflict_monitor :: "nat DiskMonitor" where
  "conflict_monitor = \<lparr>dm_Options = sample_options, dm_Recorder = True,
     dm_SetStatusCondition = list_setc 100, dm_Now = 100, dm_Client = conflict_client,
     dm_Collect = (\<lambda>_ _. Inr healthy_output), dm_Fs = sample_fs, dm_NodeRef = None,
     dm_RetryOnConflict = attempts 4, dm_IsValidLabelValue = label_value_errors\<rparr>"

fun act_events :: "act list \<Rightarrow> effect list" where
  "act_events [] = []"
| "act_events (Effect e # as) = (if is_event e then e # act_events as else act_events as)"
| "act_events (Api c # as) = act_events as"

subsection \<open>Missing members\<close>

text \<open>The fields whose decoders leave the self-assessment alone: all but its own.\<close>

definition keeps_smart_status :: "SmartctlOutput decoder \<Rightarrow> bool" where
  "keeps_smart_status d \<longleftrightarrow> (\<forall>j x y. d j x = Some y \<longrightarrow> so_SmartStatus y = so_SmartStatus x)"

lemma keeps_smart_status_field:
  "(\<And>f x. so_SmartStatus (upd f x) = so_SmartStatus x) \<Longrightarrow> keeps_smart_status (json_field get upd d)"
  by (auto simp: keeps_smart_status_def json_field_def)

lemma find_field_mem: "find_field fs k = Some d \<Longrightarrow> \<exists>name. (name, d) \<in> set fs \<and> (name = k \<or> equal_fold name k)"
proof -
  assume "find_field fs k = Some d"
  then consider "map_of fs k = Some d"
    | "map_option snd (List.find (\<lambda>(name, _). equal_fold name k) fs) = Some d"
    by (auto simp: find_field_def split: option.splits)
  then show ?thesis
  proof cases
    case 2
    then obtain name where "List.find (\<lambda>(name, _). equal_fold name k) fs = Some (name, d)" by auto
    then show ?thesis by (auto simp: find_Some_iff) (metis nth_mem)
  qed (auto dest: map_of_SomeD)
qed

lemma output_fields_keep:
  "(name, d) \<in> set SmartctlOutput_fields \<Longrightarrow> name \<noteq> ''smart_status'' \<Longrightarrow> keeps_smart_status d"
  by (auto simp: SmartctlOutput_fields_def intro!: keeps_smart_status_field)

lemma decode_members_keep:
  assumes "list_all (\<lambda>(k, v). \<not> equal_fold ''smart_status'' k) ms"
    and "decode_members SmartctlOutput_fields ms x = Some y"
  shows "so_SmartStatus y = so_SmartStatus x"
  using assms
proof (induction SmartctlOutput_fields ms x rule: decode_members.induct)
  case (2 k v ms x)
  show ?case
  proof (cases "find_field SmartctlOutput_fields k")
    case None
    then show ?thesis using 2 by simp
  next
    case (Some d)
    then obtain z where z: "d v x = Some z" "decode_members SmartctlOutput_fields ms z = Some y"
      using "2.prems"(2) by (auto split: option.splits)
    obtain name where "(name, d) \<in> set SmartctlOutput_fields" "name = k \<or> equal_fold name k"
      using find_field_mem [OF Some] by blast
    moreover have "\<not> equal_fold ''smart_status'' k" "k \<noteq> ''smart_status''"
      using "2.prems"(1) by (auto simp: equal_fold_def)
    ultimately have "keeps_smart_status d" using output_fields_keep by metis
    then show ?thesis using 2 Some z by (auto simp: keeps_smart_status_def)
  qed
qed simp

subsection \<open>Repair by a scan\<close>

context disk_monitor
begin

lemma reconciled_in_sync:
  assumes "\<And>extra. \<exists>out. dm_Collect m (di_Path info) extra = Inr out"
  shows "in_sync (reconciled m info d)"
proof -
  have "in_sync (fst (collect_status m base info))" for base
    using assms by (auto simp: collect_status_def Let_def success_in_sync split: sum.split) (metis sum.distinct(1))
  then show ?thesis by (simp add: reconciled_def)
qed

lemma upserts_in_sync:
  assumes "\<And>info extra. info \<in> set infos \<Longrightarrow> \<exists>out. dm_Collect m (di_Path info) extra = Inr out"
    and "info \<in> set infos"
  shows "\<exists>d. foldl (upsert m) A infos (GenerateCRName (node_of m) info) = Some d \<and> in_sync d"
  using assms
proof (induction infos rule: rev_induct)
  case (snoc x xs)
  have "in_sync (reconciled m x d)" for d
    by (rule reconciled_in_sync) (use snoc.prems(1) in simp)
  then show ?case using snoc by (auto simp: upsert_def Let_def)
qed simp

end

subsection \<open>Properties\<close>

text \<open>
  C34: the status patch is not safe against concurrent writers: when another handler has changed the
  health while smartctl ran, and this run failed in a new way, the merged status violates the
  invariant that the health is the reason of the condition Degraded.
\<close>

theorem concurrent_patch_breaks_health_in_sync:
  assumes "status_monitor m" and "status_merge merge"
    and "degraded_in_sync (pd_Status base)" and "Health (pd_Status base) \<noteq> StatusUnset"
    and "Health cur \<noteq> Health (pd_Status base)" and "data_condition_changes m base e"
  shows "\<not> health_in_sync
    (merge (pd_Status base) (pd_Status (fst (applyCollectionFailure m base info e))) cur)"
proof (rule status_merge.merge_out_of_sync [OF assms(2)])
  show "Health (pd_Status (fst (applyCollectionFailure m base info e))) = Health (pd_Status base)"
    using assms(4) by (simp add: failure_fst failed_disk_def)
  then show "Health (pd_Status (fst (applyCollectionFailure m base info e))) \<noteq> StatusUnset"
    using assms(4) by simp
qed (use assms status_monitor.failure_in_sync [OF assms(1,3)]
    status_monitor.failure_changes_conditions [OF assms(1,6,4)] in simp_all)

definition good_disk :: PhysicalDisk where
  "good_disk = fst (applyCollectionSuccess sample_env new_disk sample_info healthy_output)"

lemma healthy: "ar_Status (Evaluate (Some healthy_output)) = StatusGood"
  by code_simp

lemma good_disk_health: "Health (pd_Status good_disk) = StatusGood"
  by (simp add: good_disk_def success_fst setHealth_fst healthy)

theorem concurrent_patch_breaks_health_in_sync_witness:
  "\<not> health_in_sync (merge_status (pd_Status good_disk)
     (pd_Status (fst (applyCollectionFailure sample_env good_disk sample_info DeviceInStandby)))
     (pd_Status new_disk))"
proof (rule concurrent_patch_breaks_health_in_sync [OF sample_monitor merge_status.status_merge_axioms])
  show "degraded_in_sync (pd_Status good_disk)"
    unfolding good_disk_def by (rule status_monitor.success_in_sync [OF sample_monitor])
  obtain c where "find_condition ConditionDataCollected (Conditions (pd_Status good_disk)) = Some c"
    and "same_content c success_condition"
    using status_monitor.data_collected_success [OF sample_monitor] unfolding good_disk_def by blast
  then show "data_condition_changes sample_env good_disk DeviceInStandby"
    by (simp add: data_condition_changes_def same_content_def success_condition_def
        data_condition_def new_condition_def)
qed (simp_all add: good_disk_health new_disk_def empty_PhysicalDiskStatus_def)

text \<open>
  C35: the generated names of two nodes can coincide, and a reconcile does not look at the node of the
  resource it finds.  Whenever the name of one node is that of another followed by a hyphen and the
  beginning of a disk's identifier, the daemon of the former overwrites the status of the latter's
  resource with its own disk and gives it its own label, without an error; only the spec still has
  the node of the other.
\<close>

theorem shared_name_is_overwritten:
  assumes "clean n" "clean a" "clean b" and "raw_id i = a @ ''-'' @ b" and "raw_id j = b"
    and "disk_monitor m" and "node_of m = n @ ''-'' @ a"
    and "api_server (dm_Client m) view (LabelNodeName, node_label m) UNIV"
    and "view (w_api w) (GenerateCRName n i) = Some x"
  shows "fst (reconcileDisk m j w) = None \<and>
    (\<exists>y fw. view (w_api (snd (reconcileDisk m j w))) (GenerateCRName n i) = Some y \<and>
       pd_Spec y = pd_Spec x \<and> Info (pd_Status y) = j\<lparr>di_FirmwareVersion := fw\<rparr> \<and>
       get_prop (pd_Labels y) LabelNodeName = node_label m)"
proof -
  have name: "GenerateCRName (node_of m) j = GenerateCRName n i"
    using shared_name [OF assms(1-5)] assms(7) by simp
  note effect = served_monitor.reconcileDisk_view [OF served_monitor.intro [OF assms(6,8)], of j w]
  have "view (w_api (snd (reconcileDisk m j w))) (GenerateCRName n i) = Some (reconciled m j x)"
    using effect assms(9) by (simp add: upsert_def Let_def name)
  moreover obtain fw where "Info (pd_Status (reconciled m j x)) = j\<lparr>di_FirmwareVersion := fw\<rparr>"
    using reconciled_info by blast
  moreover have "fst (reconcileDisk m j w) = None" using effect by simp
  ultimately show ?thesis using reconciled_spec reconciled_node_label by blast
qed

theorem shared_name_is_overwritten_witness:
  "\<exists>y fw. list_view (w_api (snd (reconcileDisk
       (list_monitor (sample_options\<lparr>mo_NodeName := ''worker-1''\<rparr>) sample_fs (\<lambda>_ _. Inl DeviceInStandby))
       (serial_disk ''abc'') \<lparr>w_api = [worker_disk], w_trace = []\<rparr>)))
     (GenerateCRName ''worker'' (serial_disk ''1-abc'')) = Some y \<and> NodeName (pd_Spec y) = ''worker'' \<and>
     Info (pd_Status y) = (serial_disk ''abc'')\<lparr>di_FirmwareVersion := fw\<rparr>"
proof -
  let ?m = "list_monitor (sample_options\<lparr>mo_NodeName := ''worker-1''\<rparr>) sample_fs (\<lambda>_ _. Inl DeviceInStandby)"
  have "clean ''worker''" "clean ''1''" "clean ''abc''" by code_simp+
  moreover have "raw_id (serial_disk ''1-abc'') = ''1'' @ ''-'' @ ''abc''" "raw_id (serial_disk ''abc'') = ''abc''"
    by (simp_all add: raw_id_def serial_disk_def empty_DiskInfo_def)
  moreover have "node_of ?m = ''worker'' @ ''-'' @ ''1''" by (simp add: list_monitor_node)
  moreover have "list_view [worker_disk] (GenerateCRName ''worker'' (serial_disk ''1-abc'')) = Some (erase worker_disk)"
    by (simp add: list_view_def stored_def worker_disk_def)
  ultimately show ?thesis
    using shared_name_is_overwritten [OF _ _ _ _ _ list_monitor.disk_monitor_axioms _ list_monitor_server,
      where w = "\<lparr>w_api = [worker_disk], w_trace = []\<rparr>" and n = "''worker''" and a = "''1''" and b = "''abc''"]
    by (fastforce simp: worker_disk_def)
qed

text \<open>
  C36: an output that has no member \<^verbatim>\<open>smart_status\<close>, in any spelling that the decoder accepts, is decoded
  to a failed self-assessment, and \<open>Evaluate\<close> reports the most severe status, whatever else it says.
\<close>

theorem missing_smart_status_is_failure:
  assumes "parse_json data = Some (JObject ms)" and "decode_output data = Some d"
    and "list_all (\<lambda>(k, v). \<not> equal_fold ''smart_status'' k) ms"
  shows "ar_Status (Evaluate (Some d)) = StatusSelfAssessmentFailed"
proof (rule Evaluate_not_passed)
  have "so_SmartStatus d = so_SmartStatus zero_SmartctlOutput"
    using assms(1,2) by (intro decode_members_keep [OF assms(3)]) (simp_all add: decode_output_def)
  then show "\<not> Passed (so_SmartStatus d)" by (simp add: zero_SmartctlOutput_def)
qed

theorem missing_smart_status_is_failure_witness:
  "\<exists>d. decode_output ''{\"smartctl\":{\"exit_status\":0},\"smart_support\":{\"available\":true}}'' = Some d \<and>
     ar_Status (Evaluate (Some d)) = StatusSelfAssessmentFailed"
proof -
  let ?data = "''{\"smartctl\":{\"exit_status\":0},\"smart_support\":{\"available\":true}}''"
  obtain ms where ms: "parse_json ?data = Some (JObject ms)"
    and "list_all (\<lambda>(k, v). \<not> equal_fold ''smart_status'' k) ms"
    by (rule that, code_simp) code_simp
  have "decode_output ?data \<noteq> None" by code_simp
  then obtain d where "decode_output ?data = Some d" by blast
  then show ?thesis
    using missing_smart_status_is_failure [OF ms] \<open>list_all _ ms\<close> by blast
qed

text \<open>
  C12: the damage of such a race does not last: whatever the stored statuses are, after a scan that nobody
  disturbs, on a server that answers every call, and whose inventory and collections succeed, the
  health of every discovered disk agrees again with its condition Degraded.
\<close>

theorem scan_restores_health_in_sync:
  assumes "disk_monitor m" and "api_server (dm_Client m) view (LabelNodeName, node_label m) UNIV"
    and "discover m = Inr infos"
    and "\<And>info extra. info \<in> set infos \<Longrightarrow> \<exists>out. dm_Collect m (di_Path info) extra = Inr out"
    and "info \<in> set infos"
  shows "\<exists>d. view (w_api (snd (ReconcileAll m w))) (GenerateCRName (node_of m) info) = Some d \<and>
    health_in_sync (pd_Status d)"
proof -
  have "view (w_api (snd (ReconcileAll m w))) =
      foldl (upsert m) (prune m (set (map (GenerateCRName (node_of m)) infos)) (view (w_api w))) infos"
    using served_monitor.ReconcileAll_view [OF served_monitor.intro [OF assms(1,2)] assms(3) subset_UNIV]
    by blast
  then show ?thesis
    using disk_monitor.upserts_in_sync [OF assms(1,4,5)] degraded_health_in_sync by metis
qed

definition broken_disk :: PhysicalDisk where
  "broken_disk = good_disk\<lparr>pd_Status := (pd_Status good_disk)\<lparr>Health := StatusSectorErrors\<rparr>\<rparr>"

theorem scan_restores_health_in_sync_witness:
  "\<exists>d. list_view (w_api (snd (ReconcileAll
      (list_monitor sample_options sample_fs (\<lambda>_ _. Inr healthy_output))
      \<lparr>w_api = [broken_disk], w_trace = []\<rparr>))) ''node1-0x5000'' = Some d \<and> health_in_sync (pd_Status d)"
proof -
  let ?m = "list_monitor sample_options sample_fs (\<lambda>_ _. Inr healthy_output)"
  have "GenerateCRName (node_of ?m) sample_disk = ''node1-0x5000''"
    by (simp add: list_monitor_def sample_options_def sample_name)
  then show ?thesis
    using scan_restores_health_in_sync [OF list_monitor.disk_monitor_axioms list_monitor_server
        sample_discover [where collect = "\<lambda>_ _. Inr healthy_output"], where info = sample_disk]
    by (simp add: list_monitor_def)
qed

text \<open>
  The event of a missing disk is recorded before the status update, in the function that a conflict
  repeats: one conflict makes two events.
\<close>

theorem conflict_repeats_event:
  "length (act_events (w_trace (snd (markDiskMissing conflict_monitor new_disk ''gone''
     \<lparr>w_api = 0, w_trace = []\<rparr>)))) = 2"
  by code_simp

end
