(* ===== verification/Udev_Watch.thy ===== *)
theory Udev_Watch
  imports Monitor_Loop
begin

text \<open>
  The goroutine that \<^verbatim>\<open>Start\<close> in \<^verbatim>\<open>pkg/controller/physicaldisk_controller.go\<close> runs next to its loop:
  \<^verbatim>\<open>wait.UntilWithContext\<close> calls \<^verbatim>\<open>discovery.Monitor\<close>, and again after a pause, until the context is
  done.  In \<open>Monitor_Loop\<close> a hint may come at any time; here hints come from what the netlink socket
  delivers, and the two parts are put together: every run of the pair is a run of the loop with the
  hints that the goroutine gives (\<open>node_runs_loop\<close>), and a disk that is plugged or pulled is followed
  by a scan, also when the socket was lost in between.
\<close>

subsection \<open>The code\<close>

definition monitorRetryInterval :: int where
  "monitorRetryInterval = 10 * Second"

text \<open>Where the goroutine is: before or in \<open>dial\<close>, in the read of \<open>listen\<close>, in the pause, or over.\<close>

datatype watch_pc = Connecting | Listening | Pausing | WatchEnded

record 's Node =
  nd_Loop :: "'s Loop"
  nd_Watch :: watch_pc

text \<open>
  \<open>Own\<close> is a step of \<open>Monitor_Loop\<close>.  \<open>Connect\<close> has the answers of the system calls of \<open>dial\<close> and of
  \<^verbatim>\<open>SyscallConn\<close>, \<open>Receive\<close> is one round of the receive loop, \<open>Retry\<close> has the length of the pause.
\<close>

datatype node_event =
    Own event
  | Connect SocketOs "string option"
  | Receive read_outcome
  | Retry int
  | WatchEnd

definition hints :: "nat \<Rightarrow> 's Loop \<Rightarrow> 's Loop" where
  "hints k = trigger ^^ k"

text \<open>A failed read tells whether the context is done, and then \<open>listen\<close> returns without an error.\<close>

fun fits_context :: "bool \<Rightarrow> read_outcome \<Rightarrow> bool" where
  "fits_context ctx_done (ReadFailed b e) \<longleftrightarrow> b = ctx_done"
| "fits_context ctx_done _ \<longleftrightarrow> True"

inductive node_step :: "'s DiskMonitor \<Rightarrow> byte_order \<Rightarrow> 's Node \<Rightarrow> node_event \<Rightarrow> 's Node \<Rightarrow> bool"
  for m :: "'s DiskMonitor" and native :: byte_order where
  Own: "e \<noteq> Trigger \<Longrightarrow> loop_step m (nd_Loop n) e l \<Longrightarrow>
    node_step m native n (Own e) (n\<lparr>nd_Loop := l\<rparr>)"
| Connected: "nd_Watch n = Connecting \<Longrightarrow> Monitor os native conn_err [] = Inr (k, Waiting) \<Longrightarrow>
    node_step m native n (Connect os conn_err)
      (n\<lparr>nd_Loop := hints k (nd_Loop n), nd_Watch := Listening\<rparr>)"
| NotConnected: "nd_Watch n = Connecting \<Longrightarrow>
    Monitor os native conn_err [] = Inl e \<or> Monitor os native conn_err [] = Inr (k, ConnError e') \<Longrightarrow>
    node_step m native n (Connect os conn_err) (n\<lparr>nd_Watch := Pausing\<rparr>)"
| Received: "nd_Watch n = Listening \<Longrightarrow> fits_context (lp_Done (nd_Loop n)) x \<Longrightarrow>
    listen_loop native [x] 0 = (k, exit) \<Longrightarrow>
    node_step m native n (Receive x) (n\<lparr>nd_Loop := hints k (nd_Loop n),
      nd_Watch := (if exit = Waiting then Listening else Pausing)\<rparr>)"
| Retry: "nd_Watch n = Pausing \<Longrightarrow> \<not> lp_Done (nd_Loop n) \<Longrightarrow> monitorRetryInterval \<le> pause \<Longrightarrow>
    node_step m native n (Retry pause) (n\<lparr>nd_Watch := Connecting\<rparr>)"
| WatchEnd: "nd_Watch n \<in> {Connecting, Pausing} \<Longrightarrow> lp_Done (nd_Loop n) \<Longrightarrow>
    node_step m native n WatchEnd (n\<lparr>nd_Watch := WatchEnded\<rparr>)"

inductive_cases node_stepE: "node_step m native n e n'"

inductive_simps node_step_simps:
  "node_step m native n (Own e) n'" "node_step m native n (Connect os conn_err) n'"
  "node_step m native n (Receive x) n'" "node_step m native n (Retry pause) n'"
  "node_step m native n WatchEnd n'"

inductive node_runs :: "'s DiskMonitor \<Rightarrow> byte_order \<Rightarrow> 's Node \<Rightarrow> node_event list \<Rightarrow> 's Node \<Rightarrow> bool"
  for m :: "'s DiskMonitor" and native :: byte_order where
  node_Nil: "node_runs m native n [] n"
| node_Cons: "node_step m native n e n' \<Longrightarrow> node_runs m native n' es n'' \<Longrightarrow> node_runs m native n (e # es) n''"

inductive_simps node_runs_simps: "node_runs m native n [] n'" "node_runs m native n (e # es) n'"

text \<open>The node when \<open>Start\<close> enters its loop.\<close>

definition node_start :: "'s Loop \<Rightarrow> 's Node" where
  "node_start l = \<lparr>nd_Loop = l, nd_Watch = Connecting\<rparr>"

subsection \<open>The loop in a node\<close>

text \<open>The hints that a step of the goroutine gives.\<close>

fun hints_of :: "byte_order \<Rightarrow> node_event \<Rightarrow> nat" where
  "hints_of native (Connect os conn_err) =
     (case Monitor os native conn_err [] of Inl e \<Rightarrow> 0 | Inr (k, exit) \<Rightarrow> k)"
| "hints_of native (Receive x) = fst (listen_loop native [x] 0)"
| "hints_of native _ = 0"

fun loop_events :: "byte_order \<Rightarrow> node_event list \<Rightarrow> event list" where
  "loop_events native [] = []"
| "loop_events native (Own e # es) = e # loop_events native es"
| "loop_events native (e # es) = replicate (hints_of native e) Trigger @ loop_events native es"

lemma loop_events_append:
  "loop_events native (es @ fs) = loop_events native es @ loop_events native fs"
  by (induction native es rule: loop_events.induct) simp_all

lemma hints_run: "runs m l (replicate k Trigger) (hints k l)"
proof (induction k)
  case (Suc k)
  have "runs m l (replicate k Trigger @ [Trigger]) (trigger (hints k l))"
    using Suc Trigger by (auto simp: runs_append runs_simps)
  then show ?case by (simp add: hints_def replicate_append_same)
qed (simp add: hints_def runs_simps)

lemma monitor_empty:
  "Monitor os native conn_err [] = Inr (k, exit) \<longleftrightarrow> fst (dial os) = None \<and>
     (case conn_err of None \<Rightarrow> k = 1 \<and> exit = Waiting | Some e \<Rightarrow> k = 0 \<and> exit = ConnError e)"
  by (auto simp: Monitor_def listen_def split: option.splits)

lemma monitor_fails: "Monitor os native conn_err [] = Inl e \<longleftrightarrow> fst (dial os) = Some e"
  by (auto simp: Monitor_def split: option.splits)

lemma hints_of_connect:
  "hints_of native (Connect os conn_err) = (if fst (dial os) = None \<and> conn_err = None then 1 else 0)"
  by (simp add: Monitor_def listen_def split: option.split)

declare hints_of.simps(1) [simp del]

lemma one_hint: "loop_step m l Trigger (hints (Suc 0) l)"
  using Trigger [of m l] by (simp add: hints_def)

lemma node_step_runs:
  "node_step m native n e n' \<Longrightarrow> runs m (nd_Loop n) (loop_events native [e]) (nd_Loop n')"
  by (erule node_stepE)
    (auto simp: runs_simps hints_run one_hint monitor_empty monitor_fails
      hints_of_connect split: option.splits)

lemma node_runs_loop:
  "node_runs m native n es n' \<Longrightarrow> runs m (nd_Loop n) (loop_events native es) (nd_Loop n')"
proof (induction rule: node_runs.induct)
  case (node_Cons n e n' es n'')
  have "loop_events native (e # es) = loop_events native [e] @ loop_events native es"
    using loop_events_append [of native "[e]" es] by simp
  then show ?case using node_step_runs [OF node_Cons.hyps(1)] node_Cons.IH by (auto simp: runs_append)
qed (simp add: runs_simps)

subsection \<open>From a hint to a scan\<close>

text \<open>The steps of the goroutine that ask for a scan: a socket that is bound, and a lost or telling message.\<close>

fun asks_for_scan :: "byte_order \<Rightarrow> node_event \<Rightarrow> bool" where
  "asks_for_scan native (Connect os conn_err) \<longleftrightarrow> fst (dial os) = None \<and> conn_err = None"
| "asks_for_scan native (Receive x) \<longleftrightarrow> demands_rescan native x"
| "asks_for_scan native _ \<longleftrightarrow> False"

lemma listen_one: "listen_loop native [x] n = (if demands_rescan native x then n + 1 else n, exit_of x)"
  by (cases x rule: exit_of.cases) (auto simp: listen_loop_spec)

lemma asks_for_scan_hints: "asks_for_scan native e \<Longrightarrow> 0 < hints_of native e"
  by (cases e) (simp_all add: hints_of_connect listen_one)

lemma hints_dirty: "lp_Dirty (hints k l) \<longleftrightarrow> 0 < k \<or> lp_Dirty l"
  by (cases k) (simp_all add: hints_def trigger_def)

lemma asks_for_scan_dirty:
  assumes "node_step m native n e n'" and "asks_for_scan native e"
  shows "lp_Dirty (nd_Loop n')"
  using assms asks_for_scan_hints [OF assms(2)]
  by (auto elim!: node_stepE simp: hints_dirty monitor_empty monitor_fails hints_of_connect split: option.splits)

lemma ScanStart_loop_events: "ScanStart \<in> set (loop_events native es) \<longleftrightarrow> Own ScanStart \<in> set es"
  by (induction native es rule: loop_events.induct) auto

lemma owed_until_scan: "ScanStart \<notin> set es \<Longrightarrow> owed True es"
  by (induction "True" es rule: owed.induct) simp_all

lemma hint_leads_to_scan:
  assumes "lp_Dirty l" and "runs m l es l'" and "lp_Pc l' \<noteq> Returned" and "ScanStart \<notin> set es"
  shows "length (filter loop_event es) < 5" and "\<exists>e l''. own_step e \<and> loop_step m l' e l''"
proof -
  have "distance (lp_Pc l) \<le> 4" by (cases "lp_Pc l") simp_all
  then show "length (filter loop_event es) < 5" using scan_within [OF assms(2-4)] by linarith
  have "on_the_way l" using assms(1) by (simp add: on_the_way_def)
  then show "\<exists>e l''. own_step e \<and> loop_step m l' e l''"
    using owed_on_the_way [OF assms(2), of True] owed_until_scan [OF assms(4)] progress [OF _ assms(3)]
    by simp
qed

lemma done_step: "node_step m native n e n' \<Longrightarrow> (nd_Watch n = WatchEnded \<longrightarrow> lp_Done (nd_Loop n)) \<Longrightarrow>
    nd_Watch n' = WatchEnded \<longrightarrow> lp_Done (nd_Loop n')"
  by (erule node_stepE) (auto elim!: loop_stepE simp: loop_updates split: if_splits)

lemma ended_when_done: "node_runs m native n es n' \<Longrightarrow> (nd_Watch n = WatchEnded \<longrightarrow> lp_Done (nd_Loop n)) \<Longrightarrow>
    nd_Watch n' = WatchEnded \<longrightarrow> lp_Done (nd_Loop n')"
  by (induction rule: node_runs.induct) (simp_all add: done_step)

subsection \<open>Properties\<close>

text \<open>
  C3: a disk that is plugged or pulled is followed by a scan: after a message that announces it or tells
  that messages were lost, and after every (re)connection of the socket (which covers what happened
  in between), a scan starts before the fifth step of the loop, and until then the loop can make a
  step without waiting for the ticker or for anyone else.
\<close>

theorem disk_change_leads_to_scan:
  assumes "node_step m native n e n1" and "asks_for_scan native e"
    and "node_runs m native n1 es n2" and "lp_Pc (nd_Loop n2) \<noteq> Returned"
    and "Own ScanStart \<notin> set es"
  shows "length (filter loop_event (loop_events native es)) < 5 \<and>
    (\<exists>e n3. own_step e \<and> node_step m native n2 (Own e) n3)"
proof -
  have "ScanStart \<notin> set (loop_events native es)" using assms(5) by (simp add: ScanStart_loop_events)
  note scan = hint_leads_to_scan [OF asks_for_scan_dirty [OF assms(1,2)] node_runs_loop [OF assms(3)]
      assms(4) this]
  obtain e' l where "own_step e'" and "loop_step m (nd_Loop n2) e' l" using scan(2) by blast
  moreover from this have "node_step m native n2 (Own e') (n2\<lparr>nd_Loop := l\<rparr>)"
    by (intro Own) (auto simp: own_step_def)
  ultimately show ?thesis using scan(1) by blast
qed

text \<open>
  C13: a lost socket is replaced: as long as the context is not done, the goroutine can get back to its
  socket in at most two steps if the system calls succeed, and a scan is asked for when it was away.
\<close>

theorem lost_socket_recovers:
  assumes "node_runs m native (node_start l0) es n" and "\<not> lp_Done (nd_Loop n)"
    and "fst (dial os) = None"
  shows "\<exists>fs n'. node_runs m native n fs n' \<and> length fs \<le> 2 \<and> nd_Watch n' = Listening \<and>
    (nd_Watch n \<noteq> Listening \<longrightarrow> lp_Dirty (nd_Loop n'))"
proof -
  let ?bound = "\<lambda>n. n\<lparr>nd_Loop := hints 1 (nd_Loop n), nd_Watch := Listening\<rparr>"
  have connect: "node_step m native n (Connect os None) (?bound n)" if "nd_Watch n = Connecting" for n
    using that assms(3) by (intro Connected) (simp_all add: monitor_empty)
  have "nd_Watch n \<noteq> WatchEnded" using ended_when_done [OF assms(1)] assms(2) by (auto simp: node_start_def)
  then consider "nd_Watch n = Listening" | "nd_Watch n = Connecting" | "nd_Watch n = Pausing"
    by (cases "nd_Watch n") simp_all
  then show ?thesis
  proof cases
    case 1
    then show ?thesis by (intro exI [of _ "[]"] exI [of _ n]) (simp add: node_runs_simps)
  next
    case 2
    then show ?thesis using connect [of n]
      by (intro exI [of _ "[Connect os None]"] exI [of _ "?bound n"])
        (auto simp: node_runs_simps hints_dirty)
  next
    case 3
    let ?n = "n\<lparr>nd_Watch := Connecting\<rparr>"
    have "node_step m native n (Retry monitorRetryInterval) ?n" using 3 assms(2) by (intro Retry) simp_all
    then have "node_runs m native n [Retry monitorRetryInterval, Connect os None] (?bound ?n)"
      using connect [of ?n] by (auto intro!: node_Cons node_Nil)
    then show ?thesis
      by (intro exI [of _ "[Retry monitorRetryInterval, Connect os None]"] exI [of _ "?bound ?n"])
        (simp add: hints_dirty)
  qed
qed

subsection \<open>An example\<close>

definition good_sockets :: SocketOs where
  "good_sockets = \<lparr>sk_Open = None, sk_Force = Some ''EPERM'', sk_Bind = None\<rparr>"

lemma good_dial: "fst (dial good_sockets) = None"
  by (simp add: dial_def good_sockets_def)

text \<open>A node that has connected, lost its socket, and connected again.\<close>

definition session_events :: "node_event list" where
  "session_events = [Receive (Datagram True []), Own TakeDirty,
     Receive (RecvError (OtherErrno ''EBADF''))]"

definition listening :: "PhysicalDisk list Node" where
  "listening = \<lparr>nd_Loop = first_loop, nd_Watch = Listening\<rparr>"

lemma sample_connect:
  "node_step started LittleEndian (node_start first_loop) (Connect good_sockets None) listening"
  using good_dial
  by (simp add: node_step_simps node_start_def monitor_empty monitor_fails listening_def hints_def
      trigger_def first_loop_def)

definition lost :: "PhysicalDisk list Node" where
  "lost = \<lparr>nd_Loop = first_loop\<lparr>lp_Pc := Debouncing, lp_Dirty := False\<rparr>, nd_Watch = Pausing\<rparr>"

lemma sample_session: "node_runs started LittleEndian listening session_events lost"
  by (simp add: session_events_def node_runs_simps node_step_simps loop_step_simps listen_one
      listening_def lost_def first_loop_def hints_def trigger_def drain_def)

theorem disk_change_leads_to_scan_witness:
  "\<exists>e n3. own_step e \<and> node_step started LittleEndian listening (Own e) n3"
  using disk_change_leads_to_scan [OF sample_connect _ node_Nil] good_dial
  by (simp add: listening_def first_loop_def)

theorem lost_socket_recovers_witness:
  "\<exists>fs n'. node_runs started LittleEndian lost fs n' \<and> length fs \<le> 2 \<and> nd_Watch n' = Listening \<and>
     lp_Dirty (nd_Loop n')"
  using lost_socket_recovers [OF node_Cons [OF sample_connect sample_session] _ good_dial]
  by (simp add: lost_def first_loop_def)

end
