(* ===== verification/Go_Heap.thy ===== *)
theory Go_Heap
  imports Prelude
begin

text \<open>
  Memory of a Go program, for the one place where the sources depend on aliasing: the deep copies
  of \<^verbatim>\<open>zz_generated.deepcopy.go\<close>.  A heap is the list of the cells allocated so far, an address is a
  position in it; memory is never reused while a pointer to it exists.  A pointer is an \<open>option\<close> of
  an address, a slice an \<open>option\<close> of the address of its array with an offset and a length.

  The locale \<open>copier\<close> is the contract of a deep copy of a type: the copy stands for the same value
  and shares no memory with anything that existed before.  The contract is closed under pairs,
  lists, records, pointers and slices.
\<close>

type_synonym addr = nat

type_synonym 'c heap = "'c list"

type_synonym slice = "addr \<times> nat \<times> nat"

definition alloc :: "'c \<Rightarrow> 'c heap \<Rightarrow> addr \<times> 'c heap" where
  "alloc c h = (length h, h @ [c])"

text \<open>A sequence of assignments through pointers.\<close>

definition writes :: "(addr \<times> 'c) list \<Rightarrow> 'c heap \<Rightarrow> 'c heap" where
  "writes ws h = foldl (\<lambda>h (a, c). h[a := c]) h ws"

lemma length_writes [simp]: "length (writes ws h) = length h"
  by (induction ws arbitrary: h) (auto simp: writes_def)

lemma nth_writes: "a \<notin> fst ` set ws \<Longrightarrow> writes ws h ! a = h ! a"
  by (induction ws arbitrary: h) (auto simp: writes_def)

lemma prefix_nth: "prefix h h' \<Longrightarrow> a < length h \<Longrightarrow> a < length h' \<and> h' ! a = h ! a"
  by (auto simp: prefix_def nth_append)

subsection \<open>The contract of a deep copy\<close>

locale copier =
  fixes load :: "'c heap \<Rightarrow> 'a \<Rightarrow> 'v option"
    and foot :: "'c heap \<Rightarrow> 'a \<Rightarrow> addr set"
    and copy :: "'a \<Rightarrow> 'c heap \<Rightarrow> 'a \<times> 'c heap"
  assumes foot_bound: "load h x = Some v \<Longrightarrow> a \<in> foot h x \<Longrightarrow> a < length h"
    and frame: "load h x = Some v \<Longrightarrow> (\<And>a. a \<in> foot h x \<Longrightarrow> a < length h' \<and> h' ! a = h ! a) \<Longrightarrow>
      load h' x = Some v \<and> foot h' x = foot h x"
    and result: "load h x = Some v \<Longrightarrow> copy x h = (y, h') \<Longrightarrow>
      prefix h h' \<and> load h' y = Some v \<and> (\<forall>a \<in> foot h' y. length h \<le> a)"
begin

lemma grown: "load h x = Some v \<Longrightarrow> prefix h h' \<Longrightarrow> load h' x = Some v \<and> foot h' x = foot h x"
  by (rule frame) (auto dest: foot_bound prefix_nth)

lemma copy_survives:
  assumes "load h x = Some v" and "copy x h = (y, h')" and "\<forall>a \<in> fst ` set ws. a < length h"
  shows "load (writes ws h') y = Some v"
proof -
  have y: "load h' y = Some v" and fresh: "\<forall>a \<in> foot h' y. length h \<le> a"
    using result [OF assms(1,2)] by blast+
  have "a < length (writes ws h') \<and> writes ws h' ! a = h' ! a" if "a \<in> foot h' y" for a
    using foot_bound [OF y that] fresh that assms(3) by (fastforce intro!: nth_writes)
  then show ?thesis using frame [OF y] by blast
qed

lemma original_survives:
  assumes "load h x = Some v" and "copy x h = (y, h')" and "\<forall>a \<in> fst ` set ws. length h \<le> a"
  shows "load (writes ws h') x = Some v"
proof -
  have x: "load h' x = Some v \<and> foot h' x = foot h x"
    using grown [OF assms(1)] result [OF assms(1,2)] by blast
  have "a < length (writes ws h') \<and> writes ws h' ! a = h' ! a" if "a \<in> foot h' x" for a
    using foot_bound [OF assms(1), of a] foot_bound [of h' x v a] x that assms(3)
    by (fastforce intro!: nth_writes)
  then show ?thesis using frame [of h' x v] x by blast
qed

end

subsection \<open>Values without pointers\<close>

definition copy_plain :: "'a \<Rightarrow> 'c heap \<Rightarrow> 'a \<times> 'c heap" where
  "copy_plain x h = (x, h)"

definition load_plain :: "'c heap \<Rightarrow> 'a \<Rightarrow> 'a option" where
  "load_plain h x = Some x"

definition foot_plain :: "'c heap \<Rightarrow> 'a \<Rightarrow> addr set" where
  "foot_plain h x = {}"

interpretation plain: copier load_plain foot_plain copy_plain
  by unfold_locales (auto simp: load_plain_def foot_plain_def copy_plain_def)

subsection \<open>Pairs and records\<close>

definition load_pair ::
  "('c heap \<Rightarrow> 'a \<Rightarrow> 'v option) \<Rightarrow> ('c heap \<Rightarrow> 'b \<Rightarrow> 'w option) \<Rightarrow> 'c heap \<Rightarrow> 'a \<times> 'b \<Rightarrow> ('v \<times> 'w) option"
where
  "load_pair l1 l2 h = (\<lambda>(x, y). case l1 h x of None \<Rightarrow> None
     | Some v \<Rightarrow> (case l2 h y of None \<Rightarrow> None | Some w \<Rightarrow> Some (v, w)))"

definition foot_pair ::
  "('c heap \<Rightarrow> 'a \<Rightarrow> addr set) \<Rightarrow> ('c heap \<Rightarrow> 'b \<Rightarrow> addr set) \<Rightarrow> 'c heap \<Rightarrow> 'a \<times> 'b \<Rightarrow> addr set" where
  "foot_pair f1 f2 h = (\<lambda>(x, y). f1 h x \<union> f2 h y)"

definition copy_pair ::
  "('a \<Rightarrow> 'c heap \<Rightarrow> 'a \<times> 'c heap) \<Rightarrow> ('b \<Rightarrow> 'c heap \<Rightarrow> 'b \<times> 'c heap) \<Rightarrow>
   'a \<times> 'b \<Rightarrow> 'c heap \<Rightarrow> ('a \<times> 'b) \<times> 'c heap" where
  "copy_pair c1 c2 = (\<lambda>(x, y) h. let (x, h) = c1 x h; (y, h) = c2 y h in ((x, y), h))"

lemma load_pair_Some: "load_pair l1 l2 h (x, y) = Some (v, w) \<longleftrightarrow> l1 h x = Some v \<and> l2 h y = Some w"
  by (simp add: load_pair_def split: option.split)

lemma copier_pair:
  assumes a: "copier l1 f1 c1" and b: "copier l2 f2 c2"
  shows "copier (load_pair l1 l2) (foot_pair f1 f2) (copy_pair c1 c2)"
proof
  fix h p vw a
  assume "load_pair l1 l2 h p = Some vw" and "a \<in> foot_pair f1 f2 h p"
  then show "a < length h"
    using copier.foot_bound [OF a] copier.foot_bound [OF b]
    by (cases p; cases vw) (auto simp: load_pair_Some foot_pair_def)
next
  fix h p vw h'
  assume l: "load_pair l1 l2 h p = Some vw"
    and same: "\<And>a. a \<in> foot_pair f1 f2 h p \<Longrightarrow> a < length h' \<and> h' ! a = h ! a"
  obtain x y v w where p: "p = (x, y)" "vw = (v, w)" by fastforce
  with l have x: "l1 h x = Some v" and y: "l2 h y = Some w" by (simp_all add: load_pair_Some)
  have "l1 h' x = Some v \<and> f1 h' x = f1 h x"
    by (rule copier.frame [OF a x]) (simp add: same p foot_pair_def)
  moreover have "l2 h' y = Some w \<and> f2 h' y = f2 h y"
    by (rule copier.frame [OF b y]) (simp add: same p foot_pair_def)
  ultimately show "load_pair l1 l2 h' p = Some vw \<and> foot_pair f1 f2 h' p = foot_pair f1 f2 h p"
    by (simp add: p load_pair_Some foot_pair_def)
next
  fix h p vw q h'
  assume l: "load_pair l1 l2 h p = Some vw" and c: "copy_pair c1 c2 p h = (q, h')"
  obtain x y v w where p: "p = (x, y)" "vw = (v, w)" by fastforce
  with l have x: "l1 h x = Some v" and y: "l2 h y = Some w" by (simp_all add: load_pair_Some)
  obtain x' h1 where c1: "c1 x h = (x', h1)" by fastforce
  obtain y' h2 where c2: "c2 y h1 = (y', h2)" by fastforce
  have q: "q = (x', y')" "h' = h2" using c p c1 c2 by (simp_all add: copy_pair_def)
  note r1 = copier.result [OF a x c1]
  have y1: "l2 h1 y = Some w" using copier.grown [OF b y] r1 by blast
  note r2 = copier.result [OF b y1 c2]
  have "l1 h2 x' = Some v \<and> f1 h2 x' = f1 h1 x'" using copier.grown [OF a] r1 r2 by blast
  moreover have "length h \<le> length h1" using r1 by (auto dest: prefix_length_le)
  ultimately show "prefix h h' \<and> load_pair l1 l2 h' q = Some vw \<and>
      (\<forall>a \<in> foot_pair f1 f2 h' q. length h \<le> a)"
    using r1 r2 by (auto simp: q p load_pair_Some foot_pair_def intro: prefix_order.trans)
qed

text \<open>
  A record: \<open>part\<close> selects its fields with pointers, \<open>set_part\<close> replaces them, \<open>make\<close> builds the
  value from the other fields and the loaded ones.
\<close>

definition load_via ::
  "('a \<Rightarrow> 't) \<Rightarrow> ('a \<Rightarrow> 'v \<Rightarrow> 'w) \<Rightarrow> ('c heap \<Rightarrow> 't \<Rightarrow> 'v option) \<Rightarrow> 'c heap \<Rightarrow> 'a \<Rightarrow> 'w option" where
  "load_via part make l h x = map_option (make x) (l h (part x))"

definition foot_via :: "('a \<Rightarrow> 't) \<Rightarrow> ('c heap \<Rightarrow> 't \<Rightarrow> addr set) \<Rightarrow> 'c heap \<Rightarrow> 'a \<Rightarrow> addr set" where
  "foot_via part f h x = f h (part x)"

definition copy_via ::
  "('a \<Rightarrow> 't) \<Rightarrow> ('a \<Rightarrow> 't \<Rightarrow> 'a) \<Rightarrow> ('t \<Rightarrow> 'c heap \<Rightarrow> 't \<times> 'c heap) \<Rightarrow> 'a \<Rightarrow> 'c heap \<Rightarrow> 'a \<times> 'c heap" where
  "copy_via part set_part c x h = (let (t, h) = c (part x) h in (set_part x t, h))"

lemma copier_via:
  assumes dc: "\<And>x h. deep_copy x h = copy_via part set_part c x h"
    and part: "\<And>x t. part (set_part x t) = t"
    and make: "\<And>x t v. make (set_part x t) v = make x v" and c: "copier l f c"
  shows "copier (load_via part make l) (foot_via part f) deep_copy"
proof
  fix h x w a
  assume "load_via part make l h x = Some w" and "a \<in> foot_via part f h x"
  then show "a < length h"
    using copier.foot_bound [OF c] by (auto simp: load_via_def foot_via_def)
next
  fix h x w h'
  assume "load_via part make l h x = Some w"
    and same: "\<And>a. a \<in> foot_via part f h x \<Longrightarrow> a < length h' \<and> h' ! a = h ! a"
  then obtain v where v: "l h (part x) = Some v" "w = make x v" by (auto simp: load_via_def)
  have "l h' (part x) = Some v \<and> f h' (part x) = f h (part x)"
    by (rule copier.frame [OF c v(1)]) (simp add: same foot_via_def)
  then show "load_via part make l h' x = Some w \<and> foot_via part f h' x = foot_via part f h x"
    by (simp add: load_via_def foot_via_def v)
next
  fix h x w y h'
  assume "load_via part make l h x = Some w" and y: "deep_copy x h = (y, h')"
  then obtain v where v: "l h (part x) = Some v" "w = make x v" by (auto simp: load_via_def)
  obtain t where t: "c (part x) h = (t, h')" and "y = set_part x t"
    using y by (auto simp: dc copy_via_def split: prod.splits)
  then show "prefix h h' \<and> load_via part make l h' y = Some w \<and>
      (\<forall>a \<in> foot_via part f h' y. length h \<le> a)"
    using copier.result [OF c v(1) t] by (simp add: load_via_def foot_via_def v part make)
qed

subsection \<open>Lists\<close>

fun load_list :: "('c heap \<Rightarrow> 'a \<Rightarrow> 'v option) \<Rightarrow> 'c heap \<Rightarrow> 'a list \<Rightarrow> 'v list option" where
  "load_list l h [] = Some []"
| "load_list l h (x # xs) = (case l h x of None \<Rightarrow> None
     | Some v \<Rightarrow> (case load_list l h xs of None \<Rightarrow> None | Some vs \<Rightarrow> Some (v # vs)))"

definition foot_list :: "('c heap \<Rightarrow> 'a \<Rightarrow> addr set) \<Rightarrow> 'c heap \<Rightarrow> 'a list \<Rightarrow> addr set" where
  "foot_list f h xs = (\<Union>x \<in> set xs. f h x)"

fun copy_list :: "('a \<Rightarrow> 'c heap \<Rightarrow> 'a \<times> 'c heap) \<Rightarrow> 'a list \<Rightarrow> 'c heap \<Rightarrow> 'a list \<times> 'c heap" where
  "copy_list c [] h = ([], h)"
| "copy_list c (x # xs) h = (let (x, h) = c x h; (xs, h) = copy_list c xs h in (x # xs, h))"

lemma load_list_Cons: "load_list l h (x # xs) = Some vs \<longleftrightarrow>
    (\<exists>v us. vs = v # us \<and> load_pair l (load_list l) h (x, xs) = Some (v, us))"
  by (auto simp: load_pair_Some split: option.splits)

text \<open>A list is handled like the pair of its head and its tail.\<close>

lemma copier_list:
  assumes c: "copier l f c"
  shows "copier (load_list l) (foot_list f) (copy_list c)"
proof
  fix h xs vs a
  assume "load_list l h xs = Some vs" and "a \<in> foot_list f h xs"
  then show "a < length h"
    by (induction xs arbitrary: vs)
      (auto simp: foot_list_def dest: copier.foot_bound [OF c] split: option.splits)
next
  fix h xs vs h'
  assume "load_list l h xs = Some vs"
    and "\<And>a. a \<in> foot_list f h xs \<Longrightarrow> a < length h' \<and> h' ! a = h ! a"
  then show "load_list l h' xs = Some vs \<and> foot_list f h' xs = foot_list f h xs"
  proof (induction xs arbitrary: vs)
    case (Cons x xs)
    from Cons.prems(1) obtain v us where v: "l h x = Some v" "load_list l h xs = Some us"
      and vs: "vs = v # us" by (auto split: option.splits)
    have "l h' x = Some v \<and> f h' x = f h x"
      by (rule copier.frame [OF c v(1)]) (simp add: Cons.prems(2) foot_list_def)
    moreover have "load_list l h' xs = Some us \<and> foot_list f h' xs = foot_list f h xs"
      by (rule Cons.IH [OF v(2)]) (use Cons.prems(2) in \<open>simp add: foot_list_def\<close>)
    ultimately show ?case by (simp add: vs foot_list_def)
  qed (simp add: foot_list_def)
next
  fix h xs vs ys h'
  assume "load_list l h xs = Some vs" and "copy_list c xs h = (ys, h')"
  then show "prefix h h' \<and> load_list l h' ys = Some vs \<and> (\<forall>a \<in> foot_list f h' ys. length h \<le> a)"
  proof (induction xs arbitrary: vs ys h h')
    case (Cons x xs)
    from Cons.prems(1) obtain v us where v: "l h x = Some v" "load_list l h xs = Some us"
      and vs: "vs = v # us" by (auto split: option.splits)
    obtain x' h1 where x': "c x h = (x', h1)" by fastforce
    obtain xs' h2 where xs': "copy_list c xs h1 = (xs', h2)" by fastforce
    have ys: "ys = x' # xs'" "h' = h2" using Cons.prems(2) x' xs' by simp_all
    note r1 = copier.result [OF c v(1) x']
    have "load_list l h1 xs = Some us"
      using v(2) r1
    proof (induction xs arbitrary: us)
      case (Cons z zs)
      then show ?case by (auto dest: copier.grown [OF c] split: option.splits)
    qed simp
    note r2 = Cons.IH [OF this xs']
    have "l h2 x' = Some v \<and> f h2 x' = f h1 x'" using copier.grown [OF c] r1 r2 by blast
    moreover have "length h \<le> length h1" using r1 by (auto dest: prefix_length_le)
    ultimately show ?case
      using r1 r2 by (auto simp: ys vs foot_list_def intro: prefix_order.trans order.trans)
  qed (simp add: foot_list_def)
qed

subsection \<open>Pointers and slices\<close>

text \<open>The value \<^verbatim>\<open>nil\<close> is copied to \<^verbatim>\<open>nil\<close>.\<close>

definition load_nil :: "('c heap \<Rightarrow> 'r \<Rightarrow> 'v option) \<Rightarrow> 'c heap \<Rightarrow> 'r option \<Rightarrow> 'v option option" where
  "load_nil l h p = (case p of None \<Rightarrow> Some None | Some r \<Rightarrow> map_option Some (l h r))"

definition foot_nil :: "('c heap \<Rightarrow> 'r \<Rightarrow> addr set) \<Rightarrow> 'c heap \<Rightarrow> 'r option \<Rightarrow> addr set" where
  "foot_nil f h p = (case p of None \<Rightarrow> {} | Some r \<Rightarrow> f h r)"

definition copy_nil ::
  "('r \<Rightarrow> 'c heap \<Rightarrow> 'r \<times> 'c heap) \<Rightarrow> 'r option \<Rightarrow> 'c heap \<Rightarrow> 'r option \<times> 'c heap" where
  "copy_nil c p h = (case p of None \<Rightarrow> (None, h) | Some r \<Rightarrow> (let (q, h) = c r h in (Some q, h)))"

lemma copier_nil:
  assumes "copier l f c"
  shows "copier (load_nil l) (foot_nil f) (copy_nil c)"
proof
  fix h p v a
  assume "load_nil l h p = Some v" and "a \<in> foot_nil f h p"
  then show "a < length h"
    using copier.foot_bound [OF assms] by (auto simp: load_nil_def foot_nil_def split: option.splits)
next
  fix h p v h'
  assume "load_nil l h p = Some v"
    and "\<And>a. a \<in> foot_nil f h p \<Longrightarrow> a < length h' \<and> h' ! a = h ! a"
  then show "load_nil l h' p = Some v \<and> foot_nil f h' p = foot_nil f h p"
    using copier.frame [OF assms, of h "the p" "the v" h']
    by (cases p) (auto simp: load_nil_def foot_nil_def)
next
  fix h p v q h'
  assume l: "load_nil l h p = Some v" and q: "copy_nil c p h = (q, h')"
  show "prefix h h' \<and> load_nil l h' q = Some v \<and> (\<forall>a \<in> foot_nil f h' q. length h \<le> a)"
  proof (cases p)
    case (Some r)
    then obtain w where w: "l h r = Some w" and v: "v = Some w"
      using l by (auto simp: load_nil_def)
    obtain r' where "c r h = (r', h')" and "q = Some r'"
      using q by (auto simp: copy_nil_def Some split: prod.splits)
    then show ?thesis
      using copier.result [OF assms w] by (auto simp: load_nil_def foot_nil_def v)
  qed (use l q in \<open>simp add: load_nil_def foot_nil_def copy_nil_def\<close>)
qed

text \<open>
  A reference of type \<open>'r\<close> to contents of type \<open>'a\<close>: \<open>at\<close> is the address of its cell, \<open>read\<close> what it
  refers to, \<open>box\<close> the cell with given contents, \<open>ref\<close> the reference to all of a cell.
\<close>

definition load_ref ::
  "('c heap \<Rightarrow> 'r \<Rightarrow> 'a option) \<Rightarrow> ('c heap \<Rightarrow> 'a \<Rightarrow> 'v option) \<Rightarrow> 'c heap \<Rightarrow> 'r \<Rightarrow> 'v option" where
  "load_ref read l h r = (case read h r of None \<Rightarrow> None | Some x \<Rightarrow> l h x)"

definition foot_ref ::
  "('c heap \<Rightarrow> 'r \<Rightarrow> 'a option) \<Rightarrow> ('r \<Rightarrow> addr) \<Rightarrow> ('c heap \<Rightarrow> 'a \<Rightarrow> addr set) \<Rightarrow>
   'c heap \<Rightarrow> 'r \<Rightarrow> addr set" where
  "foot_ref read at f h r = insert (at r) (case read h r of None \<Rightarrow> {} | Some x \<Rightarrow> f h x)"

text \<open>
  \<^verbatim>\<open>*out = new(T); (**in).DeepCopyInto(*out)\<close>: a new cell is allocated, the contents are copied, and
  the cell is filled; \<open>blank\<close> is the new cell, whose zero value nothing reads.  That the reference
  has contents of its type is what the Go type system guarantees.
\<close>

definition copy_ref ::
  "'c \<Rightarrow> ('c heap \<Rightarrow> 'r \<Rightarrow> 'a option) \<Rightarrow> ('a \<Rightarrow> 'c) \<Rightarrow> (addr \<Rightarrow> 'a \<Rightarrow> 'r) \<Rightarrow>
   ('a \<Rightarrow> 'c heap \<Rightarrow> 'a \<times> 'c heap) \<Rightarrow> 'r \<Rightarrow> 'c heap \<Rightarrow> 'r \<times> 'c heap" where
  "copy_ref blank read box ref c r h =
     (let x = the (read h r);
          (a, h) = alloc blank h;
          (y, h) = c x h
      in (ref a y, h[a := box y]))"

locale reference =
  fixes read :: "'c heap \<Rightarrow> 'r \<Rightarrow> 'a option"
    and at :: "'r \<Rightarrow> addr"
    and box :: "'a \<Rightarrow> 'c"
    and ref :: "addr \<Rightarrow> 'a \<Rightarrow> 'r"
  assumes read_bound: "read h r = Some x \<Longrightarrow> at r < length h"
    and read_frame: "read h r = Some x \<Longrightarrow> at r < length h' \<Longrightarrow> h' ! at r = h ! at r \<Longrightarrow>
      read h' r = Some x"
    and read_ref: "a < length h \<Longrightarrow> h ! a = box x \<Longrightarrow> read h (ref a x) = Some x"
    and at_ref: "at (ref a x) = a"
begin

lemma copier_ref:
  assumes c: "copier l f c"
  shows "copier (load_ref read l) (foot_ref read at f) (copy_ref blank read box ref c)"
proof
  fix h r v a
  assume "load_ref read l h r = Some v" and "a \<in> foot_ref read at f h r"
  then show "a < length h"
    using copier.foot_bound [OF c] read_bound
    by (auto simp: load_ref_def foot_ref_def split: option.splits)
next
  fix h r v h'
  assume l: "load_ref read l h r = Some v"
    and same: "\<And>a. a \<in> foot_ref read at f h r \<Longrightarrow> a < length h' \<and> h' ! a = h ! a"
  then obtain x where r: "read h r = Some x" and x: "l h x = Some v"
    by (auto simp: load_ref_def split: option.splits)
  have "read h' r = Some x"
    using same by (intro read_frame [OF r]) (simp_all add: foot_ref_def)
  moreover have "l h' x = Some v \<and> f h' x = f h x"
    by (rule copier.frame [OF c x]) (simp add: same foot_ref_def r)
  ultimately show "load_ref read l h' r = Some v \<and> foot_ref read at f h' r = foot_ref read at f h r"
    by (simp add: load_ref_def foot_ref_def r)
next
  fix h r v q h'
  assume "load_ref read l h r = Some v" and q: "copy_ref blank read box ref c r h = (q, h')"
  then obtain x where r: "read h r = Some x" and x: "l h x = Some v"
    by (auto simp: load_ref_def split: option.splits)
  let ?h1 = "h @ [blank]" and ?a = "length h"
  have x1: "l ?h1 x = Some v" using copier.grown [OF c x, of ?h1] by simp
  obtain y h2 where y: "c x ?h1 = (y, h2)" by fastforce
  have q: "q = ref ?a y" and h': "h' = h2[?a := box y]"
    using q by (simp_all add: copy_ref_def alloc_def r y)
  note res = copier.result [OF c x1 y]
  then have len: "?a < length h2" and "prefix ?h1 h2" by (auto dest: prefix_length_le)
  then have "prefix h h'" by (auto simp: h' prefix_def list_update_append)
  moreover have "l h' y = Some v \<and> f h' y = f h2 y"
  proof (rule copier.frame [OF c])
    show "l h2 y = Some v" using res by blast
    fix a
    assume "a \<in> f h2 y"
    with res have "a < length h2" and "?a < a"
      using copier.foot_bound [OF c, of h2 y v a] by fastforce+
    then show "a < length h' \<and> h' ! a = h2 ! a" by (simp add: h')
  qed
  moreover have "read h' (ref ?a y) = Some y" using len by (intro read_ref) (simp_all add: h')
  ultimately show "prefix h h' \<and> load_ref read l h' q = Some v \<and>
      (\<forall>a \<in> foot_ref read at f h' q. length h \<le> a)"
    using res by (auto simp: q load_ref_def foot_ref_def at_ref)
qed

end

definition read_pointer :: "('c \<Rightarrow> 'a option) \<Rightarrow> 'c heap \<Rightarrow> addr \<Rightarrow> 'a option" where
  "read_pointer unbox h a = (if a < length h then unbox (h ! a) else None)"

definition read_slice :: "('c \<Rightarrow> 'a list option) \<Rightarrow> 'c heap \<Rightarrow> slice \<Rightarrow> 'a list option" where
  "read_slice unbox h = (\<lambda>(a, off, n). if a < length h
     then (case unbox (h ! a) of None \<Rightarrow> None
       | Some xs \<Rightarrow> if off + n \<le> length xs then Some (take n (drop off xs)) else None)
     else None)"

definition copy_pointer ::
  "'c \<Rightarrow> ('c \<Rightarrow> 'a option) \<Rightarrow> ('a \<Rightarrow> 'c) \<Rightarrow> ('a \<Rightarrow> 'c heap \<Rightarrow> 'a \<times> 'c heap) \<Rightarrow>
   addr option \<Rightarrow> 'c heap \<Rightarrow> addr option \<times> 'c heap" where
  "copy_pointer blank unbox box c =
     copy_nil (copy_ref blank (read_pointer unbox) box (\<lambda>a _. a) c)"

definition copy_slice ::
  "'c \<Rightarrow> ('c \<Rightarrow> 'a list option) \<Rightarrow> ('a list \<Rightarrow> 'c) \<Rightarrow> ('a \<Rightarrow> 'c heap \<Rightarrow> 'a \<times> 'c heap) \<Rightarrow>
   slice option \<Rightarrow> 'c heap \<Rightarrow> slice option \<times> 'c heap" where
  "copy_slice blank unbox box c =
     copy_nil (copy_ref blank (read_slice unbox) box (\<lambda>a xs. (a, 0, length xs)) (copy_list c))"

lemma pointer_reference:
  "(\<And>x. unbox (box x) = Some x) \<Longrightarrow> reference (read_pointer unbox) (\<lambda>a. a) box (\<lambda>a _. a)"
  by unfold_locales (auto simp: read_pointer_def split: if_splits)

lemma slice_reference:
  "(\<And>xs. unbox (box xs) = Some xs) \<Longrightarrow>
   reference (read_slice unbox) fst box (\<lambda>a xs. (a, 0, length xs))"
  by unfold_locales (auto simp: read_slice_def split: if_splits option.splits prod.splits)

definition load_pointer ::
  "('c \<Rightarrow> 'a option) \<Rightarrow> ('c heap \<Rightarrow> 'a \<Rightarrow> 'v option) \<Rightarrow> 'c heap \<Rightarrow> addr option \<Rightarrow> 'v option option" where
  "load_pointer unbox l = load_nil (load_ref (read_pointer unbox) l)"

definition foot_pointer ::
  "('c \<Rightarrow> 'a option) \<Rightarrow> ('c heap \<Rightarrow> 'a \<Rightarrow> addr set) \<Rightarrow> 'c heap \<Rightarrow> addr option \<Rightarrow> addr set" where
  "foot_pointer unbox f = foot_nil (foot_ref (read_pointer unbox) (\<lambda>a. a) f)"

definition load_slice ::
  "('c \<Rightarrow> 'a list option) \<Rightarrow> ('c heap \<Rightarrow> 'a \<Rightarrow> 'v option) \<Rightarrow> 'c heap \<Rightarrow> slice option \<Rightarrow>
   'v list option option" where
  "load_slice unbox l = load_nil (load_ref (read_slice unbox) (load_list l))"

definition foot_slice ::
  "('c \<Rightarrow> 'a list option) \<Rightarrow> ('c heap \<Rightarrow> 'a \<Rightarrow> addr set) \<Rightarrow> 'c heap \<Rightarrow> slice option \<Rightarrow> addr set" where
  "foot_slice unbox f = foot_nil (foot_ref (read_slice unbox) fst (foot_list f))"

lemma copier_pointer:
  "(\<And>x. unbox (box x) = Some x) \<Longrightarrow> copier l f c \<Longrightarrow>
   copier (load_pointer unbox l) (foot_pointer unbox f) (copy_pointer blank unbox box c)"
  unfolding copy_pointer_def load_pointer_def foot_pointer_def
  by (intro copier_nil reference.copier_ref [OF pointer_reference])

lemma copier_slice:
  "(\<And>xs. unbox (box xs) = Some xs) \<Longrightarrow> copier l f c \<Longrightarrow>
   copier (load_slice unbox l) (foot_slice unbox f) (copy_slice blank unbox box c)"
  unfolding copy_slice_def load_slice_def foot_slice_def
  by (intro copier_nil reference.copier_ref [OF slice_reference] copier_list)

end
