(* ===== verification/Deep_Copy.thy ===== *)
theory Deep_Copy
  imports Go_Heap Api_Types
begin

text \<open>
  The deep copies that controller-gen generates for the API types
  (\<^verbatim>\<open>pkg/apis/node-disk-sentinel.org/v1alpha1/zz_generated.deepcopy.go\<close>), over an explicit heap: one
  record per struct as it lies in memory, with an address for each pointer and a slice for each
  slice, and one function per method.  \<open>DeepCopyInto\<close> takes the struct that \<^verbatim>\<open>in\<close> points to and
  returns the one written to \<^verbatim>\<open>out\<close>.  The deep copies of the Kubernetes types inside are parameters.
  Copying is proved correct against the value records of \<open>Api_Types\<close>, which is what allows the
  other theories to work with values.
\<close>

subsection \<open>The structs in memory\<close>

record SmartmontoolsSpec_mem =
  ms_Smartctl :: "addr option"

record PhysicalDiskSpec_mem =
  mp_NodeName :: string
  mp_Smartmontools :: "addr option"

record DiskInfo_mem =
  mi_Path :: string
  mi_CanonicalPath :: string
  mi_Name :: string
  mi_SysPath :: string
  mi_Links :: "slice option"
  mi_Major :: int
  mi_Minor :: int
  mi_Type :: string
  mi_Bus :: string
  mi_Model :: string
  mi_Vendor :: string
  mi_Serial :: string
  mi_SerialShort :: string
  mi_WWN :: string
  mi_BusPath :: string
  mi_Capacity :: int
  mi_Rotational :: "addr option"
  mi_FirmwareVersion :: string

record DiskTelemetry_mem =
  mt_TemperatureCelsius :: "addr option"
  mt_PowerOnHours :: "addr option"
  mt_PowerCycleCount :: "addr option"
  mt_ReallocatedSectors :: "addr option"
  mt_PendingSectors :: "addr option"
  mt_PercentageUsed :: "addr option"
  mt_AvailableSpare :: "addr option"
  mt_CriticalWarning :: "addr option"
  mt_MediaErrors :: "addr option"

record Finding_mem =
  mf_ID :: string
  mf_AttributeID :: "addr option"
  mf_AttributeName :: string
  mf_RawValue :: int
  mf_Message :: string

record PhysicalDiskStatus_mem =
  mst_Health :: DiskHealthStatus
  mst_LastDataCollectedTime :: "addr option"
  mst_Conditions :: "slice option"
  mst_Info :: DiskInfo_mem
  mst_Telemetry :: "addr option"
  mst_Findings :: "slice option"

record TypeMeta =
  tm_Kind :: string
  tm_APIVersion :: string

text \<open>The metadata is a Kubernetes struct, \<open>'m\<close>, whose pointers lead to cells \<open>'x\<close>.\<close>

record 'm PhysicalDisk_mem =
  md_TypeMeta :: TypeMeta
  md_ObjectMeta :: 'm
  md_Spec :: PhysicalDiskSpec_mem
  md_Status :: PhysicalDiskStatus_mem

record 'm PhysicalDiskList_mem =
  ml_TypeMeta :: TypeMeta
  ml_ListMeta :: 'm
  ml_Items :: "slice option"

datatype ('m, 'x) cell =
    Fresh_Cell
  | Bool_Cell (bool_of: bool)
  | Int_Cell (int_of: int)
  | Time_Cell (time_of: int)
  | Strings_Cell (strings_of: "string list")
  | Smartctl_Cell (smartctl_of: SmartctlSpec)
  | Smartmontools_Cell (smartmontools_of: SmartmontoolsSpec_mem)
  | Spec_Cell (spec_of: PhysicalDiskSpec_mem)
  | Info_Cell (info_of: DiskInfo_mem)
  | Telemetry_Cell (telemetry_of: DiskTelemetry_mem)
  | Finding_Cell (finding_of: Finding_mem)
  | Findings_Cell (findings_of: "Finding_mem list")
  | Conditions_Cell (conditions_of: "Condition list")
  | Status_Cell (status_of: PhysicalDiskStatus_mem)
  | Disk_Cell (disk_at: "'m PhysicalDisk_mem")
  | Disks_Cell (disks_of: "'m PhysicalDisk_mem list")
  | List_Cell (list_at: "'m PhysicalDiskList_mem")
  | Kubernetes_Cell (kubernetes_of: 'x)

type_synonym ('m, 'x) mem = "('m, 'x) cell heap"

type_synonym ('m, 'x, 'a) copying = "'a \<Rightarrow> ('m, 'x) mem \<Rightarrow> 'a \<times> ('m, 'x) mem"

text \<open>The contents of a cell, if the cell has the type.\<close>

definition content :: "('c \<Rightarrow> 'a) \<Rightarrow> ('a \<Rightarrow> 'c) \<Rightarrow> 'c \<Rightarrow> 'a option" where
  "content sel box c = (if box (sel c) = c then Some (sel c) else None)"

lemma content_box: "(\<And>x. sel (box x) = x) \<Longrightarrow> content sel box (box x) = Some x"
  by (simp add: content_def)

subsection \<open>The generated methods\<close>

text \<open>The pointers to numbers and the slice of strings, \<^verbatim>\<open>*out = new(int); **out = **in\<close>.\<close>

definition copy_bool :: "('m, 'x, addr option) copying" where
  "copy_bool = copy_pointer Fresh_Cell (content bool_of Bool_Cell) Bool_Cell copy_plain"

definition copy_int :: "('m, 'x, addr option) copying" where
  "copy_int = copy_pointer Fresh_Cell (content int_of Int_Cell) Int_Cell copy_plain"

definition copy_strings :: "('m, 'x, slice option) copying" where
  "copy_strings = copy_slice Fresh_Cell (content strings_of Strings_Cell) Strings_Cell copy_plain"

definition DiskInfo_DeepCopyInto :: "('m, 'x, DiskInfo_mem) copying" where
  "DiskInfo_DeepCopyInto i h =
     (let (links, h) = copy_strings (mi_Links i) h;
          (rot, h) = copy_bool (mi_Rotational i) h
      in (i\<lparr>mi_Links := links, mi_Rotational := rot\<rparr>, h))"

definition DiskInfo_DeepCopy :: "('m, 'x, addr option) copying" where
  "DiskInfo_DeepCopy = copy_pointer Fresh_Cell (content info_of Info_Cell) Info_Cell DiskInfo_DeepCopyInto"

definition DiskTelemetry_DeepCopyInto :: "('m, 'x, DiskTelemetry_mem) copying" where
  "DiskTelemetry_DeepCopyInto i h =
     (let (temperature, h) = copy_int (mt_TemperatureCelsius i) h;
          (hours, h) = copy_int (mt_PowerOnHours i) h;
          (cycles, h) = copy_int (mt_PowerCycleCount i) h;
          (reallocated, h) = copy_int (mt_ReallocatedSectors i) h;
          (pending, h) = copy_int (mt_PendingSectors i) h;
          (used, h) = copy_int (mt_PercentageUsed i) h;
          (spare, h) = copy_int (mt_AvailableSpare i) h;
          (warning, h) = copy_int (mt_CriticalWarning i) h;
          (errors, h) = copy_int (mt_MediaErrors i) h
      in (i\<lparr>mt_TemperatureCelsius := temperature,
            mt_PowerOnHours := hours,
            mt_PowerCycleCount := cycles,
            mt_ReallocatedSectors := reallocated,
            mt_PendingSectors := pending,
            mt_PercentageUsed := used,
            mt_AvailableSpare := spare,
            mt_CriticalWarning := warning,
            mt_MediaErrors := errors\<rparr>, h))"

definition DiskTelemetry_DeepCopy :: "('m, 'x, addr option) copying" where
  "DiskTelemetry_DeepCopy =
     copy_pointer Fresh_Cell (content telemetry_of Telemetry_Cell) Telemetry_Cell DiskTelemetry_DeepCopyInto"

definition Finding_DeepCopyInto :: "('m, 'x, Finding_mem) copying" where
  "Finding_DeepCopyInto i h =
     (let (attribute, h) = copy_int (mf_AttributeID i) h in (i\<lparr>mf_AttributeID := attribute\<rparr>, h))"

definition Finding_DeepCopy :: "('m, 'x, addr option) copying" where
  "Finding_DeepCopy =
     copy_pointer Fresh_Cell (content finding_of Finding_Cell) Finding_Cell Finding_DeepCopyInto"

definition SmartctlSpec_DeepCopyInto :: "('m, 'x, SmartctlSpec) copying" where
  "SmartctlSpec_DeepCopyInto i h = (i, h)"

definition SmartctlSpec_DeepCopy :: "('m, 'x, addr option) copying" where
  "SmartctlSpec_DeepCopy =
     copy_pointer Fresh_Cell (content smartctl_of Smartctl_Cell) Smartctl_Cell SmartctlSpec_DeepCopyInto"

definition SmartmontoolsSpec_DeepCopyInto :: "('m, 'x, SmartmontoolsSpec_mem) copying" where
  "SmartmontoolsSpec_DeepCopyInto i h =
     (let (smartctl, h) = copy_pointer Fresh_Cell (content smartctl_of Smartctl_Cell) Smartctl_Cell
            copy_plain (ms_Smartctl i) h
      in (i\<lparr>ms_Smartctl := smartctl\<rparr>, h))"

definition SmartmontoolsSpec_DeepCopy :: "('m, 'x, addr option) copying" where
  "SmartmontoolsSpec_DeepCopy = copy_pointer Fresh_Cell
     (content smartmontools_of Smartmontools_Cell) Smartmontools_Cell SmartmontoolsSpec_DeepCopyInto"

definition PhysicalDiskSpec_DeepCopyInto :: "('m, 'x, PhysicalDiskSpec_mem) copying" where
  "PhysicalDiskSpec_DeepCopyInto i h =
     (let (tools, h) = copy_pointer Fresh_Cell (content smartmontools_of Smartmontools_Cell)
            Smartmontools_Cell SmartmontoolsSpec_DeepCopyInto (mp_Smartmontools i) h
      in (i\<lparr>mp_Smartmontools := tools\<rparr>, h))"

definition PhysicalDiskSpec_DeepCopy :: "('m, 'x, addr option) copying" where
  "PhysicalDiskSpec_DeepCopy =
     copy_pointer Fresh_Cell (content spec_of Spec_Cell) Spec_Cell PhysicalDiskSpec_DeepCopyInto"

text \<open>The methods of the Kubernetes types.\<close>

record ('m, 'x) Machinery =
  k_ObjectMeta :: "('m, 'x, 'm) copying"
  k_ListMeta :: "('m, 'x, 'm) copying"
  k_Condition :: "('m, 'x, Condition) copying"
  k_Time :: "('m, 'x, addr) copying"

definition PhysicalDiskStatus_DeepCopyInto ::
  "('m, 'x) Machinery \<Rightarrow> ('m, 'x, PhysicalDiskStatus_mem) copying" where
  "PhysicalDiskStatus_DeepCopyInto K i h =
     (let (collected, h) = copy_nil (k_Time K) (mst_LastDataCollectedTime i) h;
          (conditions, h) = copy_slice Fresh_Cell (content conditions_of Conditions_Cell) Conditions_Cell
            (k_Condition K) (mst_Conditions i) h;
          (info, h) = DiskInfo_DeepCopyInto (mst_Info i) h;
          (telemetry, h) = copy_pointer Fresh_Cell (content telemetry_of Telemetry_Cell) Telemetry_Cell
            DiskTelemetry_DeepCopyInto (mst_Telemetry i) h;
          (findings, h) = copy_slice Fresh_Cell (content findings_of Findings_Cell) Findings_Cell
            Finding_DeepCopyInto (mst_Findings i) h
      in (i\<lparr>mst_LastDataCollectedTime := collected, mst_Conditions := conditions, mst_Info := info,
            mst_Telemetry := telemetry, mst_Findings := findings\<rparr>, h))"

definition PhysicalDiskStatus_DeepCopy ::
  "('m, 'x) Machinery \<Rightarrow> ('m, 'x, addr option) copying" where
  "PhysicalDiskStatus_DeepCopy K = copy_pointer Fresh_Cell (content status_of Status_Cell) Status_Cell
     (PhysicalDiskStatus_DeepCopyInto K)"

definition PhysicalDisk_DeepCopyInto ::
  "('m, 'x) Machinery \<Rightarrow> ('m, 'x, 'm PhysicalDisk_mem) copying" where
  "PhysicalDisk_DeepCopyInto K i h =
     (let (meta, h) = k_ObjectMeta K (md_ObjectMeta i) h;
          (spec, h) = PhysicalDiskSpec_DeepCopyInto (md_Spec i) h;
          (status, h) = PhysicalDiskStatus_DeepCopyInto K (md_Status i) h
      in (i\<lparr>md_ObjectMeta := meta, md_Spec := spec, md_Status := status\<rparr>, h))"

definition PhysicalDisk_DeepCopy :: "('m, 'x) Machinery \<Rightarrow> ('m, 'x, addr option) copying" where
  "PhysicalDisk_DeepCopy K =
     copy_pointer Fresh_Cell (content disk_at Disk_Cell) Disk_Cell (PhysicalDisk_DeepCopyInto K)"

definition PhysicalDiskList_DeepCopyInto ::
  "('m, 'x) Machinery \<Rightarrow> ('m, 'x, 'm PhysicalDiskList_mem) copying" where
  "PhysicalDiskList_DeepCopyInto K i h =
     (let (meta, h) = k_ListMeta K (ml_ListMeta i) h;
          (disks, h) = copy_slice Fresh_Cell (content disks_of Disks_Cell) Disks_Cell
            (PhysicalDisk_DeepCopyInto K) (ml_Items i) h
      in (i\<lparr>ml_ListMeta := meta, ml_Items := disks\<rparr>, h))"

definition PhysicalDiskList_DeepCopy :: "('m, 'x) Machinery \<Rightarrow> ('m, 'x, addr option) copying" where
  "PhysicalDiskList_DeepCopy K =
     copy_pointer Fresh_Cell (content list_at List_Cell) List_Cell (PhysicalDiskList_DeepCopyInto K)"

text \<open>
  A value of the interface \<^verbatim>\<open>runtime.Object\<close>.  An interface that holds a nil pointer is not the nil
  interface; \<^verbatim>\<open>DeepCopyObject\<close> never returns the former.
\<close>

datatype Object = NilObject | DiskObject "addr option" | ListObject "addr option"

definition PhysicalDisk_DeepCopyObject ::
  "('m, 'x) Machinery \<Rightarrow> addr option \<Rightarrow> ('m, 'x) mem \<Rightarrow> Object \<times> ('m, 'x) mem" where
  "PhysicalDisk_DeepCopyObject K p h =
     (let (c, h) = PhysicalDisk_DeepCopy K p h in
      (if c \<noteq> None then DiskObject c else NilObject, h))"

definition PhysicalDiskList_DeepCopyObject ::
  "('m, 'x) Machinery \<Rightarrow> addr option \<Rightarrow> ('m, 'x) mem \<Rightarrow> Object \<times> ('m, 'x) mem" where
  "PhysicalDiskList_DeepCopyObject K p h =
     (let (c, h) = PhysicalDiskList_DeepCopy K p h in
      (if c \<noteq> None then ListObject c else NilObject, h))"

subsection \<open>What a struct stands for\<close>

definition load_bool :: "('m, 'x) mem \<Rightarrow> addr option \<Rightarrow> bool option option" where
  "load_bool = load_pointer (content bool_of Bool_Cell) load_plain"

definition load_int :: "('m, 'x) mem \<Rightarrow> addr option \<Rightarrow> int option option" where
  "load_int = load_pointer (content int_of Int_Cell) load_plain"

definition load_strings :: "('m, 'x) mem \<Rightarrow> slice option \<Rightarrow> string list option option" where
  "load_strings = load_slice (content strings_of Strings_Cell) load_plain"

definition foot_bool :: "('m, 'x) mem \<Rightarrow> addr option \<Rightarrow> addr set" where
  "foot_bool = foot_pointer (content bool_of Bool_Cell) foot_plain"

definition foot_int :: "('m, 'x) mem \<Rightarrow> addr option \<Rightarrow> addr set" where
  "foot_int = foot_pointer (content int_of Int_Cell) foot_plain"

definition foot_strings :: "('m, 'x) mem \<Rightarrow> slice option \<Rightarrow> addr set" where
  "foot_strings = foot_slice (content strings_of Strings_Cell) foot_plain"

text \<open>The nil slice and the empty slice stand for the same list.\<close>

definition list_of :: "'v list option \<Rightarrow> 'v list" where
  "list_of s = (case s of None \<Rightarrow> [] | Some xs \<Rightarrow> xs)"

definition info_part :: "DiskInfo_mem \<Rightarrow> slice option \<times> addr option" where
  "info_part i = (mi_Links i, mi_Rotational i)"

definition info_value :: "DiskInfo_mem \<Rightarrow> string list option \<times> bool option \<Rightarrow> DiskInfo" where
  "info_value i = (\<lambda>(links, rot). \<lparr>di_Path = mi_Path i, di_CanonicalPath = mi_CanonicalPath i,
     di_Name = mi_Name i, di_SysPath = mi_SysPath i, di_Links = list_of links,
     di_Major = mi_Major i, di_Minor = mi_Minor i, di_Type = mi_Type i, di_Bus = mi_Bus i,
     di_Model = mi_Model i, di_Vendor = mi_Vendor i, di_Serial = mi_Serial i,
     di_SerialShort = mi_SerialShort i, di_WWN = mi_WWN i, di_BusPath = mi_BusPath i,
     di_Capacity = mi_Capacity i, di_Rotational = rot, di_FirmwareVersion = mi_FirmwareVersion i\<rparr>)"

definition load_info :: "('m, 'x) mem \<Rightarrow> DiskInfo_mem \<Rightarrow> DiskInfo option" where
  "load_info = load_via info_part info_value (load_pair load_strings load_bool)"

definition foot_info :: "('m, 'x) mem \<Rightarrow> DiskInfo_mem \<Rightarrow> addr set" where
  "foot_info = foot_via info_part (foot_pair foot_strings foot_bool)"

text \<open>The nine pointers of the telemetry.\<close>

type_synonym 'p nine = "'p \<times> 'p \<times> 'p \<times> 'p \<times> 'p \<times> 'p \<times> 'p \<times> 'p \<times> 'p"

definition telemetry_part :: "DiskTelemetry_mem \<Rightarrow> addr option nine" where
  "telemetry_part i = (mt_TemperatureCelsius i, mt_PowerOnHours i, mt_PowerCycleCount i, mt_ReallocatedSectors i, mt_PendingSectors i, mt_PercentageUsed i, mt_AvailableSpare i, mt_CriticalWarning i, mt_MediaErrors i)"

definition telemetry_value :: "DiskTelemetry_mem \<Rightarrow> int option nine \<Rightarrow> DiskTelemetry" where
  "telemetry_value _ = (\<lambda>(a, b, c, d, e, f, g, j, k).
     \<lparr>TemperatureCelsius = a, PowerOnHours = b, PowerCycleCount = c, ReallocatedSectors = d, PendingSectors = e, PercentageUsed = f, AvailableSpare = g, CriticalWarning = j, MediaErrors = k\<rparr>)"

definition load_telemetry :: "('m, 'x) mem \<Rightarrow> DiskTelemetry_mem \<Rightarrow> DiskTelemetry option" where
  "load_telemetry = load_via telemetry_part telemetry_value
     (load_pair load_int (load_pair load_int (load_pair load_int (load_pair load_int (load_pair load_int (load_pair load_int (load_pair load_int (load_pair load_int load_int))))))))"

definition foot_telemetry :: "('m, 'x) mem \<Rightarrow> DiskTelemetry_mem \<Rightarrow> addr set" where
  "foot_telemetry = foot_via telemetry_part
     (foot_pair foot_int (foot_pair foot_int (foot_pair foot_int (foot_pair foot_int (foot_pair foot_int (foot_pair foot_int (foot_pair foot_int (foot_pair foot_int foot_int))))))))"

definition finding_value :: "Finding_mem \<Rightarrow> int option \<Rightarrow> Finding" where
  "finding_value i a = \<lparr>f_ID = mf_ID i, f_AttributeID = a, f_AttributeName = mf_AttributeName i,
     f_RawValue = mf_RawValue i, f_Message = mf_Message i\<rparr>"

definition load_finding :: "('m, 'x) mem \<Rightarrow> Finding_mem \<Rightarrow> Finding option" where
  "load_finding = load_via mf_AttributeID finding_value load_int"

definition foot_finding :: "('m, 'x) mem \<Rightarrow> Finding_mem \<Rightarrow> addr set" where
  "foot_finding = foot_via mf_AttributeID foot_int"

definition load_smartmontools :: "('m, 'x) mem \<Rightarrow> SmartmontoolsSpec_mem \<Rightarrow> SmartmontoolsSpec option"
where
  "load_smartmontools = load_via ms_Smartctl (\<lambda>_ s. \<lparr>Smartctl = s\<rparr>)
     (load_pointer (content smartctl_of Smartctl_Cell) load_plain)"

definition foot_smartmontools :: "('m, 'x) mem \<Rightarrow> SmartmontoolsSpec_mem \<Rightarrow> addr set" where
  "foot_smartmontools = foot_via ms_Smartctl (foot_pointer (content smartctl_of Smartctl_Cell) foot_plain)"

definition load_spec :: "('m, 'x) mem \<Rightarrow> PhysicalDiskSpec_mem \<Rightarrow> PhysicalDiskSpec option" where
  "load_spec = load_via mp_Smartmontools (\<lambda>i s. \<lparr>NodeName = mp_NodeName i, Smartmontools = s\<rparr>)
     (load_pointer (content smartmontools_of Smartmontools_Cell) load_smartmontools)"

definition foot_spec :: "('m, 'x) mem \<Rightarrow> PhysicalDiskSpec_mem \<Rightarrow> addr set" where
  "foot_spec = foot_via mp_Smartmontools
     (foot_pointer (content smartmontools_of Smartmontools_Cell) foot_smartmontools)"

definition load_time :: "('m, 'x) mem \<Rightarrow> addr \<Rightarrow> int option" where
  "load_time = load_ref (read_pointer (content time_of Time_Cell)) load_plain"

definition foot_time :: "('m, 'x) mem \<Rightarrow> addr \<Rightarrow> addr set" where
  "foot_time = foot_ref (read_pointer (content time_of Time_Cell)) (\<lambda>a. a) foot_plain"

definition status_part :: "PhysicalDiskStatus_mem \<Rightarrow>
    addr option \<times> slice option \<times> DiskInfo_mem \<times> addr option \<times> slice option" where
  "status_part i = (mst_LastDataCollectedTime i, mst_Conditions i, mst_Info i, mst_Telemetry i,
     mst_Findings i)"

definition status_value :: "PhysicalDiskStatus_mem \<Rightarrow>
    int option \<times> Condition list option \<times> DiskInfo \<times> DiskTelemetry option \<times> Finding list option \<Rightarrow>
    PhysicalDiskStatus" where
  "status_value i = (\<lambda>(t, cs, d, tel, fs). \<lparr>Health = mst_Health i, LastDataCollectedTime = t,
     Conditions = list_of cs, Info = d, Telemetry = tel, Findings = list_of fs\<rparr>)"

definition load_status :: "('m, 'x) mem \<Rightarrow> PhysicalDiskStatus_mem \<Rightarrow> PhysicalDiskStatus option" where
  "load_status = load_via status_part status_value
     (load_pair (load_nil load_time)
     (load_pair (load_slice (content conditions_of Conditions_Cell) load_plain)
     (load_pair load_info
     (load_pair (load_pointer (content telemetry_of Telemetry_Cell) load_telemetry)
       (load_slice (content findings_of Findings_Cell) load_finding)))))"

definition foot_status :: "('m, 'x) mem \<Rightarrow> PhysicalDiskStatus_mem \<Rightarrow> addr set" where
  "foot_status = foot_via status_part
     (foot_pair (foot_nil foot_time)
     (foot_pair (foot_slice (content conditions_of Conditions_Cell) foot_plain)
     (foot_pair foot_info
     (foot_pair (foot_pointer (content telemetry_of Telemetry_Cell) foot_telemetry)
       (foot_slice (content findings_of Findings_Cell) foot_finding)))))"

text \<open>A resource stands for its type, its metadata, its spec and its status.\<close>

type_synonym 'v disk_value = "TypeMeta \<times> 'v \<times> PhysicalDiskSpec \<times> PhysicalDiskStatus"

definition disk_part :: "'m PhysicalDisk_mem \<Rightarrow> 'm \<times> PhysicalDiskSpec_mem \<times> PhysicalDiskStatus_mem" where
  "disk_part i = (md_ObjectMeta i, md_Spec i, md_Status i)"

definition load_disk :: "(('m, 'x) mem \<Rightarrow> 'm \<Rightarrow> 'v option) \<Rightarrow> ('m, 'x) mem \<Rightarrow>
    'm PhysicalDisk_mem \<Rightarrow> 'v disk_value option" where
  "load_disk load_meta = load_via disk_part (\<lambda>i v. (md_TypeMeta i, v))
     (load_pair load_meta (load_pair load_spec load_status))"

definition foot_disk :: "(('m, 'x) mem \<Rightarrow> 'm \<Rightarrow> addr set) \<Rightarrow> ('m, 'x) mem \<Rightarrow>
    'm PhysicalDisk_mem \<Rightarrow> addr set" where
  "foot_disk foot_meta = foot_via disk_part (foot_pair foot_meta (foot_pair foot_spec foot_status))"

definition load_disk_pointer :: "(('m, 'x) mem \<Rightarrow> 'm \<Rightarrow> 'v option) \<Rightarrow> ('m, 'x) mem \<Rightarrow>
    addr option \<Rightarrow> 'v disk_value option option" where
  "load_disk_pointer load_meta = load_pointer (content disk_at Disk_Cell) (load_disk load_meta)"

definition load_disk_list :: "(('m, 'x) mem \<Rightarrow> 'm \<Rightarrow> 'v option) \<Rightarrow> (('m, 'x) mem \<Rightarrow> 'm \<Rightarrow> 'w option) \<Rightarrow>
    ('m, 'x) mem \<Rightarrow> 'm PhysicalDiskList_mem \<Rightarrow> (TypeMeta \<times> 'w \<times> 'v disk_value list option) option" where
  "load_disk_list load_meta load_list_meta = load_via (\<lambda>i. (ml_ListMeta i, ml_Items i))
     (\<lambda>i v. (ml_TypeMeta i, v))
     (load_pair load_list_meta (load_slice (content disks_of Disks_Cell) (load_disk load_meta)))"

definition foot_disk_list :: "(('m, 'x) mem \<Rightarrow> 'm \<Rightarrow> addr set) \<Rightarrow> (('m, 'x) mem \<Rightarrow> 'm \<Rightarrow> addr set) \<Rightarrow>
    ('m, 'x) mem \<Rightarrow> 'm PhysicalDiskList_mem \<Rightarrow> addr set" where
  "foot_disk_list foot_meta foot_list_meta = foot_via (\<lambda>i. (ml_ListMeta i, ml_Items i))
     (foot_pair foot_list_meta (foot_slice (content disks_of Disks_Cell) (foot_disk foot_meta)))"

definition load_list_pointer :: "(('m, 'x) mem \<Rightarrow> 'm \<Rightarrow> 'v option) \<Rightarrow> (('m, 'x) mem \<Rightarrow> 'm \<Rightarrow> 'w option) \<Rightarrow>
    ('m, 'x) mem \<Rightarrow> addr option \<Rightarrow> (TypeMeta \<times> 'w \<times> 'v disk_value list option) option option" where
  "load_list_pointer load_meta load_list_meta =
     load_pointer (content list_at List_Cell) (load_disk_list load_meta load_list_meta)"

subsection \<open>Every method meets the contract\<close>

interpretation int_pointer: reference "read_pointer (content int_of Int_Cell)" "\<lambda>a. a" Int_Cell "\<lambda>a _. a"
  by (rule pointer_reference) (simp add: content_box)

named_theorems copiers \<open>deep copies that meet the contract\<close>

lemma copier_plain [copiers]: "copier load_plain foot_plain copy_plain"
  by (rule plain.copier_axioms)

lemma copier_bool [copiers]: "copier load_bool foot_bool copy_bool"
  unfolding load_bool_def foot_bool_def copy_bool_def
  by (intro copier_pointer copiers) (simp add: content_box)

lemma copier_int [copiers]: "copier load_int foot_int copy_int"
  unfolding load_int_def foot_int_def copy_int_def
  by (intro copier_pointer copiers) (simp add: content_box)

lemma copier_strings [copiers]: "copier load_strings foot_strings copy_strings"
  unfolding load_strings_def foot_strings_def copy_strings_def
  by (intro copier_slice copiers) (simp add: content_box)

lemmas copy_unfold = copy_via_def copy_pair_def split_beta Let_def

lemma copier_info [copiers]: "copier load_info foot_info DiskInfo_DeepCopyInto"
  unfolding load_info_def foot_info_def
  by (rule copier_via [where c = "copy_pair copy_strings copy_bool"
        and set_part = "\<lambda>i (links, rot). i\<lparr>mi_Links := links, mi_Rotational := rot\<rparr>"])
    (simp add: copy_unfold DiskInfo_DeepCopyInto_def info_part_def, simp add: split_beta info_part_def info_value_def, simp add: split_beta info_part_def info_value_def,
      auto intro!: copier_pair copier_nil copier_slice copier_pointer copiers  simp: content_box)

lemma copier_telemetry [copiers]: "copier load_telemetry foot_telemetry DiskTelemetry_DeepCopyInto"
  unfolding load_telemetry_def foot_telemetry_def
  by (rule copier_via [where
        c = "(copy_pair copy_int (copy_pair copy_int (copy_pair copy_int (copy_pair copy_int (copy_pair copy_int (copy_pair copy_int (copy_pair copy_int (copy_pair copy_int copy_int))))))))"
        and set_part = "\<lambda>i (a, b, c, d, e, f, g, j, k). i\<lparr>mt_TemperatureCelsius := a, mt_PowerOnHours := b, mt_PowerCycleCount := c, mt_ReallocatedSectors := d, mt_PendingSectors := e, mt_PercentageUsed := f, mt_AvailableSpare := g, mt_CriticalWarning := j, mt_MediaErrors := k\<rparr>"])
    (simp add: copy_unfold DiskTelemetry_DeepCopyInto_def telemetry_part_def, simp add: split_beta telemetry_part_def telemetry_value_def, simp add: split_beta telemetry_part_def telemetry_value_def,
      auto intro!: copier_pair copier_nil copier_slice copier_pointer copiers  simp: content_box)

lemma copier_finding [copiers]: "copier load_finding foot_finding Finding_DeepCopyInto"
  unfolding load_finding_def foot_finding_def
  by (rule copier_via [where c = copy_int and set_part = "\<lambda>i a. i\<lparr>mf_AttributeID := a\<rparr>"])
    (simp add: copy_unfold Finding_DeepCopyInto_def, simp add: split_beta finding_value_def, simp add: split_beta finding_value_def,
      auto intro!: copier_pair copier_nil copier_slice copier_pointer copiers  simp: content_box)

lemma copier_smartmontools [copiers]:
  "copier load_smartmontools foot_smartmontools SmartmontoolsSpec_DeepCopyInto"
  unfolding load_smartmontools_def foot_smartmontools_def
  by (rule copier_via [where set_part = "\<lambda>i a. i\<lparr>ms_Smartctl := a\<rparr>"
        and c = "copy_pointer Fresh_Cell (content smartctl_of Smartctl_Cell) Smartctl_Cell copy_plain"])
    (simp add: copy_unfold SmartmontoolsSpec_DeepCopyInto_def, simp add: split_beta, simp add: split_beta,
      auto intro!: copier_pair copier_nil copier_slice copier_pointer copiers  simp: content_box)

lemma copier_spec [copiers]: "copier load_spec foot_spec PhysicalDiskSpec_DeepCopyInto"
  unfolding load_spec_def foot_spec_def
  by (rule copier_via [where set_part = "\<lambda>i a. i\<lparr>mp_Smartmontools := a\<rparr>"
        and c = "copy_pointer Fresh_Cell (content smartmontools_of Smartmontools_Cell) Smartmontools_Cell
          SmartmontoolsSpec_DeepCopyInto"])
    (simp add: copy_unfold PhysicalDiskSpec_DeepCopyInto_def, simp add: split_beta, simp add: split_beta,
      auto intro!: copier_pair copier_nil copier_slice copier_pointer copiers  simp: content_box)

text \<open>The documented behaviour of the deep copies of Kubernetes.\<close>

locale api_machinery =
  object_meta: copier load_meta foot_meta "k_ObjectMeta K" +
  list_meta: copier load_list_meta foot_list_meta "k_ListMeta K" +
  condition: copier load_plain foot_plain "k_Condition K" +
  time: copier load_time foot_time "k_Time K"
  for K :: "('m, 'x) Machinery"
    and load_meta :: "('m, 'x) mem \<Rightarrow> 'm \<Rightarrow> 'v option"
    and foot_meta :: "('m, 'x) mem \<Rightarrow> 'm \<Rightarrow> addr set"
    and load_list_meta :: "('m, 'x) mem \<Rightarrow> 'm \<Rightarrow> 'w option"
    and foot_list_meta :: "('m, 'x) mem \<Rightarrow> 'm \<Rightarrow> addr set"
begin

lemma copier_status: "copier load_status foot_status (PhysicalDiskStatus_DeepCopyInto K)"
  unfolding load_status_def foot_status_def
  by (rule copier_via [where
        c = "copy_pair (copy_nil (k_Time K))
          (copy_pair (copy_slice Fresh_Cell (content conditions_of Conditions_Cell) Conditions_Cell
             (k_Condition K))
          (copy_pair DiskInfo_DeepCopyInto
          (copy_pair (copy_pointer Fresh_Cell (content telemetry_of Telemetry_Cell) Telemetry_Cell
             DiskTelemetry_DeepCopyInto)
           (copy_slice Fresh_Cell (content findings_of Findings_Cell) Findings_Cell
             Finding_DeepCopyInto))))"
        and set_part = "\<lambda>i (t, cs, d, tel, fs). i\<lparr>mst_LastDataCollectedTime := t,
          mst_Conditions := cs, mst_Info := d, mst_Telemetry := tel, mst_Findings := fs\<rparr>"])
    (simp add: copy_unfold PhysicalDiskStatus_DeepCopyInto_def status_part_def, simp add: split_beta status_part_def status_value_def, simp add: split_beta status_part_def status_value_def,
      auto intro!: copier_pair copier_nil copier_slice copier_pointer copiers time.copier_axioms condition.copier_axioms simp: content_box)

lemma copier_disk: "copier (load_disk load_meta) (foot_disk foot_meta) (PhysicalDisk_DeepCopyInto K)"
  unfolding load_disk_def foot_disk_def
  by (rule copier_via [where
        c = "copy_pair (k_ObjectMeta K)
          (copy_pair PhysicalDiskSpec_DeepCopyInto (PhysicalDiskStatus_DeepCopyInto K))"
        and set_part = "\<lambda>i (m, s, st). i\<lparr>md_ObjectMeta := m, md_Spec := s, md_Status := st\<rparr>"])
    (simp add: copy_unfold PhysicalDisk_DeepCopyInto_def disk_part_def, simp add: split_beta disk_part_def, simp add: split_beta disk_part_def,
      auto intro!: copier_pair copier_nil copier_slice copier_pointer copiers copier_status object_meta.copier_axioms simp: content_box)

lemma copier_disk_pointer:
  "copier (load_disk_pointer load_meta)
    (foot_pointer (content disk_at Disk_Cell) (foot_disk foot_meta)) (PhysicalDisk_DeepCopy K)"
  unfolding load_disk_pointer_def PhysicalDisk_DeepCopy_def
  by (intro copier_pointer copier_disk) (simp add: content_box)

lemma copier_disk_list:
  "copier (load_disk_list load_meta load_list_meta) (foot_disk_list foot_meta foot_list_meta)
    (PhysicalDiskList_DeepCopyInto K)"
  unfolding load_disk_list_def foot_disk_list_def
  by (rule copier_via [where
        c = "copy_pair (k_ListMeta K) (copy_slice Fresh_Cell (content disks_of Disks_Cell) Disks_Cell
          (PhysicalDisk_DeepCopyInto K))"
        and set_part = "\<lambda>i (m, ds). i\<lparr>ml_ListMeta := m, ml_Items := ds\<rparr>"])
    (simp add: copy_unfold PhysicalDiskList_DeepCopyInto_def, simp add: split_beta, simp add: split_beta,
      auto intro!: copier_pair copier_nil copier_slice copier_pointer copiers copier_disk list_meta.copier_axioms simp: content_box)

lemma copier_list_pointer:
  "copier (load_list_pointer load_meta load_list_meta)
    (foot_pointer (content list_at List_Cell) (foot_disk_list foot_meta foot_list_meta))
    (PhysicalDiskList_DeepCopy K)"
  unfolding load_list_pointer_def PhysicalDiskList_DeepCopy_def
  by (intro copier_pointer copier_disk_list) (simp add: content_box)

end

sublocale api_machinery \<subseteq> disk: copier "load_disk_pointer load_meta"
  "foot_pointer (content disk_at Disk_Cell) (foot_disk foot_meta)" "PhysicalDisk_DeepCopy K"
  by (rule copier_disk_pointer)

sublocale api_machinery \<subseteq> disks: copier "load_list_pointer load_meta load_list_meta"
  "foot_pointer (content list_at List_Cell) (foot_disk_list foot_meta foot_list_meta)"
  "PhysicalDiskList_DeepCopy K"
  by (rule copier_list_pointer)

subsection \<open>A machinery\<close>

text \<open>Metadata with a name and a pointer to the labels.\<close>

type_synonym named = "string \<times> addr option"

type_synonym sample_mem = "(named, (string \<times> string) list) mem"

definition load_named :: "sample_mem \<Rightarrow> named \<Rightarrow> (string \<times> (string \<times> string) list option) option" where
  "load_named = load_pair load_plain (load_pointer (content kubernetes_of Kubernetes_Cell) load_plain)"

definition foot_named :: "sample_mem \<Rightarrow> named \<Rightarrow> addr set" where
  "foot_named = foot_pair foot_plain (foot_pointer (content kubernetes_of Kubernetes_Cell) foot_plain)"

definition copy_named :: "(named, (string \<times> string) list, named) copying" where
  "copy_named = copy_pair copy_plain
     (copy_pointer Fresh_Cell (content kubernetes_of Kubernetes_Cell) Kubernetes_Cell copy_plain)"

definition sample_machinery :: "(named, (string \<times> string) list) Machinery" where
  "sample_machinery = \<lparr>k_ObjectMeta = copy_named, k_ListMeta = copy_named, k_Condition = copy_plain,
     k_Time = copy_ref Fresh_Cell (read_pointer (content time_of Time_Cell)) Time_Cell (\<lambda>a _. a) copy_plain\<rparr>"

lemma copier_named: "copier load_named foot_named copy_named"
  unfolding load_named_def foot_named_def copy_named_def
  by (intro copier_pair copier_pointer copiers) (simp add: content_box)

interpretation sample_machinery:
  api_machinery sample_machinery load_named foot_named load_named foot_named
proof (intro api_machinery.intro)
  show "copier load_time foot_time (k_Time sample_machinery)"
    unfolding load_time_def foot_time_def sample_machinery_def Machinery.select_convs
    by (intro reference.copier_ref pointer_reference copiers) (simp add: content_box)
qed (simp_all add: sample_machinery_def copier_named copiers)

definition blank_info :: DiskInfo_mem where
  "blank_info = \<lparr>mi_Path = [], mi_CanonicalPath = [], mi_Name = ''sda'', mi_SysPath = [],
     mi_Links = Some (1, 1, 1), mi_Major = 8, mi_Minor = 0, mi_Type = ''disk'', mi_Bus = [],
     mi_Model = [], mi_Vendor = [], mi_Serial = [], mi_SerialShort = [], mi_WWN = [],
     mi_BusPath = [], mi_Capacity = 0, mi_Rotational = None, mi_FirmwareVersion = []\<rparr>"

definition sample_mem :: sample_mem where
  "sample_mem = [Kubernetes_Cell [(''app'', ''nds'')], Strings_Cell [''a'', ''b''], Int_Cell 35,
     Telemetry_Cell \<lparr>mt_TemperatureCelsius = Some 2, mt_PowerOnHours = None,
       mt_PowerCycleCount = None, mt_ReallocatedSectors = None, mt_PendingSectors = None,
       mt_PercentageUsed = None, mt_AvailableSpare = None, mt_CriticalWarning = None,
       mt_MediaErrors = None\<rparr>,
     Disk_Cell \<lparr>md_TypeMeta = \<lparr>tm_Kind = ''PhysicalDisk'', tm_APIVersion = ''v1alpha1''\<rparr>,
       md_ObjectMeta = (''disk'', Some 0),
       md_Spec = \<lparr>mp_NodeName = ''node1'', mp_Smartmontools = None\<rparr>,
       md_Status = \<lparr>mst_Health = StatusGood, mst_LastDataCollectedTime = None,
         mst_Conditions = None, mst_Info = blank_info, mst_Telemetry = Some 3,
         mst_Findings = None\<rparr>\<rparr>]"

definition hot_writes :: "(addr \<times> (named, (string \<times> string) list) cell) list" where
  "hot_writes = [(2, Int_Cell 99), (1, Strings_Cell []), (0, Kubernetes_Cell [])]"

subsection \<open>Properties\<close>

text \<open>
  C18: the deep copy of a resource stands for the same resource and shares no memory with anything
  that existed before: no sequence of assignments through old pointers changes the copy, and none
  through the pointers of the copy changes the original.  The reconciler relies on it for the base
  of its patches.
\<close>

theorem PhysicalDisk_DeepCopy_isolated:
  assumes "api_machinery K load_meta foot_meta load_list_meta foot_list_meta"
    and "load_disk_pointer load_meta h p = Some v" and "PhysicalDisk_DeepCopy K p h = (q, h')"
  shows "load_disk_pointer load_meta h' q = Some v \<and>
    (fst ` set ws \<subseteq> {..<length h} \<longrightarrow> load_disk_pointer load_meta (writes ws h') q = Some v) \<and>
    (fst ` set ws \<subseteq> {length h..} \<longrightarrow> load_disk_pointer load_meta (writes ws h') p = Some v)"
proof -
  note disk = api_machinery.copier_disk_pointer [OF assms(1)]
  show ?thesis
    using copier.result [OF disk assms(2,3)] copier.copy_survives [OF disk assms(2,3), of ws]
      copier.original_survives [OF disk assms(2,3), of ws] by auto
qed

theorem PhysicalDisk_DeepCopy_isolated_witness:
  "let (q, h') = PhysicalDisk_DeepCopy sample_machinery (Some 4) sample_mem in
   load_disk_pointer load_named (writes hot_writes h') q = load_disk_pointer load_named sample_mem (Some 4) \<and>
   load_disk_pointer load_named (writes hot_writes h') (Some 4) \<noteq> load_disk_pointer load_named h' (Some 4)"
proof -
  obtain q h' where q: "PhysicalDisk_DeepCopy sample_machinery (Some 4) sample_mem = (q, h')" by fastforce
  have loaded: "load_disk_pointer load_named sample_mem (Some 4) =
      Some (the (load_disk_pointer load_named sample_mem (Some 4)))" by code_simp
  have "fst ` set hot_writes \<subseteq> {..<length sample_mem}" by (simp add: hot_writes_def sample_mem_def)
  then have "load_disk_pointer load_named (writes hot_writes h') q =
      load_disk_pointer load_named sample_mem (Some 4)"
    using PhysicalDisk_DeepCopy_isolated [OF sample_machinery.api_machinery_axioms loaded q,
        of hot_writes] loaded by simp
  moreover have "case PhysicalDisk_DeepCopy sample_machinery (Some 4) sample_mem of (q, h') \<Rightarrow>
      load_disk_pointer load_named (writes hot_writes h') (Some 4) \<noteq> load_disk_pointer load_named h' (Some 4)"
    by code_simp
  ultimately show ?thesis by (simp add: q)
qed

text \<open>
  \<^verbatim>\<open>DeepCopyObject\<close> of a list is nil exactly for the nil pointer, never an interface that holds a nil
  pointer; a copied list stands for the same list, element by element, in new memory.
\<close>

theorem PhysicalDiskList_DeepCopyObject_spec:
  assumes "api_machinery K load_meta foot_meta load_list_meta foot_list_meta"
    and "load_list_pointer load_meta load_list_meta h p = Some v"
  shows "case PhysicalDiskList_DeepCopyObject K p h of
      (NilObject, h') \<Rightarrow> p = None \<and> h' = h
    | (ListObject q, h') \<Rightarrow> p \<noteq> None \<and> q \<noteq> None \<and> prefix h h' \<and>
        load_list_pointer load_meta load_list_meta h' q = Some v
    | (DiskObject q, h') \<Rightarrow> False"
proof (cases p)
  case None
  then show ?thesis
    by (simp add: PhysicalDiskList_DeepCopyObject_def PhysicalDiskList_DeepCopy_def copy_pointer_def
        copy_nil_def)
next
  case (Some a)
  obtain q h' where q: "PhysicalDiskList_DeepCopy K p h = (q, h')" by fastforce
  then have "q \<noteq> None"
    by (auto simp: Some PhysicalDiskList_DeepCopy_def copy_pointer_def copy_nil_def split: prod.splits)
  then show ?thesis
    using copier.result [OF api_machinery.copier_list_pointer [OF assms(1)] assms(2) q]
    by (simp add: PhysicalDiskList_DeepCopyObject_def Some q [unfolded Some])
qed

theorem PhysicalDiskList_DeepCopyObject_spec_witness:
  "fst (PhysicalDiskList_DeepCopyObject sample_machinery (Some 5)
     (sample_mem @ [List_Cell \<lparr>ml_TypeMeta = \<lparr>tm_Kind = ''PhysicalDiskList'', tm_APIVersion = []\<rparr>,
        ml_ListMeta = ([], None), ml_Items = None\<rparr>])) \<noteq> NilObject"
proof -
  let ?h = "sample_mem @ [List_Cell \<lparr>ml_TypeMeta = \<lparr>tm_Kind = ''PhysicalDiskList'', tm_APIVersion = []\<rparr>,
        ml_ListMeta = ([], None), ml_Items = None\<rparr>]"
  have "load_list_pointer load_named load_named ?h (Some 5) =
      Some (the (load_list_pointer load_named load_named ?h (Some 5)))" by code_simp
  from PhysicalDiskList_DeepCopyObject_spec [OF sample_machinery.api_machinery_axioms this]
  show ?thesis by (auto split: prod.splits Object.splits)
qed

end
