(* ===== verification/Spec2Isabelle.thy ===== *)
theory Spec2Isabelle
  imports Wiring Hazards Shared_Server Udev_Watch Deep_Copy
begin

text \<open>
  \<^bold>\<open>Node Disk Sentinel\<close> is a daemon that runs on every node of a Kubernetes cluster.  It finds the
  physical disks of its node, runs smartctl on each of them, assesses their health and publishes
  the result as the status of a PhysicalDisk resource, as events and as Prometheus metrics.  This
  development models the Go packages under \<^verbatim>\<open>src/pkg\<close> and \<^verbatim>\<open>src/cmd\<close>.

  \<^bold>\<open>How the parts interact.\<close>  The main loop (\<open>Monitor_Loop\<close>) waits for hints of the udev monitor
  (\<open>Uevent\<close>), for a ticker and for the end of its context.  A scan (\<open>ReconcileAll\<close>, \<open>Controller\<close>) asks
  the inventory (\<open>Udev\<close>) for the disks that neither the built-in filter nor an exclusion rule
  (\<open>Disk_Filter\<close>) drops, deletes or marks the resources of disks that are excluded or gone, and
  then reconciles every disk: its resource is found by a generated name (\<open>Naming\<close>), labelled
  (\<open>Labels\<close>), and gets the status (\<open>Disk_Status\<close>) that follows from running smartctl (\<open>Runner\<close>, with
  arguments split by \<open>Cmd_Args\<close>) and assessing its output (\<open>Smartctl\<close>, \<open>Assessment\<close>).  Gauges are set
  and deleted on the way (\<open>Metrics\<close>).  A change of a resource's spec runs \<open>Reconcile\<close> for one disk.

  \<^bold>\<open>Theories.\<close>
  \<^item> \<open>Prelude\<close>: strings as byte lists, runes, case mapping, trimming, splitting, numbers, wrap-around
    of 64-bit integers; the lemmas on them that the components share.
  \<^item> \<open>Api_Types\<close> (\<^verbatim>\<open>v1alpha1/physicaldisk_types.go\<close>): the resource as records, the health statuses as
    a linear order by severity, the invariant \<open>health_in_sync\<close> that the API states.
  \<^item> \<open>Go_Heap\<close>, \<open>Deep_Copy\<close> (\<^verbatim>\<open>v1alpha1/zz_generated.deepcopy.go\<close>): the generated deep copies over an
    explicit heap; they are proved to yield the same value in memory of its own, which is what lets
    the other theories work with values.
  \<^item> \<open>Smartctl\<close> (\<^verbatim>\<open>smartmontools/types.go\<close>) and \<open>Assessment\<close> (\<^verbatim>\<open>assessment/assessment.go\<close>): the output of
    smartctl; \<open>Evaluate\<close> is proved to be the maximum of independent indications.
  \<^item> \<open>Json\<close>, \<open>Smartctl_Json\<close>: reading JSON as \<^verbatim>\<open>encoding/json\<close> does, and decoding by the struct tags of
    \<^verbatim>\<open>types.go\<close>; what JSON stands for an output is stated independently of the decoder (\<open>rep_struct\<close>),
    and every layout of such a text is decoded to the output.
  \<^item> \<open>Cmd_Args\<close> (\<^verbatim>\<open>utils/cmd_args.go\<close>), \<open>Labels\<close> (\<^verbatim>\<open>utils/labels.go\<close>, \<^verbatim>\<open>constants.go\<close>): the splitting of command
    lines against a grammar; label values, with the Kubernetes validation as a locale.
  \<^item> \<open>Disk_Filter\<close>, \<open>Naming\<close> (with \<open>Sha256\<close>), \<open>Udev\<close>, \<open>Uevent\<close> (\<^verbatim>\<open>discovery/*.go\<close>): exclusion rules with a parse
    and print round trip; stable paths and valid resource names; the scan of sysfs and of the udev
    database without its loop; the decoder of netlink messages and the receive loop.
  \<^item> \<open>Runner\<close> (\<^verbatim>\<open>smartmontools/runner.go\<close>): \<open>Collect\<close> and its errors; the locale \<open>smart_runner\<close> states
    what a caller may rely on.
  \<^item> \<open>Metrics\<close> (\<^verbatim>\<open>metrics/metrics.go\<close>): gauge operations as data; the locale \<open>gauge_registry\<close> is the
    Prometheus client.
  \<^item> \<open>Disk_Status\<close>, \<open>Controller\<close>, \<open>Api_Server\<close>, \<open>Shared_Server\<close>, \<open>Monitor_Loop\<close>, \<open>Udev_Watch\<close>,
    \<open>Hazards\<close>
    (\<^verbatim>\<open>controller/physicaldisk_controller.go\<close>): the methods that compute a status; the handlers with
    explicit passing of the API server and a trace of everything done; the refinement of a scan
    and of a request against a map of resources, alone and between the calls of other writers; \<open>Start\<close> as
    a step relation with runs, and its termination once the context is cancelled; the
    goroutine that connects to udev, put together with the loop; behaviour that goes against the
    documentation, and its repair by the next scan.
  \<^item> \<open>Daemon\<close>, \<open>Wiring\<close> (\<^verbatim>\<open>cmd/node-disk-sentinel/main.go\<close>, \<^verbatim>\<open>v1alpha1/groupversion_info.go\<close>): options, checks,
    configuration, HTTP endpoints; \<open>run\<close> and \<open>main\<close> as functions of the answers of the libraries, with
    the parts in the order they are started and stopped; the API group; the cache and the watch of
    the manager, with the proof that no write of the daemon requests a reconcile.

  \<^bold>\<open>What is a parameter.\<close>  Code outside the repository: the operating system (\<open>FileSystem\<close>, \<open>RunOs\<close>,
  \<open>SocketOs\<close>), the deep copies of Kubernetes types (locale \<open>api_machinery\<close>), the Kubernetes client
  (\<open>Client\<close>, with the locales \<open>disk_store\<close>, \<open>owned_store\<close> and \<open>api_server\<close>), what the API server stores
  for a write (locale \<open>watching_server\<close>), the answers of controller-runtime (\<open>Libraries\<close>) and its
  predicate (locale \<open>generation_filter\<close>), \<^verbatim>\<open>SetStatusCondition\<close> (locale \<open>status_conditions\<close>),
  \<^verbatim>\<open>RetryOnConflict\<close> (locale \<open>conflict_retry\<close>), the merge patch (locale \<open>status_merge\<close>; \<open>merge_status\<close> is
  a JSON merge patch field by field), label validation, Prometheus.  Every
  locale is interpreted, on the model's definitions where the model provides the interface
  (\<open>smart_runner\<close>, \<open>status_monitor\<close>, \<open>disk_monitor\<close>, \<open>world_invariant\<close>), and on a function with the
  documented behaviour where a library provides it.

  \<^bold>\<open>How the proofs are built.\<close>  \<open>world_invariant\<close> proves once that a property of the world which every
  single action keeps is kept by all handlers; it is instantiated with "all actions are of the kinds
  that the daemon is allowed", with "all actions concern resources of the own node" and with "all
  stored disks are in sync", and \<open>Monitor_Loop\<close> carries the first two over to every run of the
  daemon.  \<open>served_monitor\<close> relates the handlers to an abstract update of a map of resources; the
  locale \<open>interference\<close> shows that a server with other writers is again such a server, for the part
  of a node.
  Loops are related to their specification by induction with a general state (\<open>scan_spec\<close>,
  \<open>scan_telemetry_fold\<close>, \<open>ata_scan_fold\<close>, \<open>listen_loop_spec\<close>).

  \<^bold>\<open>Bounds.\<close>  Go's \<^verbatim>\<open>int\<close> and \<^verbatim>\<open>int64\<close> are integers; the operations that can leave 64 bits (sums of raw
  sector counts, capacities, seconds of operation) are wrapped.  There is no fuel: all loops are
  structural or have a measure; the unbounded loops (\<open>listen\<close>, \<open>Start\<close>) are a recursion over the
  received outcomes and a step relation.

  \<^bold>\<open>Not modelled.\<close>  Logging; the wording of JSON errors; the HTTP server itself and the parsing of
  flags, which belong to the standard library; charts, manifests and build files.  Time is not
  modelled beyond the order of events.  A scan and a request are one step each of \<open>Monitor_Loop\<close>, on a
  machine that may differ from step to step.  Writers of other nodes may act between any two calls
  of a scan (\<open>Shared_Server\<close>).  That the daemon writes only what concerns its node holds for every
  client that keeps \<open>nodeName\<close> immutable, one with other writers between the calls included
  (\<open>contended_owned\<close>), hence for every interleaving.  That the handlers keep the health in sync with
  the condition Degraded is stated for one handler that runs alone; what the handlers of one node do
  to each other's status patches is the subject of \<open>Hazards\<close>, where this invariant is refuted for
  them, and where a later scan is shown to repair the damage.
\<close>

end
